(* ===== verification/Py_Base.thy ===== *)
theory Py_Base
  imports Main "HOL-Library.AList" "HOL-Library.Sublist"
begin

text \<open>
  The prelude: what the repository's Python scripts use of the language and its standard
  library, as total HOL functions. It holds the exceptions as values of a sum type, the
  loops that may raise (\<open>foldE\<close>, \<open>mapE\<close>, \<open>filterE\<close>), insertion-ordered dictionaries as
  association lists, the \<^verbatim>\<open>str\<close> methods (strip, find, partition, split, join, replace,
  ljust, splitlines), the decimal rendering of an \<^verbatim>\<open>int\<close> and \<^verbatim>\<open>int()\<close>, and the lemmas about
  them that the component theories share.

  A Python string is a \<open>string\<close> whose characters are read as code points below 256, so the
  character classes below are the ones of Python's \<^verbatim>\<open>str\<close> on Latin-1 text.
\<close>

named_theorems py_defs \<open>definitions of the Python layer, unfolded in component proofs\<close>
named_theorems py_inv \<open>preservation lemmas of the state-passing loops\<close>

section \<open>Exceptions\<close>

datatype py_error =
    KeyError string
  | ValueError string
  | TypeError string
  | IndexError
  | AssertionError string
  | AttributeError string
  | SystemExit string
  | FileNotFoundError string

type_synonym 'a result = "py_error + 'a"

definition bindE :: "'a result \<Rightarrow> ('a \<Rightarrow> 'b result) \<Rightarrow> 'b result" where
  "bindE m f = (case m of Inl e \<Rightarrow> Inl e | Inr x \<Rightarrow> f x)"

text \<open>For evaluation the bind is a case distinction, so that the continuation waits for the value.\<close>

declare bindE_def [code_unfold]

lemma bindE_simps [simp]:
  "bindE (Inl e) f = Inl e"
  "bindE (Inr x) f = f x"
  by (simp_all add: bindE_def)

lemma bindE_Inr_conv [simp]: "bindE m f = Inr y \<longleftrightarrow> (\<exists>x. m = Inr x \<and> f x = Inr y)"
  by (cases m) auto

lemma bindE_elim: "bindE m f = Inr y \<Longrightarrow> (\<And>x. m = Inr x \<Longrightarrow> f x = Inr y \<Longrightarrow> P) \<Longrightarrow> P"
  by (cases m) auto

lemma bindE_assoc: "bindE (bindE m f) g = bindE m (\<lambda>x. bindE (f x) g)"
  by (cases m) auto

lemma bindE_cong [fundef_cong]:
  "m = m' \<Longrightarrow> (\<And>x. m' = Inr x \<Longrightarrow> f x = f' x) \<Longrightarrow> bindE m f = bindE m' f'"
  by (cases m') auto

text \<open>A \<^verbatim>\<open>for\<close> loop whose body may raise, threading the loop's state.\<close>

fun foldE :: "('s \<Rightarrow> 'a \<Rightarrow> 's result) \<Rightarrow> 's \<Rightarrow> 'a list \<Rightarrow> 's result" where
  "foldE f s [] = Inr s"
| "foldE f s (x # xs) = bindE (f s x) (\<lambda>s'. foldE f s' xs)"

fun mapE :: "('a \<Rightarrow> 'b result) \<Rightarrow> 'a list \<Rightarrow> 'b list result" where
  "mapE f [] = Inr []"
| "mapE f (x # xs) = bindE (f x) (\<lambda>y. bindE (mapE f xs) (\<lambda>ys. Inr (y # ys)))"

fun filterE :: "('a \<Rightarrow> bool result) \<Rightarrow> 'a list \<Rightarrow> 'a list result" where
  "filterE p [] = Inr []"
| "filterE p (x # xs) =
     bindE (p x) (\<lambda>b. bindE (filterE p xs) (\<lambda>ys. Inr (if b then x # ys else ys)))"

text \<open>\<^verbatim>\<open>any(...)\<close> over a generator: it stops at the first true element.\<close>

fun anyE :: "('a \<Rightarrow> bool result) \<Rightarrow> 'a list \<Rightarrow> bool result" where
  "anyE p [] = Inr False"
| "anyE p (x # xs) = bindE (p x) (\<lambda>b. if b then Inr True else anyE p xs)"

lemma foldE_append: "foldE f s (xs @ ys) = bindE (foldE f s xs) (\<lambda>s'. foldE f s' ys)"
  by (induction xs arbitrary: s) (simp_all add: bindE_assoc)

lemma foldE_invariant:
  assumes "foldE f s xs = Inr s'" and "P s"
    and "\<And>s x s'. x \<in> set xs \<Longrightarrow> P s \<Longrightarrow> f s x = Inr s' \<Longrightarrow> P s'"
  shows "P s'"
  using assms
proof (induction xs arbitrary: s)
  case (Cons x xs)
  then obtain t where t: "f s x = Inr t" "foldE f t xs = Inr s'" by auto
  have "P t" using Cons.prems(2,3) t(1) by (meson list.set_intros(1))
  then show ?case using Cons.IH [OF t(2)] Cons.prems(3) by (meson list.set_intros(2))
qed simp

text \<open>The same with an invariant that knows which elements the loop has already seen.\<close>

lemma foldE_invariant_prefix:
  assumes "foldE f s xs = Inr s'" and "P [] s"
    and "\<And>ys x zs s s'. xs = ys @ x # zs \<Longrightarrow> P ys s \<Longrightarrow> f s x = Inr s' \<Longrightarrow> P (ys @ [x]) s'"
  shows "P xs s'"
proof -
  have "P (ws @ xs) s'"
    if "foldE f s xs = Inr s'" "P ws s"
      "\<And>ys x zs s s'. ws @ xs = ys @ x # zs \<Longrightarrow> P ys s \<Longrightarrow> f s x = Inr s' \<Longrightarrow> P (ys @ [x]) s'"
    for ws
    using that
  proof (induction xs arbitrary: ws s)
    case (Cons x xs)
    then obtain t where t: "f s x = Inr t" "foldE f t xs = Inr s'" by auto
    have "P (ws @ [x]) t" using Cons.prems(2,3) t(1) by blast
    with Cons.IH [of t "ws @ [x]"] t(2) Cons.prems(3) show ?case by simp
  qed simp
  from this [of "[]"] assms show ?thesis by simp
qed

lemma filterE_conv: "filterE p xs = Inr ys \<Longrightarrow> ys = filter (\<lambda>x. p x = Inr True) xs"
  by (induction xs arbitrary: ys) auto

lemma filterE_total:
  "(\<And>x. x \<in> set xs \<Longrightarrow> \<exists>b. p x = Inr b) \<Longrightarrow> filterE p xs = Inr (filter (\<lambda>x. p x = Inr True) xs)"
proof (induction xs)
  case (Cons x xs)
  then obtain b where "p x = Inr b" by (metis list.set_intros(1))
  with Cons show ?case by (cases b) auto
qed simp

lemma filterE_cong [fundef_cong]:
  "xs = ys \<Longrightarrow> (\<And>x. x \<in> set ys \<Longrightarrow> p x = q x) \<Longrightarrow> filterE p xs = filterE q ys"
  by (induction xs arbitrary: ys) auto

lemma mapE_cong [fundef_cong]:
  "xs = ys \<Longrightarrow> (\<And>x. x \<in> set ys \<Longrightarrow> f x = g x) \<Longrightarrow> mapE f xs = mapE g ys"
  by (induction xs arbitrary: ys) auto

lemma mapE_Inr_map: "mapE (\<lambda>x. Inr (f x)) xs = Inr (map f xs)"
  by (induction xs) auto

lemma mapE_length: "mapE f xs = Inr ys \<Longrightarrow> length ys = length xs"
  by (induction xs arbitrary: ys) auto

lemma mapE_nth: "mapE f xs = Inr ys \<Longrightarrow> i < length xs \<Longrightarrow> f (xs ! i) = Inr (ys ! i)"
proof (induction xs arbitrary: ys i)
  case (Cons x xs)
  then show ?case by (cases i) auto
qed simp

lemma mapE_set: "mapE f xs = Inr ys \<Longrightarrow> y \<in> set ys \<Longrightarrow> \<exists>x\<in>set xs. f x = Inr y"
  by (induction xs arbitrary: ys) auto

lemma filter_hd: "filter P xs = t # ts \<Longrightarrow> t \<in> set xs \<and> P t"
  by (auto dest: filter_eq_ConsD)

section \<open>Dictionaries\<close>

text \<open>
  A Python \<^verbatim>\<open>dict\<close> keeps its insertion order: it is an association list with distinct keys;
  \<open>AList.update\<close> overwrites in place or appends, \<open>AList.delete\<close> removes.
\<close>

type_synonym ('k, 'v) dict = "('k \<times> 'v) list"

abbreviation dkeys :: "('k, 'v) dict \<Rightarrow> 'k list" where
  "dkeys d \<equiv> map fst d"

abbreviation dict_wf :: "('k, 'v) dict \<Rightarrow> bool" where
  "dict_wf d \<equiv> distinct (map fst d)"

definition dget :: "('k \<Rightarrow> string) \<Rightarrow> ('k, 'v) dict \<Rightarrow> 'k \<Rightarrow> 'v result" where
  "dget sh d k = (case map_of d k of None \<Rightarrow> Inl (KeyError (sh k)) | Some v \<Rightarrow> Inr v)"

text \<open>\<^verbatim>\<open>dict(d, **over)\<close> and \<^verbatim>\<open>d | over\<close>: the right one wins.\<close>

definition dmerge :: "('k, 'v) dict \<Rightarrow> ('k, 'v) dict \<Rightarrow> ('k, 'v) dict" where
  "dmerge d over = foldl (\<lambda>acc (k, v). AList.update k v acc) d over"

lemma dget_Inr [simp]: "dget sh d k = Inr v \<longleftrightarrow> map_of d k = Some v"
  by (simp add: dget_def split: option.splits)

lemma dict_wf_update: "dict_wf d \<Longrightarrow> dict_wf (AList.update k v d)"
  by (rule distinct_update)

lemma dict_wf_delete: "dict_wf d \<Longrightarrow> dict_wf (AList.delete k d)"
  by (rule distinct_delete)

lemma dkeys_update_new: "k \<notin> set (dkeys d) \<Longrightarrow> AList.update k v d = d @ [(k, v)]"
  by (induction d) auto

lemma dict_set_update: "(k', v') \<in> set (AList.update k v d) \<Longrightarrow> (k', v') = (k, v) \<or> (k', v') \<in> set d"
  by (induction d) (auto split: if_splits)

lemma map_of_update_dict: "map_of (AList.update k v d) = (map_of d)(k \<mapsto> v)"
  by (simp add: update_conv')

lemma map_of_delete_dict: "map_of (AList.delete k d) = (map_of d)(k := None)"
  by (simp add: delete_conv')

lemma dmerge_wf: "dict_wf d \<Longrightarrow> dict_wf (dmerge d over)"
  unfolding dmerge_def
  by (induction over arbitrary: d) (auto simp: dict_wf_update split: prod.split)

lemma dmerge_lookup: "map_of (dmerge d over) = map_of d ++ map_of (rev over)"
  unfolding dmerge_def
  by (induction over arbitrary: d) (auto simp: map_of_update_dict map_add_assoc fun_eq_iff map_add_def split: option.splits)

end
