(* ===== verification/Py_Str.thy ===== *)
theory Py_Str
  imports Py_Base
begin

text \<open>
  Python's \<^verbatim>\<open>str\<close>: character classes, \<^verbatim>\<open>strip\<close>, \<^verbatim>\<open>find\<close>, \<^verbatim>\<open>partition\<close>, \<^verbatim>\<open>split\<close>, \<^verbatim>\<open>join\<close>,
  \<^verbatim>\<open>replace\<close>, \<^verbatim>\<open>splitlines\<close>, \<^verbatim>\<open>ljust\<close>, \<^verbatim>\<open>rjust\<close>, the decimal notation of integers and
  \<^verbatim>\<open>int()\<close>. The lemmas are the laws the scripts rely on: what a find returns, that partition,
  split and join take a string apart and put it together again, that \<^verbatim>\<open>int(str(i))\<close> is \<open>i\<close>.
\<close>

section \<open>Characters\<close>

abbreviation cnl :: char where "cnl \<equiv> CHR 0x0A"
abbreviation cbs :: char where "cbs \<equiv> CHR 0x5C"
abbreviation cdq :: char where "cdq \<equiv> CHR 0x22"
abbreviation nl :: string where "nl \<equiv> [CHR 0x0A]"
abbreviation bs :: string where "bs \<equiv> [CHR 0x5C]"
abbreviation dq :: string where "dq \<equiv> [CHR 0x22]"

definition code :: "char \<Rightarrow> nat" where
  "code c = of_char c"

lemma code_inj [simp]: "code c = code d \<longleftrightarrow> c = d"
  by (simp add: code_def)

definition is_space :: "char \<Rightarrow> bool" where
  "is_space c = (let n = code c in (9 \<le> n \<and> n \<le> 13) \<or> (28 \<le> n \<and> n \<le> 32) \<or> n = 133 \<or> n = 160)"

definition is_digit :: "char \<Rightarrow> bool" where
  "is_digit c = (48 \<le> code c \<and> code c \<le> 57)"

definition is_word :: "char \<Rightarrow> bool" where
  "is_word c = (let n = code c in
     is_digit c \<or> n = 95 \<or> (65 \<le> n \<and> n \<le> 90) \<or> (97 \<le> n \<and> n \<le> 122) \<or>
     n \<in> {170, 178, 179, 181, 185, 186, 188, 189, 190} \<or>
     (192 \<le> n \<and> n \<le> 255 \<and> n \<noteq> 215 \<and> n \<noteq> 247))"

definition is_linebreak :: "char \<Rightarrow> bool" where
  "is_linebreak c = (let n = code c in (10 \<le> n \<and> n \<le> 13) \<or> (28 \<le> n \<and> n \<le> 30) \<or> n = 133)"

text \<open>The same classes on the bits of a character, for evaluation.\<close>

lemma is_digit_code [code]:
  "is_digit (Char b0 b1 b2 b3 b4 b5 b6 b7) =
     (b4 \<and> b5 \<and> \<not> b6 \<and> \<not> b7 \<and> (\<not> b3 \<or> (\<not> b1 \<and> \<not> b2)))"
  unfolding is_digit_def code_def
  by (cases b0; cases b1; cases b2; cases b3; cases b4; cases b5; cases b6; cases b7) simp_all

lemma is_space_code [code]:
  "is_space (Char b0 b1 b2 b3 b4 b5 b6 b7) =
     (if b7 then (\<not> b6 \<and> \<not> b4 \<and> ((\<not> b5 \<and> \<not> b3 \<and> b2 \<and> \<not> b1 \<and> b0) \<or> (b5 \<and> \<not> b3 \<and> \<not> b2 \<and> \<not> b1 \<and> \<not> b0)))
      else \<not> b6 \<and> (if b5 then \<not> b4 \<and> \<not> b3 \<and> \<not> b2 \<and> \<not> b1 \<and> \<not> b0
                    else b3 \<and> (if b4 then b2 else (b0 \<or> b1 \<or> b2) \<and> \<not> (b2 \<and> b1))))"
  unfolding is_space_def code_def Let_def
  by (cases b0; cases b1; cases b2; cases b3; cases b4; cases b5; cases b6; cases b7) simp_all

lemma is_digit_not_space: "is_digit c \<Longrightarrow> \<not> is_space c"
  by (auto simp: is_digit_def is_space_def Let_def)

lemma is_digit_not_linebreak: "is_digit c \<Longrightarrow> \<not> is_linebreak c"
  by (auto simp: is_digit_def is_linebreak_def Let_def)

lemma linebreak_space: "is_linebreak c \<Longrightarrow> is_space c"
  by (auto simp: is_space_def is_linebreak_def Let_def)

section \<open>Stripping\<close>

definition lstrip_by :: "(char \<Rightarrow> bool) \<Rightarrow> string \<Rightarrow> string" where
  "lstrip_by p s = dropWhile p s"

definition rstrip_by :: "(char \<Rightarrow> bool) \<Rightarrow> string \<Rightarrow> string" where
  "rstrip_by p s = rev (dropWhile p (rev s))"

definition strip_by :: "(char \<Rightarrow> bool) \<Rightarrow> string \<Rightarrow> string" where
  "strip_by p s = rstrip_by p (lstrip_by p s)"

definition strip :: "string \<Rightarrow> string" where
  "strip s = strip_by is_space s"

lemma rstrip_by_prefix: "\<exists>t. s = rstrip_by p s @ t \<and> (\<forall>c\<in>set t. p c)"
proof -
  have "rev s = takeWhile p (rev s) @ dropWhile p (rev s)" by simp
  then have "s = rstrip_by p s @ rev (takeWhile p (rev s))"
    unfolding rstrip_by_def by (metis rev_append rev_rev_ident)
  then show ?thesis by (metis set_rev set_takeWhileD)
qed

lemma rstrip_by_noop: "s = [] \<or> \<not> p (last s) \<Longrightarrow> rstrip_by p s = s"
  by (cases s rule: rev_cases) (auto simp: rstrip_by_def)

lemma lstrip_by_noop: "s = [] \<or> \<not> p (hd s) \<Longrightarrow> lstrip_by p s = s"
  by (cases s) (auto simp: lstrip_by_def)

lemma strip_by_noop: "s = [] \<or> (\<not> p (hd s) \<and> \<not> p (last s)) \<Longrightarrow> strip_by p s = s"
  unfolding strip_by_def by (metis lstrip_by_noop rstrip_by_noop)

lemma rstrip_by_length: "length (rstrip_by p s) \<le> length s"
  by (simp add: rstrip_by_def) (metis length_dropWhile_le length_rev)

lemma lstrip_by_length: "length (lstrip_by p s) \<le> length s"
  by (simp add: lstrip_by_def length_dropWhile_le)

lemma strip_length: "length (strip s) \<le> length s"
  unfolding strip_def strip_by_def by (metis lstrip_by_length rstrip_by_length order_trans)

lemma rstrip_by_all: "(\<And>c. c \<in> set t \<Longrightarrow> p c) \<Longrightarrow> rstrip_by p (s @ t) = rstrip_by p s"
  unfolding rstrip_by_def by (metis dropWhile_append2 rev_append set_rev)

lemma lstrip_by_all: "(\<And>c. c \<in> set t \<Longrightarrow> p c) \<Longrightarrow> lstrip_by p (t @ s) = lstrip_by p s"
  by (simp add: lstrip_by_def dropWhile_append2)

lemma strip_surround:
  assumes "\<And>c. c \<in> set a \<Longrightarrow> is_space c" "\<And>c. c \<in> set b \<Longrightarrow> is_space c"
  shows "strip (a @ s @ b) = strip s"
proof -
  have "lstrip_by is_space (a @ s @ b) = lstrip_by is_space (s @ b)" using assms(1) by (rule lstrip_by_all)
  also have "rstrip_by is_space \<dots> = rstrip_by is_space (lstrip_by is_space s)"
  proof (cases "\<forall>c\<in>set s. is_space c")
    case True
    with assms(2) show ?thesis by (simp add: lstrip_by_def dropWhile_append2 dropWhile_eq_Nil_conv [THEN iffD2])
  next
    case False
    then have "lstrip_by is_space (s @ b) = lstrip_by is_space s @ b" by (auto simp: lstrip_by_def dropWhile_append1)
    with rstrip_by_all [of b is_space] assms(2) show ?thesis by simp
  qed
  finally show ?thesis by (simp add: strip_def strip_by_def)
qed

text \<open>What strip returns has no character of the class at either end.\<close>

lemma strip_ends: "strip s = [] \<or> (\<not> is_space (hd (strip s)) \<and> \<not> is_space (last (strip s)))"
proof (cases "strip s = []")
  case False
  have ne: "lstrip_by is_space s \<noteq> []"
    using False by (auto simp: strip_def strip_by_def rstrip_by_def simp del: dropWhile_eq_Nil_conv)
  have l: "\<not> is_space (last (strip s))"
    using False unfolding strip_def strip_by_def rstrip_by_def
    by (metis (no_types, lifting) hd_dropWhile last_rev rev_is_Nil_conv)
  obtain t where "lstrip_by is_space s = strip s @ t"
    using rstrip_by_prefix [of "lstrip_by is_space s" is_space] by (auto simp: strip_def strip_by_def)
  then have "hd (strip s) = hd (lstrip_by is_space s)" using False by simp
  then have "\<not> is_space (hd (strip s))"
    using ne unfolding lstrip_by_def by (metis hd_dropWhile)
  with l show ?thesis by simp
qed simp

lemma strip_idem: "strip (strip s) = strip s"
  unfolding strip_def [of "strip s"] by (rule strip_by_noop) (rule strip_ends)

section \<open>Searching\<close>

abbreviation startswith :: "string \<Rightarrow> string \<Rightarrow> bool" where
  "startswith s p \<equiv> prefix p s"

abbreviation endswith :: "string \<Rightarrow> string \<Rightarrow> bool" where
  "endswith s p \<equiv> suffix p s"

fun str_find :: "string \<Rightarrow> string \<Rightarrow> nat option" where
  "str_find p [] = (if p = [] then Some 0 else None)"
| "str_find p (x # xs) =
     (if prefix p (x # xs) then Some 0 else map_option Suc (str_find p xs))"

definition str_in :: "string \<Rightarrow> string \<Rightarrow> bool" where
  "str_in p s = (str_find p s \<noteq> None)"

text \<open>\<^verbatim>\<open>s.index(p)\<close> raises where \<^verbatim>\<open>s.find(p)\<close> says -1.\<close>

definition str_index :: "string \<Rightarrow> string \<Rightarrow> nat result" where
  "str_index s p = (case str_find p s of None \<Rightarrow> Inl (ValueError ''substring not found'') | Some n \<Rightarrow> Inr n)"

lemma str_find_Some:
  "str_find p s = Some n \<Longrightarrow> n \<le> length s \<and> prefix p (drop n s) \<and> (\<forall>m<n. \<not> prefix p (drop m s))"
proof (induction s arbitrary: n)
  case (Cons x xs)
  show ?case
  proof (cases "prefix p (x # xs)")
    case True
    with Cons.prems show ?thesis by simp
  next
    case False
    with Cons.prems obtain m where "str_find p xs = Some m" "n = Suc m" by auto
    with Cons.IH [of m] False show ?thesis
      by (auto simp: less_Suc_eq_0_disj)
  qed
qed (auto split: if_splits)

lemma str_find_None: "str_find p s = None \<Longrightarrow> \<not> prefix p (drop n s)"
proof (induction s arbitrary: n)
  case (Cons x xs)
  then show ?case by (cases n) (auto split: if_splits)
qed (auto split: if_splits)

lemma str_find_first:
  assumes "prefix p (drop n s)" "n \<le> length s" "\<forall>m<n. \<not> prefix p (drop m s)"
  shows "str_find p s = Some n"
proof (cases "str_find p s")
  case None
  with str_find_None assms(1) show ?thesis by blast
next
  case (Some k)
  from str_find_Some [OF Some] assms have "k = n"
    by (metis linorder_neqE_nat)
  with Some show ?thesis by simp
qed

lemma str_in_iff: "str_in p s \<longleftrightarrow> (\<exists>a b. s = a @ p @ b)"
proof
  assume "str_in p s"
  then obtain n where "str_find p s = Some n" by (auto simp: str_in_def)
  then have "prefix p (drop n s)" by (simp add: str_find_Some)
  then show "\<exists>a b. s = a @ p @ b" by (metis append_take_drop_id prefixE)
next
  assume "\<exists>a b. s = a @ p @ b"
  then obtain a b where "s = a @ p @ b" by blast
  then have "prefix p (drop (length a) s)" by simp
  then show "str_in p s" using str_find_None by (auto simp: str_in_def)
qed

lemma str_find_char_append: "c \<notin> set a \<Longrightarrow> str_find [c] (a @ c # b) = Some (length a)"
  by (induction a) auto

lemma str_find_char_None: "str_find [c] s = None \<longleftrightarrow> c \<notin> set s"
  by (induction s) auto

section \<open>Partition, split and join\<close>

definition partition :: "string \<Rightarrow> string \<Rightarrow> string \<times> string \<times> string" where
  "partition s sep = (case str_find sep s of
     None \<Rightarrow> (s, [], []) | Some n \<Rightarrow> (take n s, sep, drop (n + length sep) s))"

lemma partition_glue: "partition s sep = (a, m, b) \<Longrightarrow> a @ m @ b = s"
proof (cases "str_find sep s")
  case (Some n)
  assume p: "partition s sep = (a, m, b)"
  from str_find_Some [OF Some] obtain t where t: "drop n s = sep @ t" by (auto elim: prefixE)
  have "drop (n + length sep) s = drop (length sep) (drop n s)" by (simp add: add.commute)
  with t have "drop (n + length sep) s = t" by simp
  with p Some t show ?thesis by (auto simp: partition_def) (metis append_take_drop_id)
qed (auto simp: partition_def)

text \<open>\<^verbatim>\<open>s.split()\<close>: the maximal runs of non-whitespace.\<close>

function split_ws :: "string \<Rightarrow> string list" where
  "split_ws s = (let t = dropWhile is_space s in
     if t = [] then []
     else takeWhile (\<lambda>c. \<not> is_space c) t # split_ws (dropWhile (\<lambda>c. \<not> is_space c) t))"
  by pat_completeness auto
termination
proof (relation "measure length", goal_cases)
  case (2 s t)
  have "length (dropWhile (\<lambda>c. \<not> is_space c) t) \<le> length t" by (rule length_dropWhile_le)
  moreover have "length t \<le> length s" using 2 by (simp add: length_dropWhile_le)
  moreover have "length (dropWhile (\<lambda>c. \<not> is_space c) t) \<noteq> length t"
  proof -
    have "\<not> is_space (hd t)" using 2 by (metis hd_dropWhile)
    with 2(2) obtain c cs where "t = c # cs" "\<not> is_space c" by (cases t) auto
    then have "length (dropWhile (\<lambda>c. \<not> is_space c) t) \<le> length cs" by (simp add: length_dropWhile_le)
    with \<open>t = c # cs\<close> show ?thesis by simp
  qed
  ultimately show ?case by simp
qed simp

declare split_ws.simps [simp del]

lemma split_ws_tokens:
  "w \<in> set (split_ws s) \<Longrightarrow> w \<noteq> [] \<and> (\<forall>c\<in>set w. \<not> is_space c \<and> c \<in> set s)"
proof (induction s rule: split_ws.induct)
  case (1 s)
  let ?t = "dropWhile is_space s"
  show ?case
  proof (cases "?t = []")
    case True
    with 1 show ?thesis by (simp add: split_ws.simps [of s])
  next
    case False
    then have sp: "split_ws s = takeWhile (\<lambda>c. \<not> is_space c) ?t # split_ws (dropWhile (\<lambda>c. \<not> is_space c) ?t)"
      by (simp add: split_ws.simps [of s] Let_def)
    have sub: "set ?t \<subseteq> set s" by (auto dest: set_dropWhileD)
    show ?thesis
    proof (cases "w = takeWhile (\<lambda>c. \<not> is_space c) ?t")
      case True
      have "\<not> is_space (hd ?t)" using False by (metis hd_dropWhile)
      with False have "w \<noteq> []" using True by (cases ?t) auto
      with True sub show ?thesis by (auto dest!: set_takeWhileD)
    next
      case False2: False
      with 1(2) sp have "w \<in> set (split_ws (dropWhile (\<lambda>c. \<not> is_space c) ?t))" by simp
      with 1(1) [OF refl False] show ?thesis by (meson set_dropWhileD sub subsetD)
    qed
  qed
qed

fun split_on :: "char \<Rightarrow> string \<Rightarrow> string list" where
  "split_on c [] = [[]]"
| "split_on c (x # xs) =
     (if x = c then [] # split_on c xs
      else (case split_on c xs of [] \<Rightarrow> [[x]] | w # ws \<Rightarrow> (x # w) # ws))"

fun join :: "string \<Rightarrow> string list \<Rightarrow> string" where
  "join sep [] = []"
| "join sep [w] = w"
| "join sep (w # ws) = w @ sep @ join sep ws"

lemma join_Cons: "ws \<noteq> [] \<Longrightarrow> join sep (w # ws) = w @ sep @ join sep ws"
  by (cases ws) auto

lemma split_on_ne [simp]: "split_on c s \<noteq> []"
  by (induction s) (auto split: list.splits)

lemma join_split_on: "join [c] (split_on c s) = s"
proof (induction s)
  case (Cons x xs)
  show ?case
  proof (cases "x = c")
    case True
    with Cons show ?thesis by (simp add: join_Cons)
  next
    case False
    obtain w ws where "split_on c xs = w # ws" by (cases "split_on c xs") auto
    with Cons False show ?thesis by (cases ws) auto
  qed
qed simp

lemma split_on_piece: "w \<in> set (split_on c s) \<Longrightarrow> c \<notin> set w"
proof (induction s arbitrary: w)
  case (Cons x xs)
  obtain v vs where "split_on c xs = v # vs" by (cases "split_on c xs") auto
  with Cons show ?case by (auto split: if_splits)
qed simp

lemma split_on_no: "c \<notin> set s \<Longrightarrow> split_on c s = [s]"
  by (induction s) auto

lemma split_on_append: "c \<notin> set a \<Longrightarrow> split_on c (a @ c # b) = a # split_on c b"
  by (induction a) auto

lemma split_on_join:
  "ws \<noteq> [] \<Longrightarrow> (\<And>w. w \<in> set ws \<Longrightarrow> c \<notin> set w) \<Longrightarrow> split_on c (join [c] ws) = ws"
proof (induction ws)
  case (Cons w ws)
  then show ?case by (cases ws) (auto simp: split_on_no split_on_append)
qed simp

lemma join_append:
  "xs \<noteq> [] \<Longrightarrow> ys \<noteq> [] \<Longrightarrow> join sep (xs @ ys) = join sep xs @ sep @ join sep ys"
proof (induction xs)
  case (Cons x xs)
  then show ?case by (cases xs) (auto simp: join_Cons)
qed simp

text \<open>\<^verbatim>\<open>splitlines()\<close>: carriage return and newline together are one line break; a line break
  at the end opens no further line.\<close>

fun splitlines :: "string \<Rightarrow> string list" where
  "splitlines [] = []"
| "splitlines (x # xs) =
     (if x = CHR 0x0D \<and> xs \<noteq> [] \<and> hd xs = cnl then [] # splitlines (tl xs)
      else if is_linebreak x then [] # splitlines xs
      else (case splitlines xs of
              [] \<Rightarrow> [[x]]
            | w # ws \<Rightarrow> (x # w) # ws))"

lemma splitlines_append_nl:
  "(\<And>c. c \<in> set a \<Longrightarrow> \<not> is_linebreak c) \<Longrightarrow> splitlines (a @ cnl # b) = a # splitlines b"
proof (induction a)
  case Nil
  have "is_linebreak cnl" by (simp add: is_linebreak_def code_def)
  then show ?case by simp
next
  case (Cons x xs)
  have x: "\<not> is_linebreak x" using Cons.prems by simp
  then have "x \<noteq> CHR 0x0D" by (auto simp: is_linebreak_def code_def)
  with x Cons show ?case by simp
qed

section \<open>Replacing and padding\<close>

function replace :: "string \<Rightarrow> string \<Rightarrow> string \<Rightarrow> string" where
  "replace p q s =
     (if p = [] then concat (map (\<lambda>c. q @ [c]) s) @ q
      else case str_find p s of
             None \<Rightarrow> s
           | Some n \<Rightarrow> take n s @ q @ replace p q (drop (n + length p) s))"
  by pat_completeness auto
termination
proof (relation "measure (\<lambda>(p, q, s). length s)", goal_cases)
  case (2 p q s n)
  from str_find_Some [OF 2(2)] have "prefix p (drop n s)" by simp
  then have "length p \<le> length s - n" by (metis length_drop prefix_length_le)
  moreover have "0 < length p" using 2(1) by simp
  ultimately show ?case by (simp del: length_greater_0_conv)
qed simp

declare replace.simps [simp del]

lemma replace_absent: "p \<noteq> [] \<Longrightarrow> \<not> str_in p s \<Longrightarrow> replace p q s = s"
  by (simp add: replace.simps str_in_def)

definition ljust :: "nat \<Rightarrow> string \<Rightarrow> string" where
  "ljust n s = s @ replicate (n - length s) CHR 0x20"

definition ljust_with :: "char \<Rightarrow> nat \<Rightarrow> string \<Rightarrow> string" where
  "ljust_with c n s = s @ replicate (n - length s) c"

definition rjust :: "nat \<Rightarrow> string \<Rightarrow> string" where
  "rjust n s = replicate (n - length s) CHR 0x20 @ s"

lemma length_ljust: "length (ljust n s) = max n (length s)"
  by (simp add: ljust_def)

lemma length_rjust: "length (rjust n s) = max n (length s)"
  by (simp add: rjust_def)

section \<open>Integers in decimal\<close>

definition digit_char :: "nat \<Rightarrow> char" where
  "digit_char d = char_of (48 + d)"

definition digit_val :: "char \<Rightarrow> nat" where
  "digit_val c = code c - 48"

fun show_nat :: "nat \<Rightarrow> string" where
  "show_nat n = (if n < 10 then [digit_char n] else show_nat (n div 10) @ [digit_char (n mod 10)])"

declare show_nat.simps [simp del]

definition show_int :: "int \<Rightarrow> string" where
  "show_int i = (if i < 0 then CHR ''-'' # show_nat (nat (- i)) else show_nat (nat i))"

text \<open>
  \<^verbatim>\<open>int(s)\<close>: surrounding whitespace, an optional sign, decimal digits with single underscores
  between them; anything else raises \<open>ValueError\<close>.
\<close>

fun digits_val :: "nat \<Rightarrow> string \<Rightarrow> nat option" where
  "digits_val acc [] = Some acc"
| "digits_val acc (c # cs) =
     (if is_digit c then digits_val (acc * 10 + digit_val c) cs
      else if c = CHR ''_'' \<and> cs \<noteq> [] \<and> is_digit (hd cs) then digits_val acc cs
      else None)"

definition nat_of_str :: "string \<Rightarrow> nat option" where
  "nat_of_str s = (if s \<noteq> [] \<and> is_digit (hd s) then digits_val 0 s else None)"

definition int_of_str :: "string \<Rightarrow> int option" where
  "int_of_str s = (case s of
     [] \<Rightarrow> None
   | c # cs \<Rightarrow> if c = CHR ''-'' then map_option (\<lambda>n. - int n) (nat_of_str cs)
              else if c = CHR ''+'' then map_option int (nat_of_str cs)
              else map_option int (nat_of_str s))"

definition py_int :: "string \<Rightarrow> int result" where
  "py_int s = (case int_of_str (strip s) of
     None \<Rightarrow> Inl (ValueError (''invalid literal for int() with base 10: '' @ s)) | Some i \<Rightarrow> Inr i)"

lemma code_digit_char: "d < 10 \<Longrightarrow> code (digit_char d) = 48 + d"
  by (simp add: code_def digit_char_def)

lemma is_digit_digit_char: "d < 10 \<Longrightarrow> is_digit (digit_char d)"
  by (simp add: is_digit_def code_digit_char)

lemma digit_val_digit_char: "d < 10 \<Longrightarrow> digit_val (digit_char d) = d"
  by (simp add: digit_val_def code_digit_char)

lemma show_nat_digits: "c \<in> set (show_nat n) \<Longrightarrow> is_digit c"
proof (induction n rule: show_nat.induct)
  case (1 n)
  then show ?case
    by (cases "n < 10") (auto simp: show_nat.simps [of n] is_digit_digit_char)
qed

lemma show_nat_ne [simp]: "show_nat n \<noteq> []"
  by (simp add: show_nat.simps [of n])

lemma digits_val_append:
  "(\<And>c. c \<in> set a \<Longrightarrow> is_digit c) \<Longrightarrow>
   digits_val acc (a @ b) = (case digits_val acc a of None \<Rightarrow> None | Some n \<Rightarrow> digits_val n b)"
  by (induction a arbitrary: acc) auto

lemma digits_val_show_nat: "digits_val 0 (show_nat n) = Some n"
proof (induction n rule: show_nat.induct)
  case (1 n)
  show ?case
  proof (cases "n < 10")
    case True
    then show ?thesis
      by (simp add: show_nat.simps [of n] is_digit_digit_char digit_val_digit_char)
  next
    case False
    with 1 have "digits_val 0 (show_nat (n div 10)) = Some (n div 10)" by simp
    with False show ?thesis
      by (simp add: show_nat.simps [of n] digits_val_append show_nat_digits
          is_digit_digit_char digit_val_digit_char)
  qed
qed

lemma nat_of_str_show_nat: "nat_of_str (show_nat n) = Some n"
  unfolding nat_of_str_def using show_nat_digits [of "hd (show_nat n)" n]
  by (simp add: digits_val_show_nat)

lemma sign_not_digit [simp]: "\<not> is_digit CHR ''-''" "\<not> is_digit CHR ''+''" "\<not> is_digit CHR ''.''"
  by (simp_all add: is_digit_def code_def)

lemma int_of_str_show_int: "int_of_str (show_int i) = Some i"
proof (cases "i < 0")
  case True
  then show ?thesis by (simp add: int_of_str_def show_int_def nat_of_str_show_nat)
next
  case False
  then obtain c cs where c: "show_nat (nat i) = c # cs" by (cases "show_nat (nat i)") auto
  then have "is_digit c" using show_nat_digits [of c "nat i"] by simp
  then have "c \<noteq> CHR ''-''" "c \<noteq> CHR ''+''" by auto
  with False c show ?thesis
    by (simp add: int_of_str_def show_int_def) (metis c nat_0_le nat_of_str_show_nat option.simps(9) not_less)
qed

lemma show_int_chars: "c \<in> set (show_int i) \<Longrightarrow> is_digit c \<or> c = CHR ''-''"
  by (auto simp: show_int_def dest: show_nat_digits split: if_splits)

lemma show_int_ne [simp]: "show_int i \<noteq> []"
  by (simp add: show_int_def)

lemma show_int_no_space: "c \<in> set (show_int i) \<Longrightarrow> \<not> is_space c"
  using show_int_chars [of c i] is_digit_not_space by (auto simp: is_space_def code_def)

lemma show_int_no_dot: "CHR ''.'' \<notin> set (show_int i)"
  using show_int_chars [of "CHR ''.''" i] by auto

lemma strip_show_int [simp]: "strip (show_int i) = show_int i"
  unfolding strip_def by (rule strip_by_noop) (meson hd_in_set last_in_set show_int_no_space show_int_ne)

text \<open>The decimal notation reads back: \<^verbatim>\<open>int(str(i)) == i\<close>, so distinct integers print differently.\<close>

lemma py_int_show_int [simp]: "py_int (show_int i) = Inr i"
  by (simp add: py_int_def int_of_str_show_int)

lemma show_int_inj [simp]: "show_int i = show_int j \<longleftrightarrow> i = j"
  by (metis int_of_str_show_int option.inject)

lemma show_nat_inj [simp]: "show_nat i = show_nat j \<longleftrightarrow> i = j"
  by (metis nat_of_str_show_nat option.inject)

end
