(* ===== verification/Py_Re.thy ===== *)
theory Py_Re
  imports Py_Str
begin

text \<open>
  The part of Python's \<^verbatim>\<open>re\<close> module that the scripts use. A pattern is a value of \<open>rx\<close>; every
  repetition in the repository's patterns is over a character class, so \<open>Rep\<close> repeats a class.
  \<open>mt r\<close> maps a matching state to the list of the states the pattern can reach, in the order in
  which the backtracking matcher of Python tries them: its head is the match Python returns.
  \<open>re_match\<close>, \<open>re_search\<close>, \<open>re_finditer\<close>, \<open>re_sub\<close> and \<open>re_split\<close> are the module's functions.

  The lemmas: the matcher finds exactly the matches of the declarative relation \<open>matches\<close>; a
  match never moves outside the subject; a search returns the leftmost match; splitting and
  substituting leave the text between the matches alone.
\<close>

section \<open>Patterns and the matcher\<close>

type_synonym cclass = "char \<Rightarrow> bool"
type_synonym groups = "nat \<Rightarrow> string option"

text \<open>A matching state: the text before the position, reversed; the text after it; the groups.\<close>

type_synonym mstate = "string \<times> string \<times> groups"

datatype rx =
    Eps
  | Cls cclass                \<comment> \<open>one character of a class\<close>
  | Lit string                \<comment> \<open>the characters of a literal text\<close>
  | Rep bool cclass           \<comment> \<open>\<open>True\<close>: greedy \<^verbatim>\<open>[..]*\<close>; \<open>False\<close>: lazy \<^verbatim>\<open>[..]*?\<close>\<close>
  | Seq rx rx
  | Alt rx rx
  | Grp nat rx
  | Look rx                   \<comment> \<open>lookahead\<close>
  | Bos                       \<comment> \<open>\<^verbatim>\<open>^\<close>\<close>
  | BolM                      \<comment> \<open>\<^verbatim>\<open>^\<close> under \<^verbatim>\<open>re.M\<close>\<close>
  | Eos                       \<comment> \<open>\<^verbatim>\<open>\Z\<close>\<close>
  | Eol                       \<comment> \<open>\<^verbatim>\<open>$\<close>: the end, or before a newline at the end\<close>
  | EolM                      \<comment> \<open>\<^verbatim>\<open>$\<close> under \<^verbatim>\<open>re.M\<close>\<close>
  | WordB                     \<comment> \<open>\<^verbatim>\<open>\b\<close>\<close>

abbreviation Opt :: "rx \<Rightarrow> rx" where "Opt r \<equiv> Alt r Eps"
abbreviation Star :: "cclass \<Rightarrow> rx" where "Star c \<equiv> Rep True c"
abbreviation Plus :: "cclass \<Rightarrow> rx" where "Plus c \<equiv> Seq (Cls c) (Rep True c)"

fun seqs :: "rx list \<Rightarrow> rx" where
  "seqs [] = Eps"
| "seqs [r] = r"
| "seqs (r # rs) = Seq r (seqs rs)"

fun rep_greedy :: "cclass \<Rightarrow> string \<Rightarrow> string \<Rightarrow> groups \<Rightarrow> mstate list" where
  "rep_greedy c pre [] g = [(pre, [], g)]"
| "rep_greedy c pre (x # xs) g =
     (if c x then rep_greedy c (x # pre) xs g @ [(pre, x # xs, g)] else [(pre, x # xs, g)])"

fun rep_lazy :: "cclass \<Rightarrow> string \<Rightarrow> string \<Rightarrow> groups \<Rightarrow> mstate list" where
  "rep_lazy c pre [] g = [(pre, [], g)]"
| "rep_lazy c pre (x # xs) g =
     (pre, x # xs, g) # (if c x then rep_lazy c (x # pre) xs g else [])"

definition at_word :: "string \<Rightarrow> bool" where
  "at_word s = (s \<noteq> [] \<and> is_word (hd s))"

text \<open>The text between two positions of one subject.\<close>

definition span :: "mstate \<Rightarrow> mstate \<Rightarrow> string" where
  "span s t = (case (s, t) of ((p, _, _), (p', _, _)) \<Rightarrow> rev (take (length p' - length p) p'))"

fun mt :: "rx \<Rightarrow> mstate \<Rightarrow> mstate list" where
  "mt Eps s = [s]"
| "mt (Cls c) (pre, rest, g) =
     (case rest of [] \<Rightarrow> [] | x # xs \<Rightarrow> if c x then [(x # pre, xs, g)] else [])"
| "mt (Lit w) (pre, rest, g) =
     (if prefix w rest then [(rev w @ pre, drop (length w) rest, g)] else [])"
| "mt (Rep b c) (pre, rest, g) = (if b then rep_greedy c pre rest g else rep_lazy c pre rest g)"
| "mt (Seq r q) s = concat (map (mt q) (mt r s))"
| "mt (Alt r q) s = mt r s @ mt q s"
| "mt (Grp n r) s = map (\<lambda>t. case t of (p, w, g) \<Rightarrow> (p, w, g(n \<mapsto> span s t))) (mt r s)"
| "mt (Look r) s = (case mt r s of [] \<Rightarrow> [] | (_, _, g) # _ \<Rightarrow> [(fst s, fst (snd s), g)])"
| "mt Bos (pre, rest, g) = (if pre = [] then [(pre, rest, g)] else [])"
| "mt BolM (pre, rest, g) = (if pre = [] \<or> hd pre = cnl then [(pre, rest, g)] else [])"
| "mt Eos (pre, rest, g) = (if rest = [] then [(pre, rest, g)] else [])"
| "mt Eol (pre, rest, g) = (if rest = [] \<or> rest = [cnl] then [(pre, rest, g)] else [])"
| "mt EolM (pre, rest, g) = (if rest = [] \<or> hd rest = cnl then [(pre, rest, g)] else [])"
| "mt WordB (pre, rest, g) = (if at_word pre \<noteq> at_word rest then [(pre, rest, g)] else [])"

section \<open>The functions of the module\<close>

record rmatch =
  m_pre :: string       \<comment> \<open>the subject before the match\<close>
  m_text :: string      \<comment> \<open>\<^verbatim>\<open>m.group(0)\<close>\<close>
  m_post :: string      \<comment> \<open>the subject after the match\<close>
  m_groups :: groups

definition mk_match :: "mstate \<Rightarrow> mstate \<Rightarrow> rmatch" where
  "mk_match s t = \<lparr>m_pre = rev (fst s), m_text = span s t, m_post = fst (snd t), m_groups = snd (snd t)\<rparr>"

text \<open>\<^verbatim>\<open>m.group(n)\<close> of a group that took part in the match; \<open>None\<close> where it did not.\<close>

definition grp :: "rmatch \<Rightarrow> nat \<Rightarrow> string option" where
  "grp m n = (if n = 0 then Some (m_text m) else m_groups m n)"

definition re_match :: "rx \<Rightarrow> string \<Rightarrow> rmatch option" where
  "re_match r w = (case mt r ([], w, Map.empty) of [] \<Rightarrow> None | t # _ \<Rightarrow> Some (mk_match ([], w, Map.empty) t))"

text \<open>
  The scan of \<^verbatim>\<open>search\<close> and \<^verbatim>\<open>finditer\<close> from a position: the leftmost start with a match. After an
  empty match the next one may start at the same place but must not be empty there (\<open>adv\<close>).
\<close>

fun scan :: "rx \<Rightarrow> bool \<Rightarrow> string \<Rightarrow> string \<Rightarrow> rmatch option" where
  "scan r adv pre rest =
     (case filter (\<lambda>t. adv \<longrightarrow> fst t \<noteq> pre) (mt r (pre, rest, Map.empty)) of
        t # _ \<Rightarrow> Some (mk_match (pre, rest, Map.empty) t)
      | [] \<Rightarrow> (case rest of [] \<Rightarrow> None | x # xs \<Rightarrow> scan r False (x # pre) xs))"

declare scan.simps [simp del]

definition re_search :: "rx \<Rightarrow> string \<Rightarrow> rmatch option" where
  "re_search r w = scan r False [] w"

section \<open>What a match is\<close>

text \<open>The matches of a pattern, without the order of the search.\<close>

inductive matches :: "rx \<Rightarrow> mstate \<Rightarrow> mstate \<Rightarrow> bool" where
  m_eps: "matches Eps s s"
| m_cls: "c x \<Longrightarrow> matches (Cls c) (pre, x # xs, g) (x # pre, xs, g)"
| m_lit: "matches (Lit w) (pre, w @ rest, g) (rev w @ pre, rest, g)"
| m_rep: "(\<And>x. x \<in> set w \<Longrightarrow> c x) \<Longrightarrow> matches (Rep b c) (pre, w @ rest, g) (rev w @ pre, rest, g)"
| m_seq: "matches r s t \<Longrightarrow> matches q t u \<Longrightarrow> matches (Seq r q) s u"
| m_alt1: "matches r s t \<Longrightarrow> matches (Alt r q) s t"
| m_alt2: "matches q s t \<Longrightarrow> matches (Alt r q) s t"
| m_grp: "matches r s (p, w, g) \<Longrightarrow> matches (Grp n r) s (p, w, g(n \<mapsto> span s (p, w, g)))"

text \<open>The zero-width constructs are left to the matcher; \<open>plain\<close> patterns have none.\<close>

fun plain :: "rx \<Rightarrow> bool" where
  "plain (Seq r q) = (plain r \<and> plain q)"
| "plain (Alt r q) = (plain r \<and> plain q)"
| "plain (Grp n r) = plain r"
| "plain Eps = True"
| "plain (Cls c) = True"
| "plain (Lit w) = True"
| "plain (Rep b c) = True"
| "plain _ = False"

inductive_cases matches_elims:
  "matches Eps s t" "matches (Cls c) s t" "matches (Lit w) s t" "matches (Rep b c) s t"
  "matches (Seq r q) s t" "matches (Alt r q) s t" "matches (Grp n r) s t"

lemma set_rep_greedy:
  "set (rep_greedy c pre rest g) = {(rev w @ pre, rest', g) |w rest'. rest = w @ rest' \<and> (\<forall>x\<in>set w. c x)}"
proof (induction c pre rest g rule: rep_greedy.induct)
  case (2 c pre x xs g)
  show ?case
  proof (cases "c x")
    case True
    have "{(rev w @ pre, rest', g) |w rest'. x # xs = w @ rest' \<and> (\<forall>x\<in>set w. c x)} =
      insert (pre, x # xs, g) {(rev w @ x # pre, rest', g) |w rest'. xs = w @ rest' \<and> (\<forall>x\<in>set w. c x)}"
      (is "?A = ?B")
    proof
      show "?A \<subseteq> ?B" by (auto simp: Cons_eq_append_conv)
      show "?B \<subseteq> ?A"
      proof
        fix y
        assume "y \<in> ?B"
        then consider "y = (pre, x # xs, g)"
          | w rest' where "y = (rev (x # w) @ pre, rest', g)" "xs = w @ rest'" "\<forall>x\<in>set w. c x"
          by auto
        then show "y \<in> ?A"
        proof cases
          case 2
          then have "x # xs = (x # w) @ rest' \<and> (\<forall>x\<in>set (x # w). c x)" using True by simp
          with 2(1) show ?thesis by blast
        qed force
      qed
    qed
    with 2 True show ?thesis by auto
  next
    case False
    then show ?thesis by (auto simp: Cons_eq_append_conv)
  qed
qed auto

lemma set_rep_lazy: "set (rep_lazy c pre rest g) = set (rep_greedy c pre rest g)"
  by (induction c pre rest g rule: rep_lazy.induct) auto

text \<open>For a plain pattern the backtracking matcher finds exactly the matches there are.\<close>

lemma mt_sound: "plain r \<Longrightarrow> t \<in> set (mt r s) \<Longrightarrow> matches r s t"
proof (induction r arbitrary: s t)
  case (Cls c)
  then show ?case by (cases s) (auto intro: matches.intros split: list.splits if_splits)
next
  case (Lit w)
  then show ?case by (cases s) (auto intro: matches.intros elim!: prefixE split: if_splits)
next
  case (Rep b c)
  obtain pre rest g where s: "s = (pre, rest, g)" by (cases s)
  with Rep obtain w rest' where "t = (rev w @ pre, rest', g)" "rest = w @ rest'" "\<forall>x\<in>set w. c x"
    by (auto simp: set_rep_lazy set_rep_greedy split: if_splits)
  with s show ?case by (auto intro: matches.intros)
next
  case (Seq r q)
  then obtain u where "u \<in> set (mt r s)" "t \<in> set (mt q u)" by auto
  with Seq show ?case by (metis m_seq plain.simps(1))
next
  case (Grp n r)
  then obtain p w g where "(p, w, g) \<in> set (mt r s)" "t = (p, w, g(n \<mapsto> span s (p, w, g)))"
    by auto
  moreover from this Grp have "matches r s (p, w, g)" by simp
  ultimately show ?case by (metis m_grp)
qed (auto intro: matches.intros)

lemma mt_complete: "matches r s t \<Longrightarrow> t \<in> set (mt r s)"
proof (induction rule: matches.induct)
  case (m_rep w c b pre rest g)
  then have "(rev w @ pre, rest, g) \<in> set (rep_greedy c pre (w @ rest) g)"
    by (auto simp: set_rep_greedy)
  then show ?case by (simp add: set_rep_lazy)
next
  case (m_grp r s p w g n)
  then show ?case by (force simp: image_iff)
qed auto

section \<open>Positions\<close>

text \<open>A state reached from another one lies further right in the same subject.\<close>

definition advances :: "mstate \<Rightarrow> mstate \<Rightarrow> bool" where
  "advances s t = (\<exists>w. fst t = rev w @ fst s \<and> fst (snd s) = w @ fst (snd t))"

lemma advances_refl [simp]: "advances s s"
  by (auto simp: advances_def)

lemma advances_groups [simp]: "advances (p, r, g) (p, r, g')"
  by (auto simp: advances_def)

lemma advances_trans: "advances s t \<Longrightarrow> advances t u \<Longrightarrow> advances s u"
  unfolding advances_def by (metis append.assoc rev_append)

lemma mt_advances: "t \<in> set (mt r s) \<Longrightarrow> advances s t"
proof (induction r arbitrary: s t)
  case (Cls c)
  then show ?case by (cases s) (auto simp: advances_def split: list.splits if_splits)
next
  case (Lit w)
  then show ?case by (cases s) (auto simp: advances_def elim!: prefixE split: if_splits)
next
  case (Rep b c)
  then show ?case
    by (cases s) (auto simp: advances_def set_rep_lazy set_rep_greedy split: if_splits)
next
  case (Seq r q)
  then obtain u where "u \<in> set (mt r s)" "t \<in> set (mt q u)" by auto
  with Seq.IH show ?case by (metis advances_trans)
next
  case (Grp n r)
  then obtain t' where "t' \<in> set (mt r s)" "fst t = fst t'" "fst (snd t) = fst (snd t')"
    by (auto split: prod.splits)
  with Grp.IH show ?case by (auto simp: advances_def)
next
  case (Look r)
  then show ?case by (cases s) (auto split: list.splits)
qed (auto simp: advances_def split: if_splits)

lemma span_advances: "advances s t \<Longrightarrow> fst (snd s) = span s t @ fst (snd t) \<and> fst t = rev (span s t) @ fst s"
  by (cases s; cases t) (auto simp: advances_def span_def)

definition subject :: "rmatch \<Rightarrow> string" where
  "subject m = m_pre m @ m_text m @ m_post m"

lemma subject_mk_match:
  "t \<in> set (mt r (pre, rest, g)) \<Longrightarrow> subject (mk_match (pre, rest, g) t) = rev pre @ rest"
  using span_advances [OF mt_advances, of t r "(pre, rest, g)"] by (simp add: subject_def mk_match_def)

text \<open>The state a scan stops in: a start to the right of the position, with no start before it.\<close>

lemma scan_Some:
  assumes "scan r adv pre rest = Some m"
  shows "\<exists>w rest' t. rest = w @ rest' \<and> t \<in> set (mt r (rev w @ pre, rest', Map.empty)) \<and>
    m = mk_match (rev w @ pre, rest', Map.empty) t \<and> (adv \<longrightarrow> w = [] \<longrightarrow> fst t \<noteq> pre)"
  using assms
proof (induction rest arbitrary: adv pre)
  case Nil
  then obtain t ts where t: "filter (\<lambda>t. adv \<longrightarrow> fst t \<noteq> pre) (mt r (pre, [], Map.empty)) = t # ts"
      "m = mk_match (pre, [], Map.empty) t"
    by (auto simp: scan.simps [of r adv pre] split: list.splits)
  with filter_hd [OF t(1)] show ?case
    by (intro exI [of _ "[]"] exI [of _ t]) auto
next
  case (Cons x xs)
  show ?case
  proof (cases "filter (\<lambda>t. adv \<longrightarrow> fst t \<noteq> pre) (mt r (pre, x # xs, Map.empty))")
    case Nil
    with Cons.prems have "scan r False (x # pre) xs = Some m"
      by (simp add: scan.simps [of r adv pre])
    from Cons.IH [OF this] obtain w rest' t where
      "xs = w @ rest'" "t \<in> set (mt r (rev w @ x # pre, rest', Map.empty))"
      "m = mk_match (rev w @ x # pre, rest', Map.empty) t" by auto
    then show ?thesis by (intro exI [of _ "x # w"] exI [of _ rest'] exI [of _ t]) auto
  next
    case (Cons t ts)
    from filter_hd [OF this] have "t \<in> set (mt r (pre, x # xs, Map.empty))" "adv \<longrightarrow> fst t \<noteq> pre"
      by auto
    moreover have "m = mk_match (pre, x # xs, Map.empty) t"
      using Cons Cons.prems by (simp add: scan.simps [of r adv pre])
    ultimately show ?thesis by (intro exI [of _ "[]"] exI [of _ "x # xs"] exI [of _ t]) auto
  qed
qed

lemma scan_subject: "scan r adv pre rest = Some m \<Longrightarrow> subject m = rev pre @ rest"
  using scan_Some [of r adv pre rest m] subject_mk_match by fastforce

lemma scan_pre: "scan r adv pre rest = Some m \<Longrightarrow> prefix (rev pre) (m_pre m)"
  using scan_Some [of r adv pre rest m] by (fastforce simp: mk_match_def)

lemma scan_post: "scan r adv pre rest = Some m \<Longrightarrow> length (m_text m @ m_post m) \<le> length rest"
  using scan_pre [of r adv pre rest m] scan_subject [of r adv pre rest m]
  by (auto simp: subject_def dest!: prefix_length_le arg_cong [of _ _ length])

lemma scan_adv:
  assumes a: "scan r True pre rest = Some m" "m_text m = []"
  shows "length (m_post m) < length rest"
proof -
  from scan_Some [OF a(1)] obtain w rest' t where
    w: "rest = w @ rest'" "t \<in> set (mt r (rev w @ pre, rest', Map.empty))"
    "m = mk_match (rev w @ pre, rest', Map.empty) t" "w = [] \<longrightarrow> fst t \<noteq> pre" by auto
  from span_advances [OF mt_advances [OF w(2)]] a(2) w(3)
  have "rest' = m_post m" "fst t = rev w @ pre" by (simp_all add: mk_match_def)
  with w(1,4) show ?thesis by (cases w) simp_all
qed

text \<open>A search that fails has found no match at any position.\<close>

lemma scan_None: "scan r False pre rest = None \<Longrightarrow> rest = w @ rest' \<Longrightarrow> mt r (rev w @ pre, rest', Map.empty) = []"
proof (induction rest arbitrary: pre w)
  case Nil
  then show ?case by (auto simp: scan.simps [of r False pre] split: list.splits)
next
  case (Cons x xs)
  then have m: "mt r (pre, x # xs, Map.empty) = []" "scan r False (x # pre) xs = None"
    by (auto simp: scan.simps [of r False pre] split: list.splits)
  show ?case
  proof (cases w)
    case Nil
    with m Cons.prems show ?thesis by simp
  next
    case (Cons y ys)
    with Cons.IH [OF m(2), of ys] Cons.prems show ?thesis by simp
  qed
qed

section \<open>All matches, substitution and splitting\<close>

function finditer_from :: "rx \<Rightarrow> bool \<Rightarrow> string \<Rightarrow> string \<Rightarrow> rmatch list" where
  "finditer_from r adv pre rest =
     (case scan r adv pre rest of
        None \<Rightarrow> []
      | Some m \<Rightarrow> m # finditer_from r (m_text m = []) (rev (m_pre m @ m_text m)) (m_post m))"
  by pat_completeness auto
termination
proof (relation "measure (\<lambda>(r, adv, pre, rest). 2 * length rest + (if adv then 0 else 1))", goal_cases)
  case (2 r adv pre rest m)
  have "length (m_text m) + length (m_post m) \<le> length rest"
    using scan_post [OF 2] by simp
  moreover have "length (m_post m) < length rest" if "adv" "m_text m = []"
    using scan_adv [of r pre rest m] 2 that by simp
  ultimately show ?case by (cases adv; cases "m_text m") auto
qed simp

declare finditer_from.simps [simp del]

definition re_finditer :: "rx \<Rightarrow> string \<Rightarrow> rmatch list" where
  "re_finditer r w = finditer_from r False [] w"

text \<open>\<^verbatim>\<open>re.findall\<close> of a pattern with one group: the group of every match.\<close>

definition re_findall1 :: "rx \<Rightarrow> string \<Rightarrow> string list" where
  "re_findall1 r w = map (\<lambda>m. case m_groups m 1 of None \<Rightarrow> [] | Some t \<Rightarrow> t) (re_finditer r w)"

definition re_findall2 :: "rx \<Rightarrow> string \<Rightarrow> (string \<times> string) list" where
  "re_findall2 r w = map (\<lambda>m. (case m_groups m 1 of None \<Rightarrow> [] | Some t \<Rightarrow> t,
     case m_groups m 2 of None \<Rightarrow> [] | Some t \<Rightarrow> t)) (re_finditer r w)"

text \<open>The text cut at the matches: what is before the first, then each match with what follows it.\<close>

fun cut_at :: "string \<Rightarrow> nat \<Rightarrow> rmatch list \<Rightarrow> string \<times> (rmatch \<times> string) list" where
  "cut_at w k [] = (drop k w, [])"
| "cut_at w k (m # ms) =
     (let (t, rest) = cut_at w (length (m_pre m @ m_text m)) ms in (drop k (m_pre m), (m, t) # rest))"

text \<open>
  \<^verbatim>\<open>re.split\<close> returns the pieces with the groups of the separators between them; here every
  separator comes as its match, paired with the piece after it.
\<close>

definition re_split :: "rx \<Rightarrow> string \<Rightarrow> string \<times> (rmatch \<times> string) list" where
  "re_split r w = cut_at w 0 (re_finditer r w)"

definition re_sub :: "rx \<Rightarrow> (rmatch \<Rightarrow> string) \<Rightarrow> string \<Rightarrow> string" where
  "re_sub r f w = (case re_split r w of (h, ps) \<Rightarrow> h @ concat (map (\<lambda>(m, t). f m @ t) ps))"

text \<open>The text of a group, and the substitution with a callback that may raise.\<close>

definition group_str :: "rmatch \<Rightarrow> nat \<Rightarrow> string" where
  "group_str m n = (case grp m n of None \<Rightarrow> [] | Some t \<Rightarrow> t)"

definition re_subE :: "rx \<Rightarrow> (rmatch \<Rightarrow> string result) \<Rightarrow> string \<Rightarrow> string result" where
  "re_subE r f w = (case re_split r w of (h, ps) \<Rightarrow>
     bindE (mapE (\<lambda>(m, t). bindE (f m) (\<lambda>s. Inr (s @ t))) ps) (\<lambda>ss. Inr (h @ concat ss)))"

lemma re_subE_total: "re_subE r (\<lambda>m. Inr (f m)) w = Inr (re_sub r f w)"
  using mapE_Inr_map [of "\<lambda>(m, t). f m @ t" "snd (re_split r w)"]
  by (simp add: re_subE_def re_sub_def case_prod_unfold)

lemma finditer_from_chain:
  "cut_at (rev pre @ rest) (length pre) (finditer_from r adv pre rest) = (h, ps) \<Longrightarrow>
   h @ concat (map (\<lambda>(m, t). m_text m @ t) ps) = rest"
proof (induction r adv pre rest arbitrary: h ps rule: finditer_from.induct)
  case (1 r adv pre rest)
  show ?case
  proof (cases "scan r adv pre rest")
    case None
    with 1 show ?thesis by (auto simp: finditer_from.simps [of r adv pre rest])
  next
    case (Some m)
    let ?w = "rev pre @ rest" and ?k = "length (rev (m_pre m @ m_text m))"
    let ?ms = "finditer_from r (m_text m = []) (rev (m_pre m @ m_text m)) (m_post m)"
    have sub: "rev (rev (m_pre m @ m_text m)) @ m_post m = ?w"
      using scan_subject [OF Some] by (simp add: subject_def)
    obtain a where a: "m_pre m = rev pre @ a" using scan_pre [OF Some] by (auto elim: prefixE)
    obtain t qs where c: "cut_at ?w ?k ?ms = (t, qs)" by fastforce
    have "t @ concat (map (\<lambda>(m, t). m_text m @ t) qs) = m_post m"
      using "1.IH" [OF Some] c unfolding sub by blast
    moreover have "(h, ps) = (drop (length pre) (m_pre m), (m, t) # qs)"
      using "1.prems" Some c by (simp add: finditer_from.simps [of r adv pre rest] add.commute)
    ultimately show ?thesis using sub a by auto
  qed
qed

text \<open>Splitting loses nothing, and substituting the matched text itself changes nothing.\<close>

lemma re_split_glue: "re_split r w = (h, ps) \<Longrightarrow> h @ concat (map (\<lambda>(m, t). m_text m @ t) ps) = w"
  using finditer_from_chain [of "[]" w r False h ps] by (simp add: re_split_def re_finditer_def)

lemma re_sub_text: "re_sub r m_text w = w"
  by (cases "re_split r w") (simp add: re_sub_def re_split_glue)

lemma re_split_none: "re_search r w = None \<Longrightarrow> re_split r w = (w, [])"
  by (simp add: re_split_def re_finditer_def re_search_def finditer_from.simps [of r False "[]"])

lemma re_sub_none: "re_search r w = None \<Longrightarrow> re_sub r f w = w"
  by (simp add: re_sub_def re_split_none)

section \<open>Character classes\<close>

definition any_char :: cclass where "any_char c = (c \<noteq> cnl)"     \<comment> \<open>\<^verbatim>\<open>.\<close>\<close>
definition all_char :: cclass where "all_char c = True"            \<comment> \<open>\<^verbatim>\<open>.\<close> under \<^verbatim>\<open>re.S\<close>\<close>
definition one_of :: "string \<Rightarrow> cclass" where "one_of w c = (c \<in> set w)"
definition none_of :: "string \<Rightarrow> cclass" where "none_of w c = (c \<notin> set w)"
definition not_space :: cclass where "not_space c = (\<not> is_space c)"

lemmas cclass_defs = any_char_def all_char_def one_of_def none_of_def not_space_def

end
