(* ===== verification/Trace_Convert.thy ===== *)
theory Trace_Convert
  imports Trace_Parse "HOL-Library.List_Lexorder" "HOL-Library.Char_ord"
begin

text \<open>
  \<^verbatim>\<open>convert()\<close> of \<^verbatim>\<open>kernel/work.mount.gp_on_demand.proposal/trace/trace2ndjson.py\<close>: the events of one
  mount are attributed to the tasks of the \<^verbatim>\<open>MntPut\<close> model.

  The Python function mutates the event dictionaries it was given and refers to them from several
  places (the task table, the list of initial references). The model keeps that aliasing: the
  events live in a heap, a list of maps, and everything else holds indices into it. The local
  variables of the function are the fields of \<open>cstate\<close>; the phases of its body are one definition
  each, in source order, composed by \<open>convert\<close>.
\<close>

type_synonym heap = "event list"

definition setk :: "heap \<Rightarrow> nat \<Rightarrow> string \<Rightarrow> val \<Rightarrow> heap" where
  "setk h i k v = h[i := (h ! i)(k \<mapsto> v)]"

record task =
  t_role :: string
  t_pid :: val
  t_events :: "nat list"
  t_gets :: int
  t_init :: "nat option"        \<comment> \<open>the key \<^verbatim>\<open>init_event\<close>\<close>
  t_pre :: bool                 \<comment> \<open>the key \<^verbatim>\<open>preexisting\<close>\<close>

record cstate =
  heap :: heap
  tasks :: "(string, task) dict"
  inits :: "nat list"
  noted :: "string list"          \<comment> \<open>the list \<^verbatim>\<open>notes\<close>\<close>
  doomer :: "string option"
  wk :: nat
  hk :: nat
  open_walkers :: "string list"
  holder :: "(string \<times> int) option"
  own_done :: bool

section \<open>The unmount event and the ranks of the locked events\<close>

definition ev_is :: "heap \<Rightarrow> string \<Rightarrow> nat \<Rightarrow> bool result" where
  "ev_is h name i = bindE (getv (h ! i) ''ev'') (\<lambda>ev. Inr (ev = VStr name))"

text \<open>\<^verbatim>\<open>for i, e in enumerate(lk_events, 1): e["lk"] = i\<close>\<close>

fun rank_from :: "int \<Rightarrow> heap \<Rightarrow> nat list \<Rightarrow> heap" where
  "rank_from j h [] = h"
| "rank_from j h (i # is) = rank_from (j + 1) (setk h i ''lk'' (VInt j)) is"

fun seq_notes :: "heap \<Rightarrow> nat list \<Rightarrow> string list result" where
  "seq_notes h (a # b # rest) =
     bindE (geti (h ! b) ''seq'') (\<lambda>sb. bindE (geti (h ! a) ''seq'') (\<lambda>sa.
     bindE (if sb < sa
            then bindE (getv (h ! b) ''n'') (\<lambda>n.
              Inr [''locked events out of seq order at line '' @ fmt_val n @ '': '' @
                   show_int sa @ '' then '' @ show_int sb])
            else Inr []) (\<lambda>ns.
     bindE (seq_notes h (b # rest)) (\<lambda>ns'. Inr (ns @ ns')))))"
| "seq_notes h _ = Inr []"

definition set_default :: "heap \<Rightarrow> nat \<Rightarrow> heap" where
  "set_default h i =
     (let h1 = (case (h ! i) ''lk'' of None \<Rightarrow> setk h i ''lk'' (VInt 0) | Some _ \<Rightarrow> h)
      in setk h1 i ''task'' VNone)"

definition rank_phase :: "heap \<Rightarrow> (heap \<times> string list) result" where
  "rank_phase h =
     bindE (filterE (\<lambda>i. locked (h ! i)) [0..<length h]) (\<lambda>lk_events.
     bindE (seq_notes h lk_events) (\<lambda>ns.
       Inr (foldl set_default (rank_from 1 h lk_events) [0..<length h], ns)))"

section \<open>The umounter's protocol events\<close>

definition u_events :: "string set" where
  "u_events = {''mnt_umount_tree'', ''mnt_caller_drop'', ''mnt_peek'', ''mnt_gp'', ''mnt_final''}"

text \<open>\<^verbatim>\<open>e["count"] == 0 and not e["doomed"]\<close>\<close>

definition dooms :: "event \<Rightarrow> bool result" where
  "dooms e = bindE (getv e ''count'') (\<lambda>c. if c = VInt 0
     then bindE (getv e ''doomed'') (\<lambda>d. Inr (\<not> truthy d)) else Inr False)"

definition u_step ::
  "val \<Rightarrow> heap \<times> bool \<times> bool \<times> string option \<Rightarrow> nat \<Rightarrow> (heap \<times> bool \<times> bool \<times> string option) result" where
  "u_step upid = (\<lambda>(h, gp_end_seen, ns_put_done, doomer) i.
     let e = h ! i in
     bindE (getv e ''ev'') (\<lambda>ev.
       if ev \<in> VStr ` u_events then
         bindE (if ev = VStr ''mnt_gp''
                then bindE (getv e ''end'') (\<lambda>x. Inr (gp_end_seen \<or> truthy x)) else Inr gp_end_seen) (\<lambda>gp.
         bindE (if ev = VStr ''mnt_peek''
                then bindE (getv e ''unheld'') (\<lambda>x. Inr (if truthy x then Some ''U'' else doomer))
                else Inr doomer) (\<lambda>d.
           Inr (setk h i ''task'' (VStr ''U''), gp, ns_put_done, d)))
       else if ev = VStr ''mnt_slowpath'' then
         bindE (getv e ''pid'') (\<lambda>p.
           if p = upid \<and> gp_end_seen \<and> \<not> ns_put_done then
             bindE (dooms e) (\<lambda>dm.
               Inr (setk (setk h i ''task'' (VStr ''U'')) i ''role'' (VStr ''nsput''), gp_end_seen, True,
                    if dm then Some ''U'' else doomer))
           else Inr (h, gp_end_seen, ns_put_done, doomer))
       else if ev = VStr ''mnt_free'' then
         Inr (setk h i ''task'' (VStr ''rcu''), gp_end_seen, ns_put_done, doomer)
       else Inr (h, gp_end_seen, ns_put_done, doomer)))"

definition u_phase :: "val \<Rightarrow> heap \<Rightarrow> (heap \<times> string option) result" where
  "u_phase upid h = bindE (foldE (u_step upid) (h, False, False, None) [0..<length h])
     (\<lambda>(h', _, _, d). Inr (h', d))"

section \<open>The ledger of everybody else\<close>

definition rest_events :: "heap \<Rightarrow> nat list result" where
  "rest_events h = filterE (\<lambda>i. bindE (getv (h ! i) ''task'') (\<lambda>t.
     if t = VNone then bindE (getv (h ! i) ''ev'') (\<lambda>ev. Inr (ev \<noteq> VStr ''mnt_cleanup'')) else Inr False))
     [0..<length h]"

definition group_by_pid :: "heap \<Rightarrow> nat list \<Rightarrow> (val, nat list) dict result" where
  "group_by_pid h is = foldE (\<lambda>d i. bindE (getv (h ! i) ''pid'') (\<lambda>p.
     Inr (AList.update p ((case map_of d p of None \<Rightarrow> [] | Some l \<Rightarrow> l) @ [i]) d))) [] is"

definition task_name :: "char \<Rightarrow> val \<Rightarrow> nat \<Rightarrow> string" where
  "task_name c pid k = c # fmt_val pid @ ''.'' @ show_nat k"

definition add_event :: "string \<Rightarrow> nat \<Rightarrow> (string, task) dict \<Rightarrow> (string, task) dict result" where
  "add_event name i ts = bindE (dget id ts name) (\<lambda>t.
     Inr (AList.update name (t\<lparr>t_events := t_events t @ [i]\<rparr>) ts))"

text \<open>\<^verbatim>\<open>take_own_ref()\<close>: U's own reference is its last open acquisition when umount_tree runs.\<close>

definition take_own_ref :: "cstate \<Rightarrow> cstate result" where
  "take_own_ref s0 = (let s = s0\<lparr>own_done := True\<rparr>;
     implicit = Inr (s\<lparr>noted := noted s @ [''U's own reference acquisition not in the trace (implicit)'']\<rparr>) in
     if open_walkers s \<noteq> [] then
       let w = last (open_walkers s) in
       bindE (dget id (tasks s) w) (\<lambda>t.
         case t_events t of [] \<Rightarrow> Inl IndexError
         | e0 # _ \<Rightarrow> Inr (s\<lparr>open_walkers := butlast (open_walkers s),
             heap := setk (setk (heap s) e0 ''task'' (VStr ''U'')) e0 ''role'' (VStr ''init''),
             inits := inits s @ [e0], tasks := AList.delete w (tasks s)\<rparr>))
     else (case holder s of
       None \<Rightarrow> implicit
     | Some (hn, refs) \<Rightarrow>
         if refs > 0 then
           bindE (dget id (tasks s) hn) (\<lambda>t.
             case t_init t of
               None \<Rightarrow> implicit
             | Some ie \<Rightarrow>
                 if t_events t = [] then
                   Inr (s\<lparr>tasks := AList.delete hn (tasks s),
                     heap := setk (setk (heap s) ie ''role'' (VStr ''init'')) ie ''task'' (VStr ''U''),
                     inits := inits s @ [ie], holder := None\<rparr>)
                 else implicit)
         else implicit))"

text \<open>One event of a task other than the umounter's protocol: a walk, a get, a put.\<close>

definition legit_step :: "val \<Rightarrow> cstate \<Rightarrow> nat \<Rightarrow> cstate result" where
  "legit_step pid s i =
     (let name = task_name CHR ''W'' pid (wk s + 1);
          t = \<lparr>t_role = ''walker'', t_pid = pid, t_events = [i], t_gets = 0, t_init = None, t_pre = False\<rparr> in
      bindE (getv (heap s ! i) ''result'') (\<lambda>r.
        Inr (s\<lparr>wk := wk s + 1, tasks := AList.update name t (tasks s),
               heap := setk (heap s) i ''task'' (VStr name),
               open_walkers := (if r \<in> {VInt 0, VInt (-1)} then open_walkers s @ [name] else open_walkers s)\<rparr>)))"

text \<open>A \<^verbatim>\<open>mntget()\<close> that finds no reference held by the task opens a new holder.\<close>

definition new_holder :: "val \<Rightarrow> cstate \<Rightarrow> nat option \<Rightarrow> cstate" where
  "new_holder pid s ie =
     (let hn = task_name CHR ''H'' pid (hk s + 1);
          t = \<lparr>t_role = ''holder'', t_pid = pid, t_events = [], t_gets = 0, t_init = ie, t_pre = (ie = None)\<rparr>
      in s\<lparr>hk := hk s + 1, holder := Some (hn, 1), tasks := AList.update hn t (tasks s)\<rparr>)"

definition holds :: "cstate \<Rightarrow> bool" where
  "holds s = (case holder s of None \<Rightarrow> False | Some (_, refs) \<Rightarrow> refs \<noteq> 0)"

definition holder_name :: "cstate \<Rightarrow> string" where
  "holder_name s = (case holder s of None \<Rightarrow> [] | Some (hn, _) \<Rightarrow> hn)"

definition holder_refs :: "cstate \<Rightarrow> int" where
  "holder_refs s = (case holder s of None \<Rightarrow> 0 | Some (_, refs) \<Rightarrow> refs)"

definition get_step :: "val \<Rightarrow> cstate \<Rightarrow> nat \<Rightarrow> cstate result" where
  "get_step pid s i =
     (if \<not> holds s then
        let s' = new_holder pid s (Some i) in
        Inr (s'\<lparr>heap := setk (setk (heap s') i ''task'' (VStr (holder_name s'))) i ''role'' (VStr ''init''),
                inits := inits s' @ [i]\<rparr>)
      else
        bindE (add_event (holder_name s) i (tasks s)) (\<lambda>ts.
        bindE (dget id ts (holder_name s)) (\<lambda>t.
          Inr (s\<lparr>holder := Some (holder_name s, holder_refs s + 1),
                 tasks := AList.update (holder_name s) (t\<lparr>t_gets := t_gets t + 1\<rparr>) ts,
                 heap := setk (heap s) i ''task'' (VStr (holder_name s))\<rparr>))))"

definition put_step :: "val \<Rightarrow> cstate \<Rightarrow> nat \<Rightarrow> cstate result" where
  "put_step pid s i = (case open_walkers s of
     name # ws \<Rightarrow>
       bindE (add_event name i (tasks s)) (\<lambda>ts.
         Inr (s\<lparr>open_walkers := ws, tasks := ts, heap := setk (heap s) i ''task'' (VStr name)\<rparr>))
   | [] \<Rightarrow>
       let s1 = (if holds s then s else new_holder pid s None); hn = holder_name s1 in
       bindE (add_event hn i (tasks s1)) (\<lambda>ts.
       bindE (ev_is (heap s) ''mnt_slowpath'' i) (\<lambda>slow.
       bindE (if slow then dooms (heap s ! i) else Inr False) (\<lambda>dm.
         Inr (s1\<lparr>holder := Some (hn, holder_refs s1 - 1), tasks := ts,
                 heap := setk (heap s1) i ''task'' (VStr hn),
                 doomer := (if dm then Some hn else doomer s1)\<rparr>)))))"

definition event_step :: "int \<Rightarrow> val \<Rightarrow> cstate \<Rightarrow> nat \<Rightarrow> cstate result" where
  "event_step ut_n pid s0 i =
     bindE (getv (heap s0 ! i) ''ev'') (\<lambda>ev.
     bindE (if own_done s0 then Inr s0
            else bindE (geti (heap s0 ! i) ''n'') (\<lambda>n. if ut_n < n then take_own_ref s0 else Inr s0)) (\<lambda>s.
       if ev = VStr ''mnt_legitimize'' then legit_step pid s i
       else if ev = VStr ''mnt_get'' then get_step pid s i
       else bindE (is_put (heap s ! i)) (\<lambda>put.
         if put then put_step pid s i
         else bindE (getv (heap s ! i) ''n'') (\<lambda>n.
           Inr (s\<lparr>noted := noted s @ [''unhandled event '' @ fmt_val ev @ '' at line '' @ fmt_val n]\<rparr>)))))"

text \<open>\<^verbatim>\<open>walkers that did a slowpath put to zero finish the mount\<close>\<close>

definition doom_scan :: "heap \<Rightarrow> val \<Rightarrow> (string, task) dict \<Rightarrow> string option \<Rightarrow> string option result" where
  "doom_scan h pid ts d = foldE (\<lambda>d (name, t).
     if t_pid t \<noteq> pid then Inr d
     else foldE (\<lambda>d i. bindE (ev_is h ''mnt_slowpath'' i) (\<lambda>slow.
            bindE (if slow then dooms (h ! i) else Inr False) (\<lambda>dm. Inr (if dm then Some name else d))))
          d (t_events t)) d ts"

definition pid_step :: "int \<Rightarrow> val \<Rightarrow> cstate \<Rightarrow> val \<times> nat list \<Rightarrow> cstate result" where
  "pid_step ut_n upid s = (\<lambda>(pid, pes).
     bindE (foldE (event_step ut_n pid)
       (s\<lparr>wk := 0, hk := 0, open_walkers := [], holder := None, own_done := (pid \<noteq> upid)\<rparr>) pes) (\<lambda>s1.
     bindE (if own_done s1 then Inr s1 else take_own_ref s1) (\<lambda>s2.
     bindE (doom_scan (heap s2) pid (tasks s2) (doomer s2)) (\<lambda>d. Inr (s2\<lparr>doomer := d\<rparr>)))))"

section \<open>The cleanup event and the pruning\<close>

definition cleanup_step :: "cstate \<Rightarrow> nat \<Rightarrow> cstate result" where
  "cleanup_step s i = bindE (ev_is (heap s) ''mnt_cleanup'' i) (\<lambda>c.
     if \<not> c then Inr s
     else (case doomer s of
        Some d \<Rightarrow> Inr (s\<lparr>heap := setk (heap s) i ''task'' (VStr (if d = [] then ''U'' else d))\<rparr>)
      | None \<Rightarrow> Inr (s\<lparr>heap := setk (heap s) i ''task'' (VStr ''U''),
                        noted := noted s @ [''cleanup without an observed doom'']\<rparr>)))"

definition countE :: "('a \<Rightarrow> bool result) \<Rightarrow> 'a list \<Rightarrow> int result" where
  "countE p xs = bindE (filterE p xs) (\<lambda>ys. Inr (int (length ys)))"

definition acquires :: "heap \<Rightarrow> nat \<Rightarrow> bool result" where
  "acquires h i = bindE (ev_is h ''mnt_legitimize'' i) (\<lambda>l.
     if l then bindE (getv (h ! i) ''result'') (\<lambda>r. Inr (r \<in> {VInt 0, VInt (-1)})) else Inr False)"

definition net_refs :: "heap \<Rightarrow> task \<Rightarrow> int result" where
  "net_refs h t =
     (if t_role t = ''walker''
      then bindE (countE (acquires h) (t_events t)) (\<lambda>a.
           bindE (countE (\<lambda>i. is_put (h ! i)) (t_events t)) (\<lambda>p. Inr (a - p)))
      else bindE (countE (ev_is h ''mnt_get'') (t_events t)) (\<lambda>g.
           bindE (countE (\<lambda>i. is_put (h ! i)) (t_events t)) (\<lambda>p. Inr (1 + g - p))))"

definition prune_step ::
  "int \<Rightarrow> heap \<times> (string, task) dict \<times> string list \<Rightarrow> string \<times> task \<Rightarrow>
   (heap \<times> (string, task) dict \<times> string list) result" where
  "prune_step ut_n = (\<lambda>(h, ts, pruned) (name, t).
     let es = t_events t in
     if es = [] then Inr (h, ts, pruned)
     else bindE (geti (h ! last es) ''n'') (\<lambda>n.
       if ut_n \<le> n then Inr (h, ts, pruned)
       else bindE (anyE (ev_is h ''mnt_umount_tree'') es) (\<lambda>u.
         if u then Inr (h, ts, pruned)
         else bindE (net_refs h t) (\<lambda>net.
           if net = 0
           then Inr (foldl (\<lambda>h i. setk h i ''task'' VNone) h es, AList.delete name ts, pruned @ [name])
           else Inr (h, ts, pruned)))))"

section \<open>The result\<close>

record cfg =
  c_id :: val
  c_shape :: string
  c_sync :: bool
  c_count :: val
  c_upid :: val
  c_tasklist :: "string list"
  c_walkers :: "string list"
  c_holders :: "string list"
  c_getbudget :: int
  c_ncpu :: int
  c_cpus :: "int list"
  c_nevents :: nat
  c_nlocked :: nat
  c_pruned :: "string list"
  c_inits :: "string list"
  c_preexisting :: "string list"
  c_has_free :: bool
  c_notes :: "string list"

definition names_of :: "string \<Rightarrow> (string, task) dict \<Rightarrow> string list" where
  "names_of role ts = sort (map fst (filter (\<lambda>(n, t). t_role t = role) ts))"

definition get_budget :: "(string, task) dict \<Rightarrow> int" where
  "get_budget ts = foldr max (map (\<lambda>(n, t). t_gets t) (filter (\<lambda>(n, t). t_role t = ''holder'') ts)) 1"

definition emitted :: "heap \<Rightarrow> nat \<Rightarrow> bool result" where
  "emitted h i = bindE (getv (h ! i) ''task'') (\<lambda>t.
     Inr (t \<noteq> VNone \<and> (h ! i) ''role'' \<noteq> Some (VStr ''init'')))"

definition init_text :: "heap \<Rightarrow> nat \<Rightarrow> string result" where
  "init_text h i = bindE (getv (h ! i) ''task'') (\<lambda>t. bindE (getv (h ! i) ''ev'') (\<lambda>ev.
     bindE (getv (h ! i) ''n'') (\<lambda>n. Inr (fmt_val t @ '':'' @ fmt_val ev @ ''@'' @ fmt_val n))))"

definition result_phase ::
  "nat \<Rightarrow> string \<Rightarrow> val \<Rightarrow> cstate \<Rightarrow> string list \<Rightarrow> (cfg \<times> event list) result" where
  "result_phase ut shape upid s pruned =
     (let h = heap s; ts = tasks s; ws = names_of ''walker'' ts; hs = names_of ''holder'' ts in
      bindE (filterE (emitted h) [0..<length h]) (\<lambda>out.
      bindE (filterE (\<lambda>i. locked (h ! i)) out) (\<lambda>lk_events.
      let h' = rank_from 1 h lk_events in
      bindE (mapE (\<lambda>i. geti (h' ! i) ''cpu'') [0..<length h']) (\<lambda>cpus.
      bindE (getv (h' ! 0) ''id'') (\<lambda>mid.
      bindE (getv (h' ! ut) ''sync'') (\<lambda>sync.
      bindE (getv (h' ! ut) ''count'') (\<lambda>count.
      bindE (mapE (init_text h') (inits s)) (\<lambda>its.
      bindE (anyE (ev_is h' ''mnt_free'') [0..<length h']) (\<lambda>fr.
        Inr (\<lparr>c_id = mid, c_shape = shape, c_sync = truthy sync, c_count = count, c_upid = upid,
              c_tasklist = [''U''] @ ws @ hs, c_walkers = ws, c_holders = hs,
              c_getbudget = get_budget ts, c_ncpu = 2, c_cpus = sort (remdups cpus),
              c_nevents = length out, c_nlocked = length lk_events, c_pruned = pruned,
              c_inits = its, c_preexisting = map fst (filter (\<lambda>(n, t). t_pre t) ts),
              c_has_free = fr, c_notes = noted s\<rparr>, map ((!) h') out))))))))))"

definition convert :: "event list \<Rightarrow> string list \<Rightarrow> ((cfg \<times> event list) option \<times> string list) result" where
  "convert evs notes0 =
     bindE (filterE (ev_is evs ''mnt_umount_tree'') [0..<length evs]) (\<lambda>uts.
     case uts of
       [ut] \<Rightarrow>
         bindE (getv (evs ! ut) ''pid'') (\<lambda>upid.
         bindE (anyE (ev_is evs ''mnt_caller_drop'') [0..<length evs]) (\<lambda>drop.
         bindE (rank_phase evs) (\<lambda>(h0, ns).
         bindE (u_phase upid h0) (\<lambda>(h1, d).
         bindE (rest_events h1) (\<lambda>rest.
         bindE (group_by_pid h1 rest) (\<lambda>bypid.
         bindE (geti (h1 ! ut) ''n'') (\<lambda>ut_n.
         bindE (foldE (pid_step ut_n upid)
           \<lparr>heap = h1, tasks = [], inits = [], noted = notes0 @ ns, doomer = d, wk = 0, hk = 0,
             open_walkers = [], holder = None, own_done = True\<rparr> bypid) (\<lambda>s1.
         bindE (foldE cleanup_step s1 [0..<length (heap s1)]) (\<lambda>s2.
         bindE (foldE (prune_step ut_n) (heap s2, tasks s2, []) (tasks s2)) (\<lambda>(h3, ts3, pruned).
         bindE (result_phase ut (if drop then ''umount'' else ''nsdeath'') upid
             (s2\<lparr>heap := h3, tasks := ts3\<rparr>) pruned) (\<lambda>(c, out).
           Inr (Some (c, out), c_notes c))))))))))))
     | _ \<Rightarrow> Inr (None, notes0 @ [''skipped: '' @ show_nat (length uts) @ '' umount_tree events'']))"

end
