(* ===== verification/Trace_Frame.thy ===== *)
theory Trace_Frame
  imports Trace_Convert
begin

text \<open>
  What \<^verbatim>\<open>convert()\<close> leaves alone. Its phases write the keys \<^verbatim>\<open>lk\<close>, \<^verbatim>\<open>task\<close> and \<^verbatim>\<open>role\<close> of the event
  dictionaries and nothing else; every phase is shown to be within that frame. From it follow the
  two theorems on the emitted trace that need no more: it is a subsequence of the events of the
  mount with only those keys changed, and its locked events are ranked 1, 2, ... without a gap.
\<close>

section \<open>The frame\<close>

definition book_keys :: "string set" where
  "book_keys = {''lk'', ''task'', ''role''}"

definition base :: "event \<Rightarrow> event" where
  "base e = e |` (- book_keys)"

lemma base_apply: "base e k = (if k \<in> book_keys then None else e k)"
  by (simp add: base_def restrict_map_def)

lemma base_eqD: "base e = base e' \<Longrightarrow> k \<notin> book_keys \<Longrightarrow> e k = e' k"
  by (metis base_apply)

lemma base_upd [simp]: "k \<in> book_keys \<Longrightarrow> base (e(k \<mapsto> v)) = base e"
  by (auto simp: base_def restrict_map_def)

lemma book_keysI [simp]:
  "''lk'' \<in> book_keys" "''task'' \<in> book_keys" "''role'' \<in> book_keys"
  by (simp_all add: book_keys_def)

lemma not_book_keys [simp]:
  "''ev'' \<notin> book_keys" "''n'' \<notin> book_keys" "''result'' \<notin> book_keys" "''early'' \<notin> book_keys"
  "''count'' \<notin> book_keys" "''doomed'' \<notin> book_keys" "''pid'' \<notin> book_keys" "''seq'' \<notin> book_keys"
  by (simp_all add: book_keys_def)

definition framed :: "heap \<Rightarrow> heap \<Rightarrow> bool" where
  "framed h h' = (map base h' = map base h)"

lemma framed_refl [simp]: "framed h h"
  by (simp add: framed_def)

lemma framed_trans: "framed h h' \<Longrightarrow> framed h' h'' \<Longrightarrow> framed h h''"
  by (simp add: framed_def)

lemma framed_length: "framed h h' \<Longrightarrow> length h' = length h"
  unfolding framed_def by (metis length_map)

lemma framed_base: "framed h h' \<Longrightarrow> i < length h \<Longrightarrow> base (h' ! i) = base (h ! i)"
  unfolding framed_def by (metis length_map nth_map)

lemma framed_key: "framed h h' \<Longrightarrow> i < length h \<Longrightarrow> k \<notin> book_keys \<Longrightarrow> (h' ! i) k = (h ! i) k"
  by (metis framed_base base_eqD)

lemma length_setk [simp]: "length (setk h i k v) = length h"
  by (simp add: setk_def)

lemma setk_nth: "i < length h \<Longrightarrow> setk h i k v ! j = (if j = i then (h ! i)(k \<mapsto> v) else h ! j)"
  by (simp add: setk_def nth_list_update)

lemma framed_setk [simp]: "k \<in> book_keys \<Longrightarrow> framed h (setk h i k v)"
  by (cases "i < length h") (auto simp: framed_def setk_def list_eq_iff_nth_eq nth_list_update)

lemma framed_setk_trans [py_inv]: "framed h h' \<Longrightarrow> k \<in> book_keys \<Longrightarrow> framed h (setk h' i k v)"
  using framed_setk framed_trans by blast

text \<open>The predicates on events read no book-keeping key.\<close>

lemma getv_base: "base e = base e' \<Longrightarrow> k \<notin> book_keys \<Longrightarrow> getv e k = getv e' k"
  unfolding getv_def using base_eqD [of e e' k] by simp

lemma locked_base: "base e = base e' \<Longrightarrow> locked e = locked e'"
  unfolding locked_def by (simp add: getv_base [of e e'] cong: if_cong)

lemma is_put_base: "base e = base e' \<Longrightarrow> is_put e = is_put e'"
  unfolding is_put_def by (simp add: getv_base [of e e'])

lemma dooms_base: "base e = base e' \<Longrightarrow> dooms e = dooms e'"
  unfolding dooms_def by (simp add: getv_base [of e e'] cong: if_cong)

lemma ev_is_framed: "framed h h' \<Longrightarrow> i < length h \<Longrightarrow> ev_is h' k i = ev_is h k i"
  by (simp add: ev_is_def getv_def framed_key)

lemma foldl_framed:
  "(\<And>h i. framed h (f h i)) \<Longrightarrow> framed h (foldl f h is)"
proof (induction "is" arbitrary: h)
  case (Cons i "is")
  have "framed (f h i) (foldl f (f h i) is)" using Cons.IH [of "f h i"] Cons.prems by blast
  then have "framed h (foldl f (f h i) is)" by (rule framed_trans [OF Cons.prems])
  then show ?case by simp
qed simp

section \<open>Every phase stays in the frame\<close>

lemma rank_from_framed: "framed h (rank_from j h is)"
proof (induction j h "is" rule: rank_from.induct)
  case (2 j h i "is")
  then have "framed h (rank_from (j + 1) (setk h i ''lk'' (VInt j)) is)"
    by (rule framed_trans [OF framed_setk, rotated]) simp
  then show ?case by simp
qed simp

lemma set_default_framed: "framed h (set_default h i)"
  by (auto simp: set_default_def Let_def intro!: framed_setk_trans split: option.splits)

lemma rank_phase_framed: "rank_phase h = Inr (h', ns) \<Longrightarrow> framed h h'"
  by (auto simp: rank_phase_def intro: framed_trans [OF rank_from_framed] foldl_framed set_default_framed)

lemma u_step_framed: "u_step upid (h, g, n, d) i = Inr (h', g', n', d') \<Longrightarrow> framed h h'"
  by (auto simp: u_step_def Let_def intro!: framed_setk_trans split: if_splits)

lemma u_phase_framed:
  assumes "u_phase upid h = Inr (h', d)"
  shows "framed h h'"
proof -
  from assms obtain g n where f: "foldE (u_step upid) (h, False, False, None) [0..<length h] = Inr (h', g, n, d)"
    by (auto simp: u_phase_def)
  have "framed h (fst (h', g, n, d))"
    using f
  proof (rule foldE_invariant)
    fix s x s'
    assume "framed h (fst s)" "u_step upid s x = Inr s'"
    then show "framed h (fst s')"
      by (cases s; cases s') (auto dest: u_step_framed intro: framed_trans)
  qed simp
  then show ?thesis by simp
qed

text \<open>What \<^verbatim>\<open>take_own_ref()\<close> does, case by case.\<close>

lemma take_own_ref_cases [consumes 1, case_names walker holder implicit]:
  assumes "take_own_ref s = Inr s'"
  obtains
    w t e0 es where "open_walkers s \<noteq> []" "w = last (open_walkers s)" "map_of (tasks s) w = Some t"
      "t_events t = e0 # es"
      "s' = s\<lparr>own_done := True, open_walkers := butlast (open_walkers s),
         heap := setk (setk (heap s) e0 ''task'' (VStr ''U'')) e0 ''role'' (VStr ''init''),
         inits := inits s @ [e0], tasks := AList.delete w (tasks s)\<rparr>"
  | hn refs t ie where "open_walkers s = []" "holder s = Some (hn, refs)" "0 < refs"
      "map_of (tasks s) hn = Some t" "t_init t = Some ie" "t_events t = []"
      "s' = s\<lparr>own_done := True, tasks := AList.delete hn (tasks s),
         heap := setk (setk (heap s) ie ''role'' (VStr ''init'')) ie ''task'' (VStr ''U''),
         inits := inits s @ [ie], holder := None\<rparr>"
  | ns where "open_walkers s = []" "s' = s\<lparr>own_done := True, noted := ns\<rparr>"
proof (cases "open_walkers s = []")
  case False
  from assms False obtain t where t: "map_of (tasks s) (last (open_walkers s)) = Some t"
    by (auto simp: take_own_ref_def Let_def elim!: bindE_elim simp del: bindE_Inr_conv)
  with assms False show thesis
    by (cases "t_events t") (auto simp: take_own_ref_def Let_def dget_def intro: that(1))
next
  case True
  show thesis
  proof (cases "holder s")
    case None
    with assms True show thesis by (auto simp: take_own_ref_def Let_def intro: that(3))
  next
    case (Some hr)
    obtain hn refs where hr: "hr = (hn, refs)" by (cases hr)
    show thesis
    proof (cases "0 < refs")
      case False
      with assms True Some hr show thesis by (auto simp: take_own_ref_def Let_def intro: that(3))
    next
      case pos: True
      with assms True Some hr obtain t where t: "map_of (tasks s) hn = Some t"
        by (auto simp: take_own_ref_def Let_def elim!: bindE_elim simp del: bindE_Inr_conv)
      show thesis
      proof (cases "t_init t")
        case None
        with assms True Some hr pos t show thesis
          by (auto simp: take_own_ref_def Let_def dget_def intro: that(3))
      next
        case (Some ie)
        with assms True \<open>holder s = Some hr\<close> hr pos t show thesis
          by (cases "t_events t = []") (auto simp: take_own_ref_def Let_def dget_def intro: that(2,3))
      qed
    qed
  qed
qed

lemma take_own_ref_framed: "take_own_ref s = Inr s' \<Longrightarrow> framed (heap s) (heap s')"
  by (cases rule: take_own_ref_cases) (auto intro!: framed_setk_trans)

lemma new_holder_heap [simp]: "heap (new_holder pid s ie) = heap s"
  by (simp add: new_holder_def Let_def)

lemma legit_step_framed: "legit_step pid s i = Inr s' \<Longrightarrow> framed (heap s) (heap s')"
  by (auto simp: legit_step_def Let_def)

lemma get_step_framed: "get_step pid s i = Inr s' \<Longrightarrow> framed (heap s) (heap s')"
  by (auto simp: get_step_def Let_def intro!: framed_setk_trans split: if_splits)

lemma put_step_framed: "put_step pid s i = Inr s' \<Longrightarrow> framed (heap s) (heap s')"
  by (auto simp: put_step_def Let_def intro!: framed_setk_trans split: list.splits if_splits)

text \<open>An event step takes U's own reference first where it is due, then handles the event.\<close>

lemma event_step_cases [consumes 1, case_names legit get put unhandled]:
  assumes "event_step ut_n pid s i = Inr s'"
  obtains
    t where "t = s \<or> (take_own_ref s = Inr t \<and> \<not> own_done s)"
      "(heap s ! i) ''ev'' = Some (VStr ''mnt_legitimize'')" "legit_step pid t i = Inr s'"
  | t where "t = s \<or> (take_own_ref s = Inr t \<and> \<not> own_done s)"
      "(heap s ! i) ''ev'' = Some (VStr ''mnt_get'')" "get_step pid t i = Inr s'"
  | t where "t = s \<or> (take_own_ref s = Inr t \<and> \<not> own_done s)"
      "is_put (heap t ! i) = Inr True" "put_step pid t i = Inr s'"
  | t ev ns where "t = s \<or> (take_own_ref s = Inr t \<and> \<not> own_done s)"
      "(heap s ! i) ''ev'' = Some ev" "is_put (heap t ! i) = Inr False"
      "ev \<notin> VStr ` {''mnt_legitimize'', ''mnt_get''}" "s' = t\<lparr>noted := ns\<rparr>"
proof -
  from assms obtain ev where ev: "(heap s ! i) ''ev'' = Some ev"
    by (auto simp: event_step_def elim!: bindE_elim simp del: bindE_Inr_conv)
  from assms ev obtain t where t: "t = s \<or> (take_own_ref s = Inr t \<and> \<not> own_done s)"
    and s': "(if ev = VStr ''mnt_legitimize'' then legit_step pid t i
       else if ev = VStr ''mnt_get'' then get_step pid t i
       else bindE (is_put (heap t ! i)) (\<lambda>put.
         if put then put_step pid t i
         else bindE (getv (heap t ! i) ''n'') (\<lambda>n.
           Inr (t\<lparr>noted := noted t @ [''unhandled event '' @ fmt_val ev @ '' at line '' @ fmt_val n]\<rparr>)))) = Inr s'"
    unfolding event_step_def by (fastforce elim!: bindE_elim simp del: bindE_Inr_conv split: if_splits)
  show thesis
  proof (cases "ev = VStr ''mnt_legitimize'' \<or> ev = VStr ''mnt_get''")
    case True
    with s' ev that(1) [OF t] that(2) [OF t] show thesis by auto
  next
    case False
    with s' obtain b where b: "is_put (heap t ! i) = Inr b" by (auto elim: bindE_elim)
    show thesis
    proof (cases b)
      case True
      with s' b False that(3) [OF t] show thesis by auto
    next
      case nb: False
      with s' b False obtain n where
        "s' = t\<lparr>noted := noted t @ [''unhandled event '' @ fmt_val ev @ '' at line '' @ fmt_val n]\<rparr>"
        by (auto elim!: bindE_elim simp del: bindE_Inr_conv)
      with ev b nb False that(4) [OF t] show thesis by auto
    qed
  qed
qed

lemma event_step_framed:
  assumes "event_step ut_n pid s i = Inr s'"
  shows "framed (heap s) (heap s')"
proof -
  have "framed (heap s) (heap t)" if "t = s \<or> (take_own_ref s = Inr t \<and> \<not> own_done s)" for t
    using that take_own_ref_framed by auto
  with assms show ?thesis
    by (cases rule: event_step_cases)
      (auto intro: framed_trans legit_step_framed get_step_framed put_step_framed)
qed

lemma foldE_heap_framed:
  assumes "foldE f s xs = Inr s'"
    and "\<And>s x s'. f s x = Inr s' \<Longrightarrow> framed (hp s) (hp s')"
  shows "framed (hp s) (hp s')"
  using assms(1)
  by (rule foldE_invariant [where P = "\<lambda>t. framed (hp s) (hp t)"]) (auto dest: assms(2) intro: framed_trans)

lemma pid_step_stages:
  assumes "pid_step ut_n upid s (pid, pes) = Inr s'"
  obtains s1 s2 d where
    "foldE (event_step ut_n pid)
       (s\<lparr>wk := 0, hk := 0, open_walkers := [], holder := None, own_done := (pid \<noteq> upid)\<rparr>) pes = Inr s1"
    "s2 = s1 \<and> own_done s1 \<or> take_own_ref s1 = Inr s2 \<and> \<not> own_done s1" "s' = s2\<lparr>doomer := d\<rparr>"
proof -
  from assms obtain s1 s2 d where
    "foldE (event_step ut_n pid)
       (s\<lparr>wk := 0, hk := 0, open_walkers := [], holder := None, own_done := (pid \<noteq> upid)\<rparr>) pes = Inr s1"
    "(if own_done s1 then Inr s1 else take_own_ref s1) = Inr s2" "s' = s2\<lparr>doomer := d\<rparr>"
    by (auto simp: pid_step_def elim!: bindE_elim simp del: bindE_Inr_conv)
  then show thesis by (intro that [of s1 s2 d]) (auto split: if_splits)
qed

lemma pid_step_framed:
  assumes "pid_step ut_n upid s (pid, pes) = Inr s'"
  shows "framed (heap s) (heap s')"
proof -
  let ?s0 = "s\<lparr>wk := 0, hk := 0, open_walkers := [], holder := None, own_done := (pid \<noteq> upid)\<rparr>"
  from assms obtain s1 s2 d where s1: "foldE (event_step ut_n pid) ?s0 pes = Inr s1"
    and s2: "s2 = s1 \<and> own_done s1 \<or> take_own_ref s1 = Inr s2 \<and> \<not> own_done s1"
    and s': "s' = s2\<lparr>doomer := d\<rparr>"
    by (rule pid_step_stages)
  have "framed (heap ?s0) (heap s1)"
    using s1 by (rule foldE_heap_framed) (rule event_step_framed)
  moreover have "framed (heap s1) (heap s2)" using s2 take_own_ref_framed by auto
  ultimately show ?thesis using s' by (auto intro: framed_trans)
qed

lemma cleanup_step_framed: "cleanup_step s i = Inr s' \<Longrightarrow> framed (heap s) (heap s')"
  by (auto simp: cleanup_step_def split: if_splits option.splits)

lemma prune_step_framed: "prune_step ut_n (h, ts, p) nt = Inr (h', ts', p') \<Longrightarrow> framed h h'"
  by (cases nt) (auto simp: prune_step_def Let_def intro: foldl_framed split: if_splits)

section \<open>The stages of a successful conversion\<close>

definition start_state :: "heap \<Rightarrow> string list \<Rightarrow> string option \<Rightarrow> cstate" where
  "start_state h ns d = \<lparr>heap = h, tasks = [], inits = [], noted = ns, doomer = d, wk = 0, hk = 0,
     open_walkers = [], holder = None, own_done = True\<rparr>"

record stages =
  z_ut :: nat
  z_upid :: val
  z_h0 :: heap
  z_h1 :: heap
  z_d :: "string option"
  z_ns :: "string list"
  z_rest :: "nat list"
  z_bypid :: "(val, nat list) dict"
  z_n :: int
  z_s1 :: cstate
  z_s2 :: cstate
  z_h3 :: heap
  z_ts :: "(string, task) dict"
  z_pruned :: "string list"
  z_shape :: string

text \<open>\<open>staged\<close> names the intermediate values of a run of \<^verbatim>\<open>convert()\<close> that returns a trace.\<close>

definition staged :: "event list \<Rightarrow> string list \<Rightarrow> cfg \<Rightarrow> event list \<Rightarrow> stages \<Rightarrow> bool" where
  "staged evs notes0 c out z \<longleftrightarrow>
     filterE (ev_is evs ''mnt_umount_tree'') [0..<length evs] = Inr [z_ut z] \<and>
     (evs ! z_ut z) ''pid'' = Some (z_upid z) \<and>
     rank_phase evs = Inr (z_h0 z, z_ns z) \<and>
     u_phase (z_upid z) (z_h0 z) = Inr (z_h1 z, z_d z) \<and>
     rest_events (z_h1 z) = Inr (z_rest z) \<and>
     group_by_pid (z_h1 z) (z_rest z) = Inr (z_bypid z) \<and>
     (z_h1 z ! z_ut z) ''n'' = Some (VInt (z_n z)) \<and>
     foldE (pid_step (z_n z) (z_upid z)) (start_state (z_h1 z) (notes0 @ z_ns z) (z_d z)) (z_bypid z) = Inr (z_s1 z) \<and>
     foldE cleanup_step (z_s1 z) [0..<length (heap (z_s1 z))] = Inr (z_s2 z) \<and>
     foldE (prune_step (z_n z)) (heap (z_s2 z), tasks (z_s2 z), []) (tasks (z_s2 z)) =
       Inr (z_h3 z, z_ts z, z_pruned z) \<and>
     result_phase (z_ut z) (z_shape z) (z_upid z) ((z_s2 z)\<lparr>heap := z_h3 z, tasks := z_ts z\<rparr>) (z_pruned z) =
       Inr (c, out)"

lemma convert_staged:
  assumes "convert evs notes0 = Inr (Some (c, out), ns')"
  obtains z where "staged evs notes0 c out z"
proof -
  from assms obtain uts where uts: "filterE (ev_is evs ''mnt_umount_tree'') [0..<length evs] = Inr uts"
    by (auto simp: convert_def elim!: bindE_elim simp del: bindE_Inr_conv)
  with assms obtain ut where ut: "uts = [ut]"
    by (auto simp: convert_def split: list.splits)
  from assms uts ut obtain upid b h0 ns h1 d rest bypid n s1 s2 h3 ts3 pr shape where
    "(evs ! ut) ''pid'' = Some upid" "rank_phase evs = Inr (h0, ns)" "u_phase upid h0 = Inr (h1, d)"
    "rest_events h1 = Inr rest" "group_by_pid h1 rest = Inr bypid" "(h1 ! ut) ''n'' = Some (VInt n)"
    "foldE (pid_step n upid) (start_state h1 (notes0 @ ns) d) bypid = Inr s1"
    "foldE cleanup_step s1 [0..<length (heap s1)] = Inr s2"
    "foldE (prune_step n) (heap s2, tasks s2, []) (tasks s2) = Inr (h3, ts3, pr)"
    "result_phase ut shape upid (s2\<lparr>heap := h3, tasks := ts3\<rparr>) pr = Inr (c, out)"
    unfolding convert_def start_state_def
    by (auto elim!: bindE_elim simp del: bindE_Inr_conv simp: bindE_simps split: prod.splits)
  with uts ut have "staged evs notes0 c out \<lparr>z_ut = ut, z_upid = upid, z_h0 = h0, z_h1 = h1, z_d = d,
     z_ns = ns, z_rest = rest, z_bypid = bypid, z_n = n, z_s1 = s1, z_s2 = s2, z_h3 = h3, z_ts = ts3,
     z_pruned = pr, z_shape = shape\<rparr>"
    by (simp add: staged_def)
  then show thesis by (rule that)
qed

lemma stagedD:
  assumes "staged evs notes0 c out z"
  shows "filterE (ev_is evs ''mnt_umount_tree'') [0..<length evs] = Inr [z_ut z]"
    and "(evs ! z_ut z) ''pid'' = Some (z_upid z)"
    and "rank_phase evs = Inr (z_h0 z, z_ns z)"
    and "u_phase (z_upid z) (z_h0 z) = Inr (z_h1 z, z_d z)"
    and "rest_events (z_h1 z) = Inr (z_rest z)"
    and "group_by_pid (z_h1 z) (z_rest z) = Inr (z_bypid z)"
    and "(z_h1 z ! z_ut z) ''n'' = Some (VInt (z_n z))"
    and "foldE (pid_step (z_n z) (z_upid z)) (start_state (z_h1 z) (notes0 @ z_ns z) (z_d z)) (z_bypid z) = Inr (z_s1 z)"
    and "foldE cleanup_step (z_s1 z) [0..<length (heap (z_s1 z))] = Inr (z_s2 z)"
    and "foldE (prune_step (z_n z)) (heap (z_s2 z), tasks (z_s2 z), []) (tasks (z_s2 z)) = Inr (z_h3 z, z_ts z, z_pruned z)"
    and "result_phase (z_ut z) (z_shape z) (z_upid z) ((z_s2 z)\<lparr>heap := z_h3 z, tasks := z_ts z\<rparr>) (z_pruned z) = Inr (c, out)"
  using assms unfolding staged_def by blast+

lemma staged_framed:
  assumes "staged evs notes0 c out z"
  shows "framed evs (z_h1 z)" "framed evs (heap (z_s1 z))" "framed evs (heap (z_s2 z))" "framed evs (z_h3 z)"
proof -
  note st = stagedD [OF assms]
  show h1: "framed evs (z_h1 z)"
    using rank_phase_framed [OF st(3)] u_phase_framed [OF st(4)] by (rule framed_trans)
  have "framed (heap (start_state (z_h1 z) (notes0 @ z_ns z) (z_d z))) (heap (z_s1 z))"
    using st(8) by (rule foldE_heap_framed [where hp = heap]) (auto dest: pid_step_framed)
  then show s1: "framed evs (heap (z_s1 z))" using h1 framed_trans by (auto simp: start_state_def)
  have "framed (heap (z_s1 z)) (heap (z_s2 z))"
    using st(9) by (rule foldE_heap_framed [where hp = heap]) (rule cleanup_step_framed)
  with s1 show s2: "framed evs (heap (z_s2 z))" by (rule framed_trans)
  have "framed (heap (z_s2 z)) (z_h3 z)"
    using foldE_heap_framed [where hp = fst, OF st(10)] prune_step_framed by fastforce
  with s2 show "framed evs (z_h3 z)" by (rule framed_trans)
qed

text \<open>The emitted events: the indices of the heap with a task and no initial role, ranked.\<close>

lemma result_phase_out:
  assumes "result_phase ut shape upid s pruned = Inr (c, out)"
  obtains idx lk where
    "filterE (emitted (heap s)) [0..<length (heap s)] = Inr idx"
    "filterE (\<lambda>i. locked (heap s ! i)) idx = Inr lk"
    "out = map ((!) (rank_from 1 (heap s) lk)) idx"
    "c_nlocked c = length lk" "c_nevents c = length idx"
    "c_walkers c = names_of ''walker'' (tasks s)" "c_holders c = names_of ''holder'' (tasks s)"
    "c_tasklist c = ''U'' # c_walkers c @ c_holders c" "c_pruned c = pruned"
  using assms unfolding result_phase_def Let_def
  by (elim bindE_elim) (auto simp del: bindE_Inr_conv)

section \<open>Ranks\<close>

lemma rank_from_other: "i \<notin> set is \<Longrightarrow> rank_from j h is ! i = h ! i"
  by (induction j h "is" rule: rank_from.induct) (auto simp: setk_def)

lemma rank_from_key: "k \<noteq> ''lk'' \<Longrightarrow> i < length h \<Longrightarrow> (rank_from j h is ! i) k = (h ! i) k"
proof (induction j h "is" rule: rank_from.induct)
  case (2 j h m "is")
  then show ?case by (cases "m = i") (auto simp: setk_def)
qed simp

lemma rank_from_length [simp]: "length (rank_from j h is) = length h"
  by (induction j h "is" rule: rank_from.induct) auto

lemma rank_from_nth:
  "distinct is \<Longrightarrow> set is \<subseteq> {..<length h} \<Longrightarrow> m < length is \<Longrightarrow>
   (rank_from j h is ! (is ! m)) ''lk'' = Some (VInt (j + int m))"
proof (induction j h "is" arbitrary: m rule: rank_from.induct)
  case (2 j h i "is")
  show ?case
  proof (cases m)
    case 0
    with 2 show ?thesis by (simp add: rank_from_other setk_nth)
  next
    case (Suc l)
    with 2 show ?thesis by simp
  qed
qed simp

lemma filterE_indices:
  "filterE p [0..<n] = Inr is \<Longrightarrow> sorted_wrt (<) is \<and> distinct is \<and> set is \<subseteq> {..<n}"
  by (drule filterE_conv) (auto simp: sorted_wrt_filter)

lemma filterE_subset: "filterE p xs = Inr ys \<Longrightarrow> set ys \<subseteq> set xs"
  by (auto dest: filterE_conv)

lemma subseq_filterE: "filterE p xs = Inr ys \<Longrightarrow> subseq ys xs"
  by (auto dest: filterE_conv simp: subseq_filter_left)

lemma out_base:
  assumes "framed evs h" "set idx \<subseteq> {..<length h}"
  shows "map base (map ((!) (rank_from 1 h lk)) idx) = map (\<lambda>i. base (evs ! i)) idx"
proof -
  have fr: "framed evs (rank_from 1 h lk)" using assms(1) rank_from_framed by (rule framed_trans)
  have "base (rank_from 1 h lk ! i) = base (evs ! i)" if "i \<in> set idx" for i
    using framed_base [OF fr] framed_length [OF assms(1)] assms(2) that by auto
  then show ?thesis by simp
qed

lemma staged_out:
  assumes "staged evs notes0 c out z"
  obtains idx lk where
    "filterE (emitted (z_h3 z)) [0..<length (z_h3 z)] = Inr idx"
    "lk = filter (\<lambda>i. locked (z_h3 z ! i) = Inr True) idx"
    "out = map ((!) (rank_from 1 (z_h3 z) lk)) idx"
    "c_nlocked c = length lk"
proof -
  from stagedD(11) [OF assms] obtain idx lk where a:
    "filterE (emitted (z_h3 z)) [0..<length (z_h3 z)] = Inr idx"
    "filterE (\<lambda>i. locked (z_h3 z ! i)) idx = Inr lk"
    "out = map ((!) (rank_from 1 (z_h3 z) lk)) idx" "c_nlocked c = length lk"
    by (rule result_phase_out) simp
  show thesis using that [OF a(1) _ a(3,4)] filterE_conv [OF a(2)] by simp
qed

text \<open>The emitted trace is a subsequence of the mount's events, up to the three book-keeping keys.\<close>

lemma out_subseq:
  assumes "convert evs notes0 = Inr (Some (c, out), ns)"
  shows "subseq (map base out) (map base evs)"
proof -
  from assms obtain z where z: "staged evs notes0 c out z" by (rule convert_staged)
  note fr = staged_framed(4) [OF z]
  from z obtain idx lk where idx: "filterE (emitted (z_h3 z)) [0..<length (z_h3 z)] = Inr idx"
    and out: "out = map ((!) (rank_from 1 (z_h3 z) lk)) idx"
    by (rule staged_out)
  have "map base out = map (\<lambda>i. base (evs ! i)) idx"
    unfolding out using fr filterE_indices [OF idx] by (intro out_base) auto
  moreover have "subseq (map (\<lambda>i. base (evs ! i)) idx) (map (\<lambda>i. base (evs ! i)) [0..<length evs])"
    using subseq_filterE [OF idx] framed_length [OF fr] by (auto intro: subseq_map)
  moreover have "map (\<lambda>i. base (evs ! i)) [0..<length evs] = map base evs"
    by (metis map_map comp_apply map_nth map_cong)
  ultimately show ?thesis by simp
qed

text \<open>The locked events of the emitted trace carry the ranks 1, 2, ... in trace order.\<close>

lemma out_ranks:
  assumes "convert evs notes0 = Inr (Some (c, out), ns)"
  shows "map (\<lambda>e. e ''lk'') (filter (\<lambda>e. locked e = Inr True) out) =
         map (\<lambda>r. Some (VInt (int r))) [1..<Suc (c_nlocked c)]"
proof -
  from assms obtain z where z: "staged evs notes0 c out z" by (rule convert_staged)
  let ?h = "z_h3 z"
  from z obtain idx lk where idx: "filterE (emitted ?h) [0..<length ?h] = Inr idx"
    and lk: "lk = filter (\<lambda>i. locked (?h ! i) = Inr True) idx"
    and out: "out = map ((!) (rank_from 1 ?h lk)) idx" and n: "c_nlocked c = length lk"
    by (rule staged_out)
  let ?r = "rank_from 1 ?h lk"
  have i: "distinct idx" "set idx \<subseteq> {..<length ?h}" using filterE_indices [OF idx] by auto
  have same: "locked (?r ! j) = locked (?h ! j)" if "j \<in> set idx" for j
    using that i(2) framed_base [OF rank_from_framed] locked_base by (metis lessThan_iff subsetD)
  have "filter (\<lambda>e. locked e = Inr True) out = map ((!) ?r) lk"
  proof -
    have "filter (\<lambda>j. locked (?r ! j) = Inr True) idx = lk"
      unfolding lk using same by (intro filter_cong) (simp_all add: lk)
    then show ?thesis unfolding out filter_map comp_def by simp
  qed
  moreover have "map (\<lambda>i. (?r ! i) ''lk'') lk = map (\<lambda>r. Some (VInt (int r))) [1..<Suc (length lk)]"
  proof (rule nth_equalityI)
    fix m assume "m < length (map (\<lambda>i. (?r ! i) ''lk'') lk)"
    then have "m < length lk" by simp
    moreover have "distinct lk" "set lk \<subseteq> {..<length ?h}" using i lk by auto
    ultimately show "map (\<lambda>i. (?r ! i) ''lk'') lk ! m = map (\<lambda>r. Some (VInt (int r))) [1..<Suc (length lk)] ! m"
      by (simp add: rank_from_nth del: upt_Suc)
  qed (simp del: upt_Suc)
  ultimately show ?thesis using n by (simp add: comp_def)
qed

end
