(* ===== verification/Trace_Ledger.thy ===== *)
theory Trace_Ledger
  imports Trace_Frame
begin

text \<open>
  The ledger of \<^verbatim>\<open>convert()\<close>: which task every event of the trace belongs to. The invariant of the
  loop over the pids says that a task's events are the ones that name it, in file order; that a
  walker is one \<^verbatim>\<open>__legitimize_mnt()\<close> and at most the one put of the reference it took; that a
  holder never puts more references than it has; and that every event seen is in a task, is an
  initial reference, or is of a kind the script does not handle.
\<close>

declare map_of_eq_Some_iff [simp del]

section \<open>Names of tasks\<close>

lemma append_dot_inj:
  assumes "a @ CHR ''.'' # b = a' @ CHR ''.'' # b'" "CHR ''.'' \<notin> set a" "CHR ''.'' \<notin> set a'"
  shows "a = a' \<and> b = b'"
proof -
  have "takeWhile (\<lambda>c. c \<noteq> CHR ''.'') (a @ CHR ''.'' # b) = a" if "CHR ''.'' \<notin> set a" for a b :: string
    using that by (induction a) auto
  with assms show ?thesis by (metis append_same_eq append.assoc list.inject same_append_eq)
qed

lemma task_name_inj:
  "task_name c (VInt p) k = task_name c' (VInt p') k' \<longleftrightarrow> c = c' \<and> p = p' \<and> k = k'"
proof
  assume a: "task_name c (VInt p) k = task_name c' (VInt p') k'"
  then have "show_int p @ CHR ''.'' # show_nat k = show_int p' @ CHR ''.'' # show_nat k'"
    by (simp add: task_name_def)
  then have "show_int p = show_int p' \<and> show_nat k = show_nat k'"
    by (rule append_dot_inj) (simp_all add: show_int_no_dot)
  with a show "c = c' \<and> p = p' \<and> k = k'" by (simp add: task_name_def)
qed simp

section \<open>The shape of a task\<close>

definition is_legit :: "heap \<Rightarrow> nat \<Rightarrow> bool" where
  "is_legit h i = ((h ! i) ''ev'' = Some (VStr ''mnt_legitimize''))"

definition is_get :: "heap \<Rightarrow> nat \<Rightarrow> bool" where
  "is_get h i = ((h ! i) ''ev'' = Some (VStr ''mnt_get''))"

definition is_putb :: "heap \<Rightarrow> nat \<Rightarrow> bool" where
  "is_putb h i = (is_put (h ! i) = Inr True)"

definition takes_ref :: "heap \<Rightarrow> nat \<Rightarrow> bool" where
  "takes_ref h i = ((h ! i) ''result'' \<in> {Some (VInt 0), Some (VInt (-1))})"

definition refs :: "heap \<Rightarrow> nat list \<Rightarrow> int" where
  "refs h es = 1 + int (length (filter (is_get h) es)) - int (length (filter (is_putb h) es))"

definition walker_shape :: "heap \<Rightarrow> nat list \<Rightarrow> bool" where
  "walker_shape h es = (\<exists>a. is_legit h a \<and> (es = [a] \<or> (\<exists>b. es = [a, b] \<and> is_putb h b \<and> takes_ref h a)))"

definition holder_shape :: "heap \<Rightarrow> nat list \<Rightarrow> bool" where
  "holder_shape h es = ((\<forall>i\<in>set es. is_get h i \<or> is_putb h i) \<and> (\<forall>k\<le>length es. 0 \<le> refs h (take k es)))"

definition task_shape :: "heap \<Rightarrow> task \<Rightarrow> bool" where
  "task_shape h t = (if t_role t = ''walker'' then walker_shape h (t_events t)
     else t_role t = ''holder'' \<and> holder_shape h (t_events t) \<and>
          t_gets t = int (length (filter (is_get h) (t_events t))))"

lemma get_not_put: "is_get h i \<Longrightarrow> \<not> is_putb h i"
  by (auto simp: is_get_def is_putb_def is_put_def getv_def)

lemma refs_append_get: "is_get h i \<Longrightarrow> refs h (es @ [i]) = refs h es + 1"
  by (simp add: refs_def get_not_put)

lemma refs_append_put: "is_putb h i \<Longrightarrow> refs h (es @ [i]) = refs h es - 1"
  using get_not_put [of h i] by (auto simp: refs_def)

lemma refs_Nil [simp]: "refs h [] = 1"
  by (simp add: refs_def)

lemma holder_shape_append:
  assumes "holder_shape h es" "is_get h i \<or> (is_putb h i \<and> 0 < refs h es)"
  shows "holder_shape h (es @ [i])"
proof -
  have "0 \<le> refs h es" using assms(1) by (auto simp: holder_shape_def dest: spec [of _ "length es"])
  then have "0 \<le> refs h (es @ [i])" using assms(2) by (auto simp: refs_append_get refs_append_put)
  with assms show ?thesis
    by (auto simp: holder_shape_def le_Suc_eq)
qed

lemma holder_shape_refs: "holder_shape h es \<Longrightarrow> 0 \<le> refs h es"
  by (auto simp: holder_shape_def dest: spec [of _ "length es"])

definition role_char :: "task \<Rightarrow> char" where
  "role_char t = (if t_role t = ''walker'' then CHR ''W'' else CHR ''H'')"

section \<open>The invariant\<close>

text \<open>
  \<open>D\<close> and \<open>Q\<close> are the pids already done and their events, \<open>ps\<close> the events of the current pid seen
  so far, \<open>h1\<close> the heap when the loop over the pids starts, \<open>hp\<close> the heap now.
\<close>

definition owned :: "val set \<Rightarrow> val \<Rightarrow> nat set \<Rightarrow> nat list \<Rightarrow> nat \<Rightarrow> nat \<Rightarrow> string \<Rightarrow> task \<Rightarrow> bool" where
  "owned D pid Q ps w k name t \<longleftrightarrow>
     (t_pid t \<in> D \<and> set (t_events t) \<subseteq> Q \<and> (\<exists>n. name = task_name (role_char t) (t_pid t) n)) \<or>
     (t_pid t = pid \<and> set (t_events t) \<subseteq> set ps \<and>
      (\<exists>n. name = task_name (role_char t) pid n \<and> n \<le> (if t_role t = ''walker'' then w else k)))"

definition task_ok ::
  "heap \<Rightarrow> heap \<Rightarrow> val set \<Rightarrow> val \<Rightarrow> nat set \<Rightarrow> nat list \<Rightarrow> nat \<Rightarrow> nat \<Rightarrow> string \<Rightarrow> task \<Rightarrow> bool" where
  "task_ok h1 hp D pid Q ps w k name t \<longleftrightarrow>
     owned D pid Q ps w k name t \<and> sorted_wrt (<) (t_events t) \<and>
     (\<forall>i\<in>set (t_events t). (hp ! i) ''task'' = Some (VStr name) \<and> (hp ! i) ''role'' = (h1 ! i) ''role'') \<and>
     (\<forall>i. t_init t = Some i \<longrightarrow> (hp ! i) ''role'' = Some (VStr ''init'')) \<and>
     task_shape h1 t"

definition unhandled :: "event \<Rightarrow> bool" where
  "unhandled e = (\<exists>ev. e ''ev'' = Some ev \<and>
     ev \<notin> VStr ` {''mnt_legitimize'', ''mnt_get'', ''mnt_put_fast'', ''mnt_slowpath''})"

definition covered :: "heap \<Rightarrow> cstate \<Rightarrow> nat \<Rightarrow> bool" where
  "covered h1 s i = ((\<exists>name t. map_of (tasks s) name = Some t \<and> i \<in> set (t_events t)) \<or>
     (heap s ! i) ''role'' = Some (VStr ''init'') \<or>
     (unhandled (h1 ! i) \<and> heap s ! i = h1 ! i))"

definition open_ok :: "heap \<Rightarrow> val \<Rightarrow> cstate \<Rightarrow> bool" where
  "open_ok h1 pid s = (distinct (open_walkers s) \<and> (\<forall>w\<in>set (open_walkers s). \<exists>t a.
     map_of (tasks s) w = Some t \<and> t_role t = ''walker'' \<and> t_pid t = pid \<and> t_events t = [a] \<and> takes_ref h1 a))"

definition holder_ok :: "heap \<Rightarrow> val \<Rightarrow> cstate \<Rightarrow> bool" where
  "holder_ok h1 pid s = (\<forall>hn r. holder s = Some (hn, r) \<longrightarrow> (\<exists>t. map_of (tasks s) hn = Some t \<and>
     t_role t = ''holder'' \<and> t_pid t = pid \<and> r = refs h1 (t_events t)))"

definition ledger :: "heap \<Rightarrow> val set \<Rightarrow> val \<Rightarrow> nat set \<Rightarrow> nat list \<Rightarrow> cstate \<Rightarrow> bool" where
  "ledger h1 D pid Q ps s \<longleftrightarrow>
     framed h1 (heap s) \<and> dict_wf (tasks s) \<and>
     (\<forall>name t. map_of (tasks s) name = Some t \<longrightarrow> task_ok h1 (heap s) D pid Q ps (wk s) (hk s) name t) \<and>
     (\<forall>i\<in>Q \<union> set ps. covered h1 s i) \<and>
     (\<forall>i. i \<notin> Q \<union> set ps \<longrightarrow> heap s ! i = h1 ! i) \<and>
     open_ok h1 pid s \<and> holder_ok h1 pid s"

text \<open>What a step needs to know of the heap it starts from and of the index it handles.\<close>

definition fresh_index :: "heap \<Rightarrow> val set \<Rightarrow> val \<Rightarrow> nat set \<Rightarrow> nat list \<Rightarrow> nat \<Rightarrow> bool" where
  "fresh_index h1 D pid Q ps i \<longleftrightarrow> i < length h1 \<and> i \<notin> Q \<and> (\<forall>j\<in>set ps. j < i) \<and> pid \<notin> D \<and>
     D \<subseteq> range VInt \<and> pid \<in> range VInt \<and> Q \<subseteq> {..<length h1} \<and>
     (\<forall>j<length h1. (h1 ! j) ''role'' \<noteq> Some (VStr ''init''))"

lemma task_ok_mono:
  assumes "task_ok h1 hp D pid Q ps w k name t" "set ps \<subseteq> set ps'" "w \<le> w'" "k \<le> k'"
    and "\<And>i. i \<in> set (t_events t) \<Longrightarrow> hp' ! i = hp ! i"
    and "\<And>i. t_init t = Some i \<Longrightarrow> (hp ! i) ''role'' = Some (VStr ''init'') \<Longrightarrow>
      (hp' ! i) ''role'' = Some (VStr ''init'')"
  shows "task_ok h1 hp' D pid Q ps' w' k' name t"
proof -
  have "owned D pid Q ps' w' k' name t"
    using assms(1-4) unfolding task_ok_def owned_def by (auto split: if_splits intro: order_trans)
  with assms(1,5,6) show ?thesis unfolding task_ok_def by simp
qed

lemma ledgerD:
  assumes "ledger h1 D pid Q ps s"
  shows "framed h1 (heap s)" "dict_wf (tasks s)"
    "\<And>name t. map_of (tasks s) name = Some t \<Longrightarrow> task_ok h1 (heap s) D pid Q ps (wk s) (hk s) name t"
    "\<And>i. i \<in> Q \<union> set ps \<Longrightarrow> covered h1 s i" "\<And>i. i \<notin> Q \<union> set ps \<Longrightarrow> heap s ! i = h1 ! i"
    "open_ok h1 pid s" "holder_ok h1 pid s"
  using assms unfolding ledger_def by blast+

lemma fresh_notin: "fresh_index h1 D pid Q ps i \<Longrightarrow> i \<notin> Q \<union> set ps"
  by (auto simp: fresh_index_def)

lemma task_ok_events: "task_ok h1 hp D pid Q ps w k name t \<Longrightarrow> set (t_events t) \<subseteq> Q \<union> set ps"
  unfolding task_ok_def owned_def by blast

text \<open>The names of the current pid are numbered up to the counters, so the next number is fresh.\<close>

lemma name_bound:
  assumes "ledger h1 D pid Q ps s" "fresh_index h1 D pid Q qs i" "map_of (tasks s) (task_name c pid n) = Some t"
  shows "c = role_char t \<and> n \<le> (if t_role t = ''walker'' then wk s else hk s)"
proof -
  from assms(2) obtain p where p: "pid = VInt p" by (auto simp: fresh_index_def)
  have o: "owned D pid Q ps (wk s) (hk s) (task_name c pid n) t"
    using ledgerD(3) [OF assms(1,3)] by (simp add: task_ok_def)
  have "t_pid t \<notin> D \<or> \<not> (\<exists>m. task_name c pid n = task_name (role_char t) (t_pid t) m)"
  proof (rule ccontr)
    assume "\<not> ?thesis"
    then obtain m where m: "t_pid t \<in> D" "task_name c pid n = task_name (role_char t) (t_pid t) m" by auto
    with assms(2) obtain q where "t_pid t = VInt q" by (auto simp: fresh_index_def)
    with m p have "t_pid t = pid" by (simp add: task_name_inj)
    with m assms(2) show False by (simp add: fresh_index_def)
  qed
  with o p show ?thesis by (auto simp: owned_def task_name_inj)
qed

lemma name_fresh_W:
  "ledger h1 D pid Q ps s \<Longrightarrow> fresh_index h1 D pid Q qs i \<Longrightarrow>
   map_of (tasks s) (task_name CHR ''W'' pid (wk s + 1)) = None"
  using name_bound [of h1 D pid Q ps s qs i "CHR ''W''" "wk s + 1"]
  by (cases "map_of (tasks s) (task_name CHR ''W'' pid (wk s + 1))") (auto simp: role_char_def split: if_splits)

lemma name_fresh_H:
  "ledger h1 D pid Q ps s \<Longrightarrow> fresh_index h1 D pid Q qs i \<Longrightarrow>
   map_of (tasks s) (task_name CHR ''H'' pid (hk s + 1)) = None"
  using name_bound [of h1 D pid Q ps s qs i "CHR ''H''" "hk s + 1"]
  by (cases "map_of (tasks s) (task_name CHR ''H'' pid (hk s + 1))") (auto simp: role_char_def split: if_splits)

definition pid_ctx :: "heap \<Rightarrow> val set \<Rightarrow> val \<Rightarrow> nat set \<Rightarrow> nat list \<Rightarrow> bool" where
  "pid_ctx h1 D pid Q ps \<longleftrightarrow> pid \<notin> D \<and> D \<subseteq> range VInt \<and> pid \<in> range VInt \<and>
     Q \<subseteq> {..<length h1} \<and> set ps \<subseteq> {..<length h1} \<and>
     (\<forall>j<length h1. (h1 ! j) ''role'' \<noteq> Some (VStr ''init''))"

text \<open>An index in a task names that task in the heap, and is no initial reference.\<close>

lemma ledger_member:
  assumes "ledger h1 D pid Q ps s" "pid_ctx h1 D pid Q ps"
    and "map_of (tasks s) name = Some t" "j \<in> set (t_events t)"
  shows "(heap s ! j) ''role'' \<noteq> Some (VStr ''init'')" "(heap s ! j) ''task'' = Some (VStr name)"
    "j \<in> Q \<union> set ps" "j < length (heap s)"
proof -
  have ok: "task_ok h1 (heap s) D pid Q ps (wk s) (hk s) name t" using ledgerD(3) [OF assms(1,3)] .
  then show m: "j \<in> Q \<union> set ps" using task_ok_events assms(4) by blast
  then have l: "j < length h1" using assms(2) by (auto simp: pid_ctx_def)
  then show "j < length (heap s)" using ledgerD(1) [OF assms(1)] by (simp add: framed_length)
  from l ok assms(2,4) show "(heap s ! j) ''role'' \<noteq> Some (VStr ''init'')" "(heap s ! j) ''task'' = Some (VStr name)"
    by (auto simp: task_ok_def pid_ctx_def)
qed

text \<open>A step on a fresh index that touches nothing else of the heap, and at most one task.\<close>

lemma ledger_step:
  assumes led: "ledger h1 D pid Q ps s" and fr: "fresh_index h1 D pid Q ps i"
    and "framed h1 (heap s')" "dict_wf (tasks s')" "wk s \<le> wk s'" "hk s \<le> hk s'"
    and heap: "\<And>j. j \<noteq> i \<Longrightarrow> heap s' ! j = heap s ! j"
    and new: "\<And>name t. map_of (tasks s') name = Some t \<Longrightarrow> map_of (tasks s) name = Some t \<or>
      task_ok h1 (heap s') D pid Q (ps @ [i]) (wk s') (hk s') name t"
    and keep: "\<And>name t. map_of (tasks s) name = Some t \<Longrightarrow>
      \<exists>t'. map_of (tasks s') name = Some t' \<and> set (t_events t) \<subseteq> set (t_events t')"
    and "covered h1 s' i" "open_ok h1 pid s'" "holder_ok h1 pid s'"
  shows "ledger h1 D pid Q (ps @ [i]) s'"
proof -
  have i: "i \<notin> Q \<union> set ps" using fr by (rule fresh_notin)
  have ni: "(heap s ! i) ''role'' \<noteq> Some (VStr ''init'')"
    using ledgerD(5) [OF led i] fr by (auto simp: fresh_index_def)
  have old: "task_ok h1 (heap s') D pid Q (ps @ [i]) (wk s') (hk s') name t"
    if "map_of (tasks s) name = Some t" for name t
  proof (rule task_ok_mono [OF ledgerD(3) [OF led that]])
    fix j assume "j \<in> set (t_events t)"
    with task_ok_events [OF ledgerD(3) [OF led that]] i show "heap s' ! j = heap s ! j"
      by (intro heap) blast
  next
    fix j assume "(heap s ! j) ''role'' = Some (VStr ''init'')"
    with ni heap [of j] show "(heap s' ! j) ''role'' = Some (VStr ''init'')" by (cases "j = i") auto
  qed (use assms(5,6) in auto)
  have "covered h1 s' j" if "j \<in> Q \<union> set ps" for j
  proof -
    have j: "heap s' ! j = heap s ! j" using i that by (intro heap) blast
    from ledgerD(4) [OF led that] show ?thesis
      unfolding covered_def j using keep by blast
  qed
  moreover have "heap s' ! j = h1 ! j" if "j \<notin> Q \<union> set (ps @ [i])" for j
    using heap [of j] ledgerD(5) [OF led, of j] that by auto
  moreover have "task_ok h1 (heap s') D pid Q (ps @ [i]) (wk s') (hk s') name t"
    if "map_of (tasks s') name = Some t" for name t
    using new [OF that] old by blast
  ultimately show ?thesis
    unfolding ledger_def using assms(3,4,10,11,12) by simp
qed

section \<open>The steps keep the invariant\<close>

lemma setk_other: "j \<noteq> i \<Longrightarrow> setk h i k v ! j = h ! j"
  by (simp add: setk_def)

lemma setk_same: "i < length h \<Longrightarrow> (setk h i k v ! i) k' = (if k' = k then Some v else (h ! i) k')"
  by (simp add: setk_def)

lemma fresh_heap:
  assumes "ledger h1 D pid Q ps s" "fresh_index h1 D pid Q ps i"
  shows "i < length (heap s)" "heap s ! i = h1 ! i" "(h1 ! i) ''role'' \<noteq> Some (VStr ''init'')"
  using ledgerD(1) [OF assms(1)] ledgerD(5) [OF assms(1) fresh_notin [OF assms(2)]] assms(2)
  by (auto simp: fresh_index_def framed_length)

lemma is_legit_framed: "framed h h' \<Longrightarrow> i < length h \<Longrightarrow> is_legit h' i = is_legit h i"
  by (simp add: is_legit_def framed_key)

lemma owned_current:
  "t_pid t = pid \<Longrightarrow> set (t_events t) \<subseteq> set ps \<Longrightarrow> name = task_name (role_char t) pid n \<Longrightarrow>
   n \<le> (if t_role t = ''walker'' then w else k) \<Longrightarrow> owned D pid Q ps w k name t"
  by (auto simp: owned_def)

lemma legit_step_ledger:
  assumes led: "ledger h1 D pid Q ps s" and fr: "fresh_index h1 D pid Q ps i"
    and st: "legit_step pid s i = Inr s'" and ev: "is_legit h1 i"
  shows "ledger h1 D pid Q (ps @ [i]) s'"
proof -
  let ?n = "task_name CHR ''W'' pid (wk s + 1)"
  let ?t = "\<lparr>t_role = ''walker'', t_pid = pid, t_events = [i], t_gets = 0, t_init = None, t_pre = False\<rparr>"
  note fh = fresh_heap [OF led fr]
  from st obtain r where r: "(h1 ! i) ''result'' = Some r"
    and s': "s' = s\<lparr>wk := wk s + 1, tasks := AList.update ?n ?t (tasks s),
       heap := setk (heap s) i ''task'' (VStr ?n),
       open_walkers := (if r \<in> {VInt 0, VInt (-1)} then open_walkers s @ [?n] else open_walkers s)\<rparr>"
    using fh(2) by (auto simp: legit_step_def Let_def)
  have no: "map_of (tasks s) ?n = None" using led fr by (rule name_fresh_W)
  have ok: "task_ok h1 (heap s') D pid Q (ps @ [i]) (wk s') (hk s') ?n ?t"
    unfolding task_ok_def using fh ev
    by (auto simp: s' setk_same task_shape_def walker_shape_def role_char_def
        intro!: owned_current [where n = "wk s + 1"])
  show ?thesis
  proof (rule ledger_step [OF led fr])
    show "framed h1 (heap s')" using ledgerD(1) [OF led] by (simp add: s' framed_setk_trans)
    show "dict_wf (tasks s')" using ledgerD(2) [OF led] by (simp add: s' dict_wf_update)
    show "covered h1 s' i" by (auto simp: covered_def s' map_of_update_dict intro!: exI [of _ ?n] exI [of _ ?t])
    show "open_ok h1 pid s'"
      using ledgerD(6) [OF led] no r
      by (auto simp: open_ok_def s' map_of_update_dict takes_ref_def)
    show "holder_ok h1 pid s'"
      using ledgerD(7) [OF led] no by (auto simp: holder_ok_def s' map_of_update_dict)
  qed (use no ok in \<open>auto simp: s' map_of_update_dict setk_other split: if_splits\<close>)
qed

text \<open>Opening a holder: a task of the current pid with no event yet.\<close>

lemma new_holder_simps:
  "wk (new_holder pid s ie) = wk s" "hk (new_holder pid s ie) = hk s + 1" "inits (new_holder pid s ie) = inits s"
  "open_walkers (new_holder pid s ie) = open_walkers s" "doomer (new_holder pid s ie) = doomer s"
  "holder (new_holder pid s ie) = Some (task_name CHR ''H'' pid (hk s + 1), 1)"
  "tasks (new_holder pid s ie) = AList.update (task_name CHR ''H'' pid (hk s + 1))
     \<lparr>t_role = ''holder'', t_pid = pid, t_events = [], t_gets = 0, t_init = ie, t_pre = (ie = None)\<rparr> (tasks s)"
  by (simp_all add: new_holder_def Let_def)

lemma holder_shape_Nil: "holder_shape h []"
  by (simp add: holder_shape_def)

lemma get_new_ledger:
  assumes led: "ledger h1 D pid Q ps s" and fr: "fresh_index h1 D pid Q ps i"
    and st: "get_step pid s i = Inr s'" and nh: "\<not> holds s"
  shows "ledger h1 D pid Q (ps @ [i]) s'"
proof -
  let ?n = "task_name CHR ''H'' pid (hk s + 1)"
  let ?t = "\<lparr>t_role = ''holder'', t_pid = pid, t_events = [], t_gets = 0, t_init = Some i, t_pre = False\<rparr>"
  note fh = fresh_heap [OF led fr]
  have s': "s' = (new_holder pid s (Some i))\<lparr>heap := setk (setk (heap s) i ''task'' (VStr ?n)) i ''role'' (VStr ''init''),
       inits := inits s @ [i]\<rparr>"
    using st nh by (auto simp: get_step_def Let_def new_holder_simps holder_name_def)
  have no: "map_of (tasks s) ?n = None" using led fr by (rule name_fresh_H)
  have role: "(heap s' ! i) ''role'' = Some (VStr ''init'')" using fh(1) by (simp add: s' setk_same)
  have ok: "task_ok h1 (heap s') D pid Q (ps @ [i]) (wk s') (hk s') ?n ?t"
    unfolding task_ok_def using role
    by (auto simp: s' new_holder_simps task_shape_def holder_shape_Nil role_char_def
        intro!: owned_current [where n = "hk s + 1"])
  show ?thesis
  proof (rule ledger_step [OF led fr])
    show "framed h1 (heap s')" using ledgerD(1) [OF led] by (simp add: s' framed_setk_trans)
    show "dict_wf (tasks s')" using ledgerD(2) [OF led] by (simp add: s' new_holder_simps dict_wf_update)
    show "covered h1 s' i" using role by (simp add: covered_def)
    show "open_ok h1 pid s'"
      using ledgerD(6) [OF led] no by (auto simp: open_ok_def s' new_holder_simps map_of_update_dict)
    show "holder_ok h1 pid s'"
      using no by (auto simp: holder_ok_def s' new_holder_simps map_of_update_dict)
  qed (use no ok in \<open>auto simp: s' new_holder_simps map_of_update_dict setk_other split: if_splits\<close>)
qed

text \<open>Appending the event to a task of the current pid.\<close>

definition with_event :: "nat \<Rightarrow> int \<Rightarrow> task \<Rightarrow> task" where
  "with_event i g t = t\<lparr>t_events := t_events t @ [i], t_gets := t_gets t + g\<rparr>"

lemma with_event_simps [simp]:
  "t_events (with_event i g t) = t_events t @ [i]" "t_role (with_event i g t) = t_role t"
  "t_pid (with_event i g t) = t_pid t" "t_gets (with_event i g t) = t_gets t + g"
  "t_init (with_event i g t) = t_init t" "role_char (with_event i g t) = role_char t"
  by (simp_all add: with_event_def role_char_def)

lemma with_event_ok:
  assumes ok: "task_ok h1 hp D pid Q ps w k name t" and fr: "fresh_index h1 D pid Q ps i"
    and p: "t_pid t = pid" and "task_shape h1 (with_event i g t)"
    and hp: "\<And>j. j \<noteq> i \<Longrightarrow> hp' ! j = hp ! j" "(hp' ! i) ''task'' = Some (VStr name)"
      "(hp' ! i) ''role'' = (h1 ! i) ''role''" and ni: "(hp ! i) ''role'' \<noteq> Some (VStr ''init'')"
  shows "task_ok h1 hp' D pid Q (ps @ [i]) w k name (with_event i g t)"
proof -
  have "pid \<notin> D" using fr by (simp add: fresh_index_def)
  with ok p have es: "set (t_events t) \<subseteq> set ps" and "owned D pid Q (ps @ [i]) w k name (with_event i g t)"
    by (auto simp: task_ok_def owned_def)
  moreover have "sorted_wrt (<) (t_events t @ [i])"
    using ok es fr by (auto simp: task_ok_def sorted_wrt_append fresh_index_def)
  moreover have "(hp' ! j) ''task'' = Some (VStr name) \<and> (hp' ! j) ''role'' = (h1 ! j) ''role''"
    if "j \<in> set (t_events t @ [i])" for j
    using that hp ok by (cases "j = i") (auto simp: task_ok_def)
  moreover have "(hp' ! j) ''role'' = Some (VStr ''init'')" if "t_init t = Some j" for j
    using that ok ni hp(1) [of j] by (cases "j = i") (auto simp: task_ok_def)
  ultimately show ?thesis using assms(4) by (simp add: task_ok_def)
qed

lemma append_ledger:
  assumes led: "ledger h1 D pid Q ps s" and fr: "fresh_index h1 D pid Q ps i"
    and t: "map_of (tasks s) name = Some t" and p: "t_pid t = pid" and sh: "task_shape h1 (with_event i g t)"
    and s': "tasks s' = AList.update name (with_event i g t) (tasks s)" "heap s' = setk (heap s) i ''task'' (VStr name)"
      "wk s' = wk s" "hk s' = hk s" and ok: "open_ok h1 pid s'" "holder_ok h1 pid s'"
  shows "ledger h1 D pid Q (ps @ [i]) s'"
proof -
  note fh = fresh_heap [OF led fr]
  have new: "task_ok h1 (heap s') D pid Q (ps @ [i]) (wk s') (hk s') name (with_event i g t)"
    unfolding s' by (rule with_event_ok [OF ledgerD(3) [OF led t] fr p sh]) (use fh in \<open>auto simp: setk_other setk_same\<close>)
  show ?thesis
  proof (rule ledger_step [OF led fr])
    show "framed h1 (heap s')" using ledgerD(1) [OF led] by (simp add: s' framed_setk_trans)
    show "dict_wf (tasks s')" using ledgerD(2) [OF led] by (simp add: s' dict_wf_update)
    show "covered h1 s' i"
      by (auto simp: covered_def s' map_of_update_dict intro!: exI [of _ name] exI [of _ "with_event i g t"])
  qed (use new t ok in \<open>auto simp: s' map_of_update_dict setk_other split: if_splits\<close>)
qed

lemma add_event_Inr:
  "add_event name i ts = Inr ts' \<Longrightarrow> \<exists>t. map_of ts name = Some t \<and> ts' = AList.update name (with_event i 0 t) ts"
  by (auto simp: add_event_def with_event_def)

lemma update_twice: "AList.update k v (AList.update k u d) = AList.update k v d"
  by (induction d) auto

lemma holds_holder: "holds s \<Longrightarrow> holder s = Some (holder_name s, holder_refs s) \<and> holder_refs s \<noteq> 0"
  by (auto simp: holds_def holder_name_def holder_refs_def split: option.splits)

lemma get_more_ledger:
  assumes led: "ledger h1 D pid Q ps s" and fr: "fresh_index h1 D pid Q ps i"
    and st: "get_step pid s i = Inr s'" and h: "holds s" and ev: "is_get h1 i"
  shows "ledger h1 D pid Q (ps @ [i]) s'"
proof -
  let ?n = "holder_name s"
  obtain t where t: "map_of (tasks s) ?n = Some t" "t_role t = ''holder''" "t_pid t = pid"
      "holder_refs s = refs h1 (t_events t)"
    using ledgerD(7) [OF led] holds_holder [OF h] by (auto simp: holder_ok_def)
  have s': "s' = s\<lparr>holder := Some (?n, holder_refs s + 1), tasks := AList.update ?n (with_event i 1 t) (tasks s),
       heap := setk (heap s) i ''task'' (VStr ?n)\<rparr>"
    using st h t(1) by (auto simp: get_step_def map_of_update_dict update_twice with_event_def dest!: add_event_Inr)
  have "task_shape h1 t" using ledgerD(3) [OF led t(1)] by (simp add: task_ok_def)
  with t(2) ev have sh: "task_shape h1 (with_event i 1 t)"
    by (auto simp: task_shape_def holder_shape_append)
  show ?thesis
  proof (rule append_ledger [OF led fr t(1,3) sh])
    show "open_ok h1 pid s'"
      using ledgerD(6) [OF led] t(1,2) by (fastforce simp: open_ok_def s' map_of_update_dict)
    show "holder_ok h1 pid s'"
      using t ev by (auto simp: holder_ok_def s' map_of_update_dict refs_append_get)
  qed (simp_all add: s')
qed

lemma put_walker_ledger:
  assumes led: "ledger h1 D pid Q ps s" and fr: "fresh_index h1 D pid Q ps i"
    and st: "put_step pid s i = Inr s'" and ow: "open_walkers s = w # ws" and ev: "is_putb h1 i"
  shows "ledger h1 D pid Q (ps @ [i]) s'"
proof -
  obtain t a where t: "map_of (tasks s) w = Some t" "t_role t = ''walker''" "t_pid t = pid" "t_events t = [a]" "takes_ref h1 a"
    using ledgerD(6) [OF led] ow by (auto simp: open_ok_def)
  have s': "s' = s\<lparr>open_walkers := ws, tasks := AList.update w (with_event i 0 t) (tasks s),
       heap := setk (heap s) i ''task'' (VStr w)\<rparr>"
    using st ow t(1) by (auto simp: put_step_def dest!: add_event_Inr)
  have "task_shape h1 t" using ledgerD(3) [OF led t(1)] by (simp add: task_ok_def)
  with t ev have sh: "task_shape h1 (with_event i 0 t)"
    by (auto simp: task_shape_def walker_shape_def)
  show ?thesis
  proof (rule append_ledger [OF led fr t(1,3) sh])
    show "open_ok h1 pid s'"
      using ledgerD(6) [OF led] ow by (fastforce simp: open_ok_def s' map_of_update_dict)
    show "holder_ok h1 pid s'"
      using ledgerD(7) [OF led] t(1,2) by (fastforce simp: holder_ok_def s' map_of_update_dict)
  qed (simp_all add: s')
qed

text \<open>A put with no open walk drops a reference of the current holder; the ledger of a state in
  which a holder was just opened for it is the ledger of the state before.\<close>

lemma new_holder_ledger:
  assumes led: "ledger h1 D pid Q ps s" and fr: "fresh_index h1 D pid Q ps i"
  shows "ledger h1 D pid Q ps (new_holder pid s None)"
proof -
  let ?s = "new_holder pid s None" and ?n = "task_name CHR ''H'' pid (hk s + 1)"
  have no: "map_of (tasks s) ?n = None" using led fr by (rule name_fresh_H)
  have "task_ok h1 (heap ?s) D pid Q ps (wk ?s) (hk ?s) name t" if "map_of (tasks ?s) name = Some t" for name t
  proof (cases "name = ?n")
    case True
    with that have "t = \<lparr>t_role = ''holder'', t_pid = pid, t_events = [], t_gets = 0, t_init = None, t_pre = True\<rparr>"
      by (simp add: new_holder_simps map_of_update_dict)
    with True show ?thesis
      unfolding task_ok_def
      by (auto simp: new_holder_simps task_shape_def holder_shape_Nil role_char_def
          intro!: owned_current [where n = "hk s + 1"])
  next
    case False
    with that have "map_of (tasks s) name = Some t" by (simp add: new_holder_simps map_of_update_dict)
    from task_ok_mono [OF ledgerD(3) [OF led this]] show ?thesis by (simp add: new_holder_simps)
  qed
  moreover have "covered h1 ?s j" if "j \<in> Q \<union> set ps" for j
  proof -
    have keep: "map_of (tasks ?s) name = Some t" if "map_of (tasks s) name = Some t" for name t
      using that no by (auto simp: new_holder_simps map_of_update_dict)
    from ledgerD(4) [OF led that] show ?thesis
      unfolding covered_def new_holder_heap using keep by blast
  qed
  moreover have "open_ok h1 pid ?s"
    using ledgerD(6) [OF led] no by (fastforce simp: open_ok_def new_holder_simps map_of_update_dict)
  moreover have "holder_ok h1 pid ?s"
    by (auto simp: holder_ok_def new_holder_simps map_of_update_dict)
  ultimately show ?thesis
    unfolding ledger_def using ledgerD(1,2,5) [OF led] by (simp add: new_holder_simps dict_wf_update)
qed

lemma put_holder_ledger:
  assumes led: "ledger h1 D pid Q ps s" and fr: "fresh_index h1 D pid Q ps i"
    and st: "put_step pid s i = Inr s'" and ow: "open_walkers s = []" and ev: "is_putb h1 i"
  shows "ledger h1 D pid Q (ps @ [i]) s'"
proof -
  define s1 where "s1 = (if holds s then s else new_holder pid s None)"
  let ?n = "holder_name s1"
  have led1: "ledger h1 D pid Q ps s1" unfolding s1_def using led new_holder_ledger [OF led fr] by simp
  have h1s: "holds s1" by (simp add: s1_def holds_def [of "new_holder _ _ _"] new_holder_simps)
  obtain t where t: "map_of (tasks s1) ?n = Some t" "t_role t = ''holder''" "t_pid t = pid"
      "holder_refs s1 = refs h1 (t_events t)"
    using ledgerD(7) [OF led1] holds_holder [OF h1s] by (auto simp: holder_ok_def)
  from st ow t(1) obtain d where s': "s' = s1\<lparr>holder := Some (?n, holder_refs s1 - 1),
       tasks := AList.update ?n (with_event i 0 t) (tasks s1), heap := setk (heap s1) i ''task'' (VStr ?n), doomer := d\<rparr>"
    by (auto simp: put_step_def Let_def s1_def [symmetric] dest!: add_event_Inr)
  have ts: "task_shape h1 t" using ledgerD(3) [OF led1 t(1)] by (simp add: task_ok_def)
  then have "0 < refs h1 (t_events t)"
    using t(2,4) holds_holder [OF h1s] holder_shape_refs [of h1 "t_events t"] by (auto simp: task_shape_def)
  with ts t(2) ev have sh: "task_shape h1 (with_event i 0 t)"
    using get_not_put [of h1 i] by (auto simp: task_shape_def holder_shape_append)
  show ?thesis
  proof (rule append_ledger [OF led1 fr t(1,3) sh])
    show "open_ok h1 pid s'"
      using ow by (auto simp: open_ok_def s' s1_def new_holder_simps)
    show "holder_ok h1 pid s'"
      using t ev by (auto simp: holder_ok_def s' map_of_update_dict refs_append_put)
  qed (simp_all add: s')
qed

text \<open>Taking a task out of the ledger and marking one of its events as an initial reference.\<close>

lemma remove_ledger:
  assumes led: "ledger h1 D pid Q ps s" and ctx: "pid_ctx h1 D pid Q ps"
    and s': "tasks s' = AList.delete name (tasks s)" "wk s' = wk s" "hk s' = hk s" "framed h1 (heap s')"
    and heap: "\<And>j. j \<noteq> e \<Longrightarrow> heap s' ! j = heap s ! j"
    and e: "e \<in> Q \<union> set ps" "(heap s' ! e) ''role'' = Some (VStr ''init'')"
    and sole: "\<And>name' t. map_of (tasks s) name' = Some t \<Longrightarrow> name' \<noteq> name \<Longrightarrow> e \<notin> set (t_events t)"
    and t: "map_of (tasks s) name = Some t" "set (t_events t) \<subseteq> {e}"
    and ok: "open_ok h1 pid s'" "holder_ok h1 pid s'"
  shows "ledger h1 D pid Q ps s'"
proof -
  have "task_ok h1 (heap s') D pid Q ps (wk s') (hk s') name' t'"
    if "map_of (tasks s') name' = Some t'" for name' t'
  proof -
    from that have n: "name' \<noteq> name" "map_of (tasks s) name' = Some t'"
      by (auto simp: s' map_of_delete_dict split: if_splits)
    show ?thesis unfolding s'
    proof (rule task_ok_mono [OF ledgerD(3) [OF led n(2)]])
      fix j assume "j \<in> set (t_events t')"
      with sole [OF n(2,1)] show "heap s' ! j = heap s ! j" by (intro heap) auto
    next
      fix j assume "(heap s ! j) ''role'' = Some (VStr ''init'')"
      with e(2) heap [of j] show "(heap s' ! j) ''role'' = Some (VStr ''init'')" by (cases "j = e") auto
    qed simp_all
  qed
  moreover have "covered h1 s' j" if j: "j \<in> Q \<union> set ps" for j
  proof (cases "j = e")
    case True
    with e(2) show ?thesis by (simp add: covered_def)
  next
    case False
    then have hj: "heap s' ! j = heap s ! j" by (rule heap)
    have "map_of (tasks s') name' = Some t'" if "map_of (tasks s) name' = Some t'" "j \<in> set (t_events t')" for name' t'
      using that t False by (auto simp: s' map_of_delete_dict)
    with ledgerD(4) [OF led j] show ?thesis unfolding covered_def hj by blast
  qed
  moreover have "heap s' ! j = h1 ! j" if "j \<notin> Q \<union> set ps" for j
    using heap [of j] ledgerD(5) [OF led that] that e(1) by (cases "j = e") auto
  ultimately show ?thesis
    unfolding ledger_def using s'(4) ledgerD(2) [OF led] ok by (simp add: s'(1) dict_wf_delete)
qed

lemma butlast_distinct: "distinct xs \<Longrightarrow> xs \<noteq> [] \<Longrightarrow> x \<in> set (butlast xs) \<Longrightarrow> x \<in> set xs \<and> x \<noteq> last xs"
  by (induction xs rule: rev_induct) auto

lemma own_walker_ledger:
  assumes led: "ledger h1 D pid Q ps s" and ctx: "pid_ctx h1 D pid Q ps"
    and walker: "open_walkers s \<noteq> []" "w = last (open_walkers s)" "map_of (tasks s) w = Some t" "t_events t = e0 # es"
      "s' = s\<lparr>own_done := True, open_walkers := butlast (open_walkers s),
         heap := setk (setk (heap s) e0 ''task'' (VStr ''U'')) e0 ''role'' (VStr ''init''),
         inits := inits s @ [e0], tasks := AList.delete w (tasks s)\<rparr>"
  shows "ledger h1 D pid Q ps s'"
proof -
  have "w \<in> set (open_walkers s)" using walker(1,2) by simp
  with ledgerD(6) [OF led] walker(3) obtain a where a: "t_role t = ''walker''" "t_pid t = pid" "t_events t = [a]"
    unfolding open_ok_def by force
  with walker have e0: "t_events t = [e0]" by simp
  have m: "(heap s ! e0) ''task'' = Some (VStr w)" "e0 \<in> Q \<union> set ps" "e0 < length (heap s)"
    using ledger_member [OF led ctx walker(3), of e0] e0 by auto
  show ?thesis
  proof (rule remove_ledger [OF led ctx, where e = e0 and name = w and t = t])
    show "framed h1 (heap s')" using ledgerD(1) [OF led] by (simp add: walker framed_setk_trans)
    show "(heap s' ! e0) ''role'' = Some (VStr ''init'')" using m(3) by (simp add: walker setk_same)
    show "e0 \<notin> set (t_events t')" if "map_of (tasks s) name' = Some t'" "name' \<noteq> w" for name' t'
      using ledger_member(2) [OF led ctx that(1), of e0] m(1) that(2) by auto
    show "open_ok h1 pid s'"
      using ledgerD(6) [OF led] walker butlast_distinct [of "open_walkers s"]
      by (fastforce simp: open_ok_def map_of_delete_dict distinct_butlast)
    show "holder_ok h1 pid s'"
      using ledgerD(7) [OF led] walker(3) a(1) by (fastforce simp: holder_ok_def walker(5) map_of_delete_dict)
  qed (use walker m e0 in \<open>auto simp: setk_other\<close>)
qed

lemma own_holder_ledger:
  assumes led: "ledger h1 D pid Q ps s" and ctx: "pid_ctx h1 D pid Q ps"
    and holder: "open_walkers s = []" "holder s = Some (hn, r)" "0 < r" "map_of (tasks s) hn = Some t"
      "t_init t = Some ie" "t_events t = []"
      "s' = s\<lparr>own_done := True, tasks := AList.delete hn (tasks s),
         heap := setk (setk (heap s) ie ''role'' (VStr ''init'')) ie ''task'' (VStr ''U''),
         inits := inits s @ [ie], holder := None\<rparr>"
  shows "ledger h1 D pid Q ps s'"
proof -
  have role: "(heap s ! ie) ''role'' = Some (VStr ''init'')"
    using ledgerD(3) [OF led holder(4)] holder(5) by (simp add: task_ok_def)
  show ?thesis
  proof (cases "ie \<in> Q \<union> set ps")
    case True
    then have ie: "ie < length (heap s)"
      using ctx ledgerD(1) [OF led] by (auto simp: pid_ctx_def framed_length)
    show ?thesis
    proof (rule remove_ledger [OF led ctx, where e = ie and name = hn and t = t])
      show "framed h1 (heap s')" using ledgerD(1) [OF led] by (simp add: holder framed_setk_trans)
      show "(heap s' ! ie) ''role'' = Some (VStr ''init'')" using ie by (simp add: holder setk_same)
      show "ie \<notin> set (t_events t')" if "map_of (tasks s) name' = Some t'" "name' \<noteq> hn" for name' t'
        using ledger_member(1) [OF led ctx that(1), of ie] role by auto
      show "open_ok h1 pid s'" using holder by (simp add: open_ok_def)
      show "holder_ok h1 pid s'" by (simp add: holder_ok_def holder)
    qed (use holder True in \<open>auto simp: setk_other\<close>)
  next
    case False
    then have "heap s ! ie = h1 ! ie" by (rule ledgerD(5) [OF led])
    with role ctx have "\<not> ie < length h1" by (auto simp: pid_ctx_def)
    then have same: "heap s' = heap s"
      using framed_length [OF ledgerD(1) [OF led]] by (simp add: holder setk_def list_update_beyond)
    have "task_ok h1 (heap s') D pid Q ps (wk s') (hk s') name' t'"
      if "map_of (tasks s') name' = Some t'" for name' t'
      using ledgerD(3) [OF led, of name' t'] that unfolding same
      by (auto simp: holder map_of_delete_dict split: if_splits)
    moreover have "covered h1 s' j" if "j \<in> Q \<union> set ps" for j
    proof -
      have "map_of (tasks s') name' = Some t'" if "map_of (tasks s) name' = Some t'" "j \<in> set (t_events t')" for name' t'
        using that holder(4,6) by (auto simp: holder(7) map_of_delete_dict)
      with ledgerD(4) [OF led that] show ?thesis unfolding covered_def same by blast
    qed
    moreover have "dict_wf (tasks s')" using ledgerD(2) [OF led] by (simp add: holder dict_wf_delete)
    ultimately show ?thesis
      unfolding ledger_def using ledgerD(1,5) [OF led] holder(1)
      by (simp add: same) (simp add: holder open_ok_def holder_ok_def)
  qed
qed

lemma take_own_ref_ledger:
  assumes led: "ledger h1 D pid Q ps s" and ctx: "pid_ctx h1 D pid Q ps" and st: "take_own_ref s = Inr s'"
  shows "ledger h1 D pid Q ps s'"
  using st
proof (cases rule: take_own_ref_cases)
  case walker
  then show ?thesis by (rule own_walker_ledger [OF led ctx])
next
  case holder
  then show ?thesis by (rule own_holder_ledger [OF led ctx])
next
  case (implicit ns)
  with led show ?thesis
    by (simp add: ledger_def covered_def open_ok_def holder_ok_def)
qed

lemma event_step_ledger:
  assumes led: "ledger h1 D pid Q ps s" and ctx: "pid_ctx h1 D pid Q ps" and fr: "fresh_index h1 D pid Q ps i"
    and st: "event_step ut_n pid s i = Inr s'"
  shows "ledger h1 D pid Q (ps @ [i]) s'"
proof -
  have own: "ledger h1 D pid Q ps t" if "t = s \<or> (take_own_ref s = Inr t \<and> \<not> own_done s)" for t
    using that led take_own_ref_ledger [OF led ctx] by blast
  from st show ?thesis
  proof (cases rule: event_step_cases)
    case (legit t)
    with fresh_heap [OF led fr] have "is_legit h1 i" by (simp add: is_legit_def)
    with own [OF legit(1)] fr legit(3) show ?thesis by (rule legit_step_ledger)
  next
    case (get t)
    with fresh_heap [OF led fr] have "is_get h1 i" by (simp add: is_get_def)
    then show ?thesis
      using get_new_ledger [OF own [OF get(1)] fr get(3)] get_more_ledger [OF own [OF get(1)] fr get(3)] by blast
  next
    case (put t)
    with fresh_heap [OF own [OF put(1)] fr] have "is_putb h1 i" by (simp add: is_putb_def)
    then show ?thesis
      using put_walker_ledger [OF own [OF put(1)] fr put(3)] put_holder_ledger [OF own [OF put(1)] fr put(3)]
      by (cases "open_walkers t") auto
  next
    case (unhandled t ev ns)
    note fh = fresh_heap [OF led fr] and ft = fresh_heap [OF own [OF unhandled(1)] fr]
    have u: "Trace_Ledger.unhandled (h1 ! i)"
      unfolding unhandled_def using unhandled(2-4) fh(2) ft(2) by (auto simp: is_put_def getv_def)
    show ?thesis
    proof (rule ledger_step [OF own [OF unhandled(1)] fr])
      show "covered h1 s' i" using u ft(2) by (simp add: covered_def unhandled(5))
    qed (use ledgerD [OF own [OF unhandled(1)]] in \<open>auto simp: unhandled(5) open_ok_def holder_ok_def\<close>)
  qed
qed

section \<open>The loop over the pids\<close>

definition ledger_done :: "heap \<Rightarrow> val set \<Rightarrow> nat set \<Rightarrow> cstate \<Rightarrow> bool" where
  "ledger_done h1 D Q s = (\<forall>pid. ledger h1 D pid Q [] (s\<lparr>wk := 0, hk := 0, open_walkers := [], holder := None\<rparr>))"

lemma ledger_close:
  assumes "ledger h1 D pid Q ps s"
  shows "ledger_done h1 (insert pid D) (Q \<union> set ps) s"
proof -
  have "task_ok h1 (heap s) (insert pid D) q (Q \<union> set ps) [] 0 0 name t" if "map_of (tasks s) name = Some t" for q name t
    using ledgerD(3) [OF assms that] unfolding task_ok_def owned_def by (auto 4 4)
  with assms show ?thesis
    unfolding ledger_done_def ledger_def by (auto simp: covered_def open_ok_def holder_ok_def)
qed

lemma ledger_doneD:
  assumes "ledger_done h1 D Q s"
  shows "framed h1 (heap s)" "dict_wf (tasks s)"
    "\<And>name t. map_of (tasks s) name = Some t \<Longrightarrow> task_ok h1 (heap s) D pid Q [] 0 0 name t"
    "\<And>i. i \<in> Q \<Longrightarrow> covered h1 s i" "\<And>i. i \<notin> Q \<Longrightarrow> heap s ! i = h1 ! i"
proof -
  have l: "ledger h1 D pid Q [] (s\<lparr>wk := 0, hk := 0, open_walkers := [], holder := None\<rparr>)"
    using assms by (simp add: ledger_done_def)
  show "framed h1 (heap s)" "dict_wf (tasks s)"
    "\<And>name t. map_of (tasks s) name = Some t \<Longrightarrow> task_ok h1 (heap s) D pid Q [] 0 0 name t"
    "\<And>i. i \<notin> Q \<Longrightarrow> heap s ! i = h1 ! i"
    using ledgerD [OF l] by simp_all
  show "\<And>i. i \<in> Q \<Longrightarrow> covered h1 s i"
    using ledgerD(4) [OF l] by (simp add: covered_def)
qed

lemma pid_ctx_fresh:
  assumes "pid_ctx h1 D pid Q pes" "sorted_wrt (<) pes" "Q \<inter> set pes = {}" "pes = ys @ x # zs"
  shows "fresh_index h1 D pid Q ys x" "pid_ctx h1 D pid Q ys"
  using assms by (auto simp: pid_ctx_def fresh_index_def sorted_wrt_append)

lemma pid_step_ledger:
  assumes dn: "ledger_done h1 D Q s" and ctx: "pid_ctx h1 D pid Q pes" and sp: "sorted_wrt (<) pes" "Q \<inter> set pes = {}"
    and st: "pid_step ut_n upid s (pid, pes) = Inr s'"
  shows "ledger_done h1 (insert pid D) (Q \<union> set pes) s'"
proof -
  let ?s0 = "s\<lparr>wk := 0, hk := 0, open_walkers := [], holder := None, own_done := (pid \<noteq> upid)\<rparr>"
  from st obtain s1 s2 d where s1: "foldE (event_step ut_n pid) ?s0 pes = Inr s1"
    and s2: "s2 = s1 \<and> own_done s1 \<or> take_own_ref s1 = Inr s2 \<and> \<not> own_done s1"
    and s': "s' = s2\<lparr>doomer := d\<rparr>"
    by (rule pid_step_stages)
  have "ledger h1 D pid Q [] (s\<lparr>wk := 0, hk := 0, open_walkers := [], holder := None\<rparr>)"
    using dn by (simp add: ledger_done_def)
  then have start: "ledger h1 D pid Q [] ?s0"
    by (simp add: ledger_def covered_def open_ok_def holder_ok_def)
  have l1: "ledger h1 D pid Q pes s1"
    using s1
  proof (rule foldE_invariant_prefix)
    fix ys x zs t t'
    assume p: "pes = ys @ x # zs" and l: "ledger h1 D pid Q ys t" and e: "event_step ut_n pid t x = Inr t'"
    show "ledger h1 D pid Q (ys @ [x]) t'"
      using l pid_ctx_fresh(2,1) [OF ctx sp p] e by (rule event_step_ledger)
  qed (rule start)
  then have "ledger h1 D pid Q pes s2" using s2 take_own_ref_ledger [OF l1 ctx] by blast
  then have "ledger_done h1 (insert pid D) (Q \<union> set pes) s2" by (rule ledger_close)
  then show ?thesis by (simp add: s' ledger_done_def ledger_def covered_def open_ok_def holder_ok_def)
qed

section \<open>The grouping by pid\<close>

lemma group_by_pid_groups:
  assumes "group_by_pid h is = Inr d"
  shows "dict_wf d \<and> (\<forall>p. (case map_of d p of None \<Rightarrow> [] | Some l \<Rightarrow> l) = filter (\<lambda>i. (h ! i) ''pid'' = Some p) is) \<and>
    (\<forall>i\<in>set is. \<exists>p. (h ! i) ''pid'' = Some p \<and> p \<in> dom (map_of d)) \<and>
    dom (map_of d) \<subseteq> {p. \<exists>i\<in>set is. (h ! i) ''pid'' = Some p}"
  using assms unfolding group_by_pid_def
proof (rule foldE_invariant_prefix)
  fix ys x zs d d'
  assume d: "dict_wf d \<and> (\<forall>p. (case map_of d p of None \<Rightarrow> [] | Some l \<Rightarrow> l) = filter (\<lambda>i. (h ! i) ''pid'' = Some p) ys) \<and>
    (\<forall>i\<in>set ys. \<exists>p. (h ! i) ''pid'' = Some p \<and> p \<in> dom (map_of d)) \<and>
    dom (map_of d) \<subseteq> {p. \<exists>i\<in>set ys. (h ! i) ''pid'' = Some p}"
    and "bindE (getv (h ! x) ''pid'') (\<lambda>p.
      Inr (AList.update p ((case map_of d p of None \<Rightarrow> [] | Some l \<Rightarrow> l) @ [x]) d)) = Inr d'"
  then obtain p where p: "(h ! x) ''pid'' = Some p"
    and d': "d' = AList.update p ((case map_of d p of None \<Rightarrow> [] | Some l \<Rightarrow> l) @ [x]) d"
    by auto
  from d have "dict_wf d'" by (simp add: d' dict_wf_update)
  moreover from d p have "(case map_of d' q of None \<Rightarrow> [] | Some l \<Rightarrow> l) = filter (\<lambda>i. (h ! i) ''pid'' = Some q) (ys @ [x])" for q
    by (simp add: d' map_of_update_dict)
  moreover have "\<exists>p. (h ! i) ''pid'' = Some p \<and> p \<in> dom (map_of d')" if "i \<in> set (ys @ [x])" for i
  proof (cases "i = x")
    case False
    with that have "i \<in> set ys" by simp
    with d obtain q where "(h ! i) ''pid'' = Some q" "q \<in> dom (map_of d)" by blast
    then show ?thesis by (auto simp: d' map_of_update_dict)
  qed (simp add: p d' map_of_update_dict)
  moreover from d p have "dom (map_of d') \<subseteq> {p. \<exists>i\<in>set (ys @ [x]). (h ! i) ''pid'' = Some p}"
    by (auto simp: d' map_of_update_dict)
  ultimately show "dict_wf d' \<and>
    (\<forall>p. (case map_of d' p of None \<Rightarrow> [] | Some l \<Rightarrow> l) = filter (\<lambda>i. (h ! i) ''pid'' = Some p) (ys @ [x])) \<and>
    (\<forall>i\<in>set (ys @ [x]). \<exists>p. (h ! i) ''pid'' = Some p \<and> p \<in> dom (map_of d')) \<and>
    dom (map_of d') \<subseteq> {p. \<exists>i\<in>set (ys @ [x]). (h ! i) ''pid'' = Some p}"
    by blast
qed simp

lemma group_by_pid_member:
  assumes "group_by_pid h is = Inr d"
  shows "dict_wf d" "(p, l) \<in> set d \<Longrightarrow> l = filter (\<lambda>i. (h ! i) ''pid'' = Some p) is"
    "(\<Union>l\<in>snd ` set d. set l) = set is"
    "(p, l) \<in> set d \<Longrightarrow> \<exists>i\<in>set is. (h ! i) ''pid'' = Some p"
proof -
  note g = group_by_pid_groups [OF assms]
  from g show wf: "dict_wf d" by blast
  show l: "l = filter (\<lambda>i. (h ! i) ''pid'' = Some p) is" if "(p, l) \<in> set d" for p l
  proof -
    have "map_of d p = Some l" using wf that by (rule map_of_is_SomeI)
    with conjunct1 [OF conjunct2 [OF g]] show ?thesis by (auto dest: spec [of _ p])
  qed
  show "\<exists>i\<in>set is. (h ! i) ''pid'' = Some p" if "(p, l) \<in> set d" for p l
  proof -
    have "p \<in> dom (map_of d)" using map_of_is_SomeI [OF wf that] by blast
    with g show ?thesis by blast
  qed
  show "(\<Union>l\<in>snd ` set d. set l) = set is"
  proof
    have "set m \<subseteq> set is" if "(q, m) \<in> set d" for q m
      using arg_cong [OF l [OF that], of set] by auto
    then show "(\<Union>l\<in>snd ` set d. set l) \<subseteq> set is" by fastforce
    show "set is \<subseteq> (\<Union>l\<in>snd ` set d. set l)"
    proof
      fix i assume "i \<in> set is"
      with g obtain p where p: "(h ! i) ''pid'' = Some p" "p \<in> dom (map_of d)" by blast
      then obtain q where "map_of d p = Some q" by blast
      then have "(p, q) \<in> set d" by (rule map_of_SomeD)
      with l [of p q] p(1) \<open>i \<in> set is\<close> show "i \<in> (\<Union>l\<in>snd ` set d. set l)" by force
    qed
  qed
qed

lemma pid_loop_ledger:
  assumes g: "group_by_pid h1 rest = Inr bypid" and so: "sorted_wrt (<) rest" "set rest \<subseteq> {..<length h1}"
    and pids: "\<And>i p. i < length h1 \<Longrightarrow> (h1 ! i) ''pid'' = Some p \<Longrightarrow> p \<in> range VInt"
    and roles: "\<And>i. i < length h1 \<Longrightarrow> (h1 ! i) ''role'' \<noteq> Some (VStr ''init'')"
    and f: "foldE (pid_step n upid) (start_state h1 ns d) bypid = Inr s"
    and I: "I (start_state h1 ns d)"
      "\<And>D pid Q pes s s'. ledger_done h1 D Q s \<Longrightarrow> I s \<Longrightarrow> pid_ctx h1 D pid Q pes \<Longrightarrow> sorted_wrt (<) pes \<Longrightarrow>
         Q \<inter> set pes = {} \<Longrightarrow> pid_step n upid s (pid, pes) = Inr s' \<Longrightarrow> I s'"
  shows "ledger_done h1 (fst ` set bypid) (set rest) s \<and> I s"
proof -
  note gm = group_by_pid_member [OF g]
  let ?Q = "\<lambda>ys. (\<Union>l\<in>snd ` set ys. set l)"
  have "ledger_done h1 (fst ` set bypid) (?Q bypid) s \<and> I s"
    using f
  proof (rule foldE_invariant_prefix [where P = "\<lambda>ys s. ledger_done h1 (fst ` set ys) (?Q ys) s \<and> I s"])
    show "ledger_done h1 (fst ` set []) (?Q []) (start_state h1 ns d) \<and> I (start_state h1 ns d)"
      using I(1) by (simp add: ledger_done_def ledger_def start_state_def open_ok_def holder_ok_def)
  next
    fix ys x zs s s'
    assume split: "bypid = ys @ x # zs" and dn: "ledger_done h1 (fst ` set ys) (?Q ys) s \<and> I s"
      and st: "pid_step n upid s x = Inr s'"
    obtain p l where x: "x = (p, l)" by (cases x)
    have lf: "l = filter (\<lambda>i. (h1 ! i) ''pid'' = Some p) rest" using gm(2) [of p l] by (simp add: split x)
    have pn: "p \<notin> fst ` set ys" using gm(1) by (auto simp: split x)
    have int: "q \<in> range VInt" if "(q, m) \<in> set bypid" for q m
      using gm(4) [OF that] so(2) pids by blast
    have dis: "?Q ys \<inter> set l = {}"
    proof -
      have "(h1 ! i) ''pid'' = Some q" if "(q, m) \<in> set ys" "i \<in> set m" for q m i
        using gm(2) [of q m] that by (auto simp: split)
      with pn show ?thesis by (force simp: lf)
    qed
    have Q: "?Q ys \<subseteq> {..<length h1}" using gm(3) so(2) by (auto simp: split)
    have ctx: "pid_ctx h1 (fst ` set ys) p (?Q ys) l"
    proof -
      have "fst ` set ys \<subseteq> range VInt" using int by (force simp: split)
      moreover have "p \<in> range VInt" by (rule int [of p l]) (simp add: split x)
      ultimately show ?thesis unfolding pid_ctx_def using pn Q roles so(2) by (auto simp: lf)
    qed
    have sl: "sorted_wrt (<) l" by (simp add: lf so(1) sorted_wrt_filter)
    have "ledger_done h1 (insert p (fst ` set ys)) (?Q ys \<union> set l) s'"
      using conjunct1 [OF dn] ctx sl dis st [unfolded x] by (rule pid_step_ledger)
    moreover have "I s'"
      using conjunct1 [OF dn] conjunct2 [OF dn] ctx sl dis st [unfolded x] by (rule I(2))
    ultimately show "ledger_done h1 (fst ` set (ys @ [x])) (?Q (ys @ [x])) s' \<and> I s'" by (simp add: x Un_commute)
  qed
  then show ?thesis by (simp only: gm(3))
qed

end
