(* ===== verification/Trace_Account.thy ===== *)
theory Trace_Account
  imports Trace_Ledger
begin

text \<open>
  What becomes of every event of a mount in \<^verbatim>\<open>convert()\<close>: the umounter's protocol events and the
  \<^verbatim>\<open>mnt_free\<close> are attributed at once, the rest by the ledger, the cleanup to the task that finished
  the mount, and pruning takes back only tasks that ended before the unmount with no reference
  left. The theorems on the emitted trace follow: nothing of the protocol after the unmount is
  lost, every event names a task of the configuration, and each task's events are a run of the
  model's task of that role.
\<close>

section \<open>The heap when the loop over the pids starts\<close>

lemma set_default_keys:
  assumes "i < length h"
  shows "(set_default h j ! i) ''role'' = (h ! i) ''role''"
    "i = j \<or> (h ! i) ''task'' = Some VNone \<Longrightarrow> (set_default h j ! i) ''task'' = Some VNone"
  using assms by (cases "i = j"; auto simp: set_default_def Let_def setk_def split: option.splits)+

lemma set_default_length [simp]: "length (set_default h j) = length h"
  by (auto simp: set_default_def Let_def split: option.splits)

lemma foldl_set_default:
  "i < length h \<Longrightarrow> (foldl set_default h is ! i) ''role'' = (h ! i) ''role'' \<and>
     (i \<in> set is \<or> (h ! i) ''task'' = Some VNone \<longrightarrow> (foldl set_default h is ! i) ''task'' = Some VNone)"
proof (induction "is" arbitrary: h)
  case (Cons j "is")
  then show ?case
    using set_default_keys [OF Cons.prems, of j] Cons.IH [of "set_default h j"] by auto
qed simp

lemma rank_phase_keys:
  assumes "rank_phase h = Inr (h0, ns)" "i < length h"
  shows "(h0 ! i) ''task'' = Some VNone" "(h0 ! i) ''role'' = (h ! i) ''role''"
proof -
  from assms(1) obtain lk where h0: "h0 = foldl set_default (rank_from 1 h lk) [0..<length h]"
    by (auto simp: rank_phase_def)
  show "(h0 ! i) ''task'' = Some VNone" "(h0 ! i) ''role'' = (h ! i) ''role''"
    using foldl_set_default [of i "rank_from 1 h lk" "[0..<length h]"] assms(2)
    by (simp_all add: h0 rank_from_key)
qed

text \<open>How \<open>u_phase\<close> attributes an event.\<close>

definition u_mark :: "event \<Rightarrow> event \<Rightarrow> bool" where
  "u_mark e e' \<longleftrightarrow>
     (e' = e \<and> e ''ev'' \<notin> Some ` VStr ` insert ''mnt_free'' u_events) \<or>
     (e' = e(''task'' \<mapsto> VStr ''U'') \<and> e ''ev'' \<in> Some ` VStr ` u_events) \<or>
     (e' = e(''task'' \<mapsto> VStr ''U'', ''role'' \<mapsto> VStr ''nsput'') \<and> e ''ev'' = Some (VStr ''mnt_slowpath'')) \<or>
     (e' = e(''task'' \<mapsto> VStr ''rcu'') \<and> e ''ev'' = Some (VStr ''mnt_free''))"

lemma u_step_mark:
  assumes "u_step upid (h, g, n, d) i = Inr (h', g', n', d')" "i < length h"
  shows "u_mark (h ! i) (h' ! i)" "j \<noteq> i \<Longrightarrow> h' ! j = h ! j" "length h' = length h"
proof -
  have u: "''mnt_slowpath'' \<notin> u_events" "''mnt_free'' \<notin> u_events" by (simp_all add: u_events_def)
  from assms(1) obtain ev where ev: "(h ! i) ''ev'' = Some ev"
    by (auto simp: u_step_def Let_def elim!: bindE_elim simp del: bindE_Inr_conv)
  have "h' = setk h i ''task'' (VStr ''U'') \<and> ev \<in> VStr ` u_events \<or>
    h' = setk (setk h i ''task'' (VStr ''U'')) i ''role'' (VStr ''nsput'') \<and> ev = VStr ''mnt_slowpath'' \<or>
    h' = setk h i ''task'' (VStr ''rcu'') \<and> ev = VStr ''mnt_free'' \<or>
    h' = h \<and> ev \<notin> VStr ` insert ''mnt_free'' u_events"
    using assms(1) ev u by (auto simp: u_step_def Let_def split: if_splits)
  with ev assms(2) show "u_mark (h ! i) (h' ! i)" "j \<noteq> i \<Longrightarrow> h' ! j = h ! j" "length h' = length h"
    by (auto simp: u_mark_def setk_def)
qed

lemma u_phase_mark:
  assumes "u_phase upid h = Inr (h', d)" "i < length h"
  shows "u_mark (h ! i) (h' ! i)"
proof -
  from assms obtain g n where f: "foldE (u_step upid) (h, False, False, None) [0..<length h] = Inr (h', g, n, d)"
    by (auto simp: u_phase_def)
  let ?P = "\<lambda>ys t. length (fst t) = length h \<and> (\<forall>i\<in>set ys. u_mark (h ! i) (fst t ! i)) \<and>
    (\<forall>i. i \<notin> set ys \<longrightarrow> fst t ! i = h ! i)"
  have "?P [0..<length h] (h', g, n, d)"
    using f
  proof (rule foldE_invariant_prefix [where P = ?P])
    fix ys x zs t t'
    assume xs: "[0..<length h] = ys @ x # zs" and P: "?P ys t" and st: "u_step upid t x = Inr t'"
    obtain a b c e a' b' c' e' where t: "t = (a, b, c, e)" "t' = (a', b', c', e')"
      by (cases t, cases t') auto
    have "distinct (ys @ x # zs)" "x \<in> set [0..<length h]" using xs by (metis distinct_upt, simp)
    then have x: "x \<notin> set ys" "x < length a" using P t by auto
    note m = u_step_mark [OF st [unfolded t] x(2)]
    show "?P (ys @ [x]) t'"
    proof (intro conjI ballI allI impI)
      fix i assume "i \<in> set (ys @ [x])"
      then show "u_mark (h ! i) (fst t' ! i)" using P m(1) m(2) [of i] x(1) by (cases "i = x") (auto simp: t)
    qed (use P m x(1) in \<open>auto simp: t\<close>)
  qed simp
  with assms(2) show ?thesis by simp
qed

section \<open>The cleanup and the pruning\<close>

definition finisher :: "cstate \<Rightarrow> string" where
  "finisher s = (case doomer s of None \<Rightarrow> ''U'' | Some d \<Rightarrow> if d = [] then ''U'' else d)"

definition is_cleanup :: "event \<Rightarrow> bool" where
  "is_cleanup e = (e ''ev'' = Some (VStr ''mnt_cleanup''))"

lemma cleanup_step_effect:
  assumes "cleanup_step s i = Inr s'"
  shows "tasks s' = tasks s" "doomer s' = doomer s"
    "heap s' = (if is_cleanup (heap s ! i) then setk (heap s) i ''task'' (VStr (finisher s)) else heap s)"
proof -
  from assms obtain ev where ev: "(heap s ! i) ''ev'' = Some ev"
    by (auto simp: cleanup_step_def ev_is_def elim!: bindE_elim simp del: bindE_Inr_conv)
  show "tasks s' = tasks s" "doomer s' = doomer s"
    "heap s' = (if is_cleanup (heap s ! i) then setk (heap s) i ''task'' (VStr (finisher s)) else heap s)"
    using assms ev by (cases "is_cleanup (heap s ! i)";
      force simp: cleanup_step_def finisher_def is_cleanup_def ev_is_def getv_def split: option.splits)+
qed

lemma cleanup_phase_effect:
  assumes "foldE cleanup_step s [0..<length (heap s)] = Inr s'"
  shows "tasks s' = tasks s \<and> (\<forall>i<length (heap s). heap s' ! i =
    (if is_cleanup (heap s ! i) then (heap s ! i)(''task'' \<mapsto> VStr (finisher s)) else heap s ! i))"
proof -
  let ?f = "\<lambda>i. if is_cleanup (heap s ! i) then (heap s ! i)(''task'' \<mapsto> VStr (finisher s)) else heap s ! i"
  let ?P = "\<lambda>ys t. tasks t = tasks s \<and> doomer t = doomer s \<and> length (heap t) = length (heap s) \<and>
    (\<forall>i<length (heap s). heap t ! i = (if i \<in> set ys then ?f i else heap s ! i))"
  have "?P [0..<length (heap s)] s'"
    using assms
  proof (rule foldE_invariant_prefix [where P = ?P])
    fix ys x zs t t'
    assume xs: "[0..<length (heap s)] = ys @ x # zs" and P: "?P ys t" and st: "cleanup_step t x = Inr t'"
    have "distinct (ys @ x # zs)" "x \<in> set [0..<length (heap s)]" using xs by (metis distinct_upt, simp)
    then have x: "x \<notin> set ys" "x < length (heap s)" by auto
    with P have hx: "heap t ! x = heap s ! x" and fin: "finisher t = finisher s" by (simp_all add: finisher_def)
    note e = cleanup_step_effect [OF st, unfolded hx fin]
    show "?P (ys @ [x]) t'"
    proof (intro conjI allI impI)
      fix i assume "i < length (heap s)"
      then show "heap t' ! i = (if i \<in> set (ys @ [x]) then ?f i else heap s ! i)"
        using P x hx by (cases "i = x") (auto simp: e setk_def)
    qed (use P e in auto)
  qed simp
  then show ?thesis by simp
qed

text \<open>A task is pruned when it ended before the unmount and its references balance.\<close>

definition prunable :: "int \<Rightarrow> heap \<Rightarrow> task \<Rightarrow> bool" where
  "prunable n h t \<longleftrightarrow> t_events t \<noteq> [] \<and> (\<exists>m<n. (h ! last (t_events t)) ''n'' = Some (VInt m)) \<and>
     anyE (ev_is h ''mnt_umount_tree'') (t_events t) = Inr False \<and> net_refs h t = Inr 0"

definition pruned_events :: "int \<Rightarrow> heap \<Rightarrow> (string, task) dict \<Rightarrow> nat set" where
  "pruned_events n h ts = {i. \<exists>name t. (name, t) \<in> set ts \<and> prunable n h t \<and> i \<in> set (t_events t)}"

lemma anyE_cong:
  "(\<And>x. x \<in> set xs \<Longrightarrow> p x = q x) \<Longrightarrow> anyE p xs = anyE q xs"
  by (induction xs) (simp_all cong: if_cong)

lemma countE_cong: "(\<And>x. x \<in> set xs \<Longrightarrow> p x = q x) \<Longrightarrow> countE p xs = countE q xs"
  using filterE_cong [of xs xs p q] by (simp add: countE_def)

lemma net_refs_framed:
  assumes "framed h h'" "set (t_events t) \<subseteq> {..<length h}"
  shows "net_refs h' t = net_refs h t"
proof -
  have "countE (acquires h') (t_events t) = countE (acquires h) (t_events t)"
    "countE (\<lambda>i. is_put (h' ! i)) (t_events t) = countE (\<lambda>i. is_put (h ! i)) (t_events t)"
    "countE (ev_is h' ''mnt_get'') (t_events t) = countE (ev_is h ''mnt_get'') (t_events t)"
  proof (atomize (full), intro conjI countE_cong)
    fix i assume "i \<in> set (t_events t)"
    with assms(2) have i: "i < length h" by blast
    have "getv (h' ! i) ''result'' = getv (h ! i) ''result''"
      using framed_base [OF assms(1) i] by (rule getv_base) simp
    then show "acquires h' i = acquires h i" by (simp add: acquires_def ev_is_framed [OF assms(1) i] cong: if_cong)
    show "ev_is h' ''mnt_get'' i = ev_is h ''mnt_get'' i" using assms(1) i by (rule ev_is_framed)
    show "is_put (h' ! i) = is_put (h ! i)" using framed_base [OF assms(1) i] by (rule is_put_base)
  qed
  then show ?thesis by (simp add: net_refs_def)
qed

lemma foldl_setk_nth:
  "set es \<subseteq> {..<length h} \<Longrightarrow>
   foldl (\<lambda>h i. setk h i k v) h es ! j = (if j \<in> set es then (h ! j)(k \<mapsto> v) else h ! j)"
  by (induction es arbitrary: h) (auto simp: setk_nth)

lemma foldl_setk_length [simp]: "length (foldl (\<lambda>h i. setk h i k v) h es) = length h"
  by (induction es arbitrary: h) auto

lemma prune_step_effect:
  assumes st: "prune_step n (h, ts, pr) (name, t) = Inr (h', ts', pr')"
    and fr: "framed h0 h" "set (t_events t) \<subseteq> {..<length h0}"
  shows "(h', ts', pr') = (if prunable n h0 t
    then (foldl (\<lambda>h i. setk h i ''task'' VNone) h (t_events t), AList.delete name ts, pr @ [name]) else (h, ts, pr))"
proof (cases "t_events t = []")
  case False
  then have "last (t_events t) \<in> set (t_events t)" by simp
  then have l: "last (t_events t) < length h0" using fr(2) by blast
  have n: "(h ! last (t_events t)) ''n'' = (h0 ! last (t_events t)) ''n''" using fr(1) l by (simp add: framed_key)
  have a: "anyE (ev_is h ''mnt_umount_tree'') (t_events t) = anyE (ev_is h0 ''mnt_umount_tree'') (t_events t)"
    using fr by (intro anyE_cong) (auto simp: ev_is_framed)
  show ?thesis
    using st False
    by (auto simp: prune_step_def prunable_def Let_def n a net_refs_framed [OF fr] not_le split: if_splits)
qed (use st in \<open>simp add: prune_step_def prunable_def\<close>)

lemma prune_phase_effect:
  assumes f: "foldE (prune_step n) (h, ts, []) ts = Inr (h', ts', pr)" and wf: "dict_wf ts"
    and ev: "\<And>name t. (name, t) \<in> set ts \<Longrightarrow> set (t_events t) \<subseteq> {..<length h}"
  shows "pr = map fst (filter (\<lambda>(name, t). prunable n h t) ts) \<and>
    map_of ts' = (\<lambda>k. if k \<in> set pr then None else map_of ts k) \<and> dict_wf ts' \<and>
    (\<forall>i. h' ! i = (if i \<in> pruned_events n h ts then (h ! i)(''task'' \<mapsto> VNone) else h ! i))"
proof -
  let ?P = "\<lambda>ys (h', ts', pr). framed h h' \<and> pr = map fst (filter (\<lambda>(name, t). prunable n h t) ys) \<and>
    map_of ts' = (\<lambda>k. if k \<in> set pr then None else map_of ts k) \<and> dict_wf ts' \<and>
    (\<forall>i. h' ! i = (if i \<in> pruned_events n h ys then (h ! i)(''task'' \<mapsto> VNone) else h ! i))"
  have "?P ts (h', ts', pr)"
    using f
  proof (rule foldE_invariant_prefix [where P = ?P])
    show "?P [] (h, ts, [])" using wf by (simp add: pruned_events_def)
  next
    fix ys x zs u u'
    assume split: "ts = ys @ x # zs" and P: "?P ys u" and st: "prune_step n u x = Inr u'"
    obtain name t where x: "x = (name, t)" by (cases x)
    obtain h1 ts1 p1 h2 ts2 p2 where u: "u = (h1, ts1, p1)" "u' = (h2, ts2, p2)" by (cases u, cases u') auto
    have t: "set (t_events t) \<subseteq> {..<length h}" by (rule ev [of name]) (simp add: split x)
    have fr: "framed h h1" using P by (simp add: u)
    have l: "set (t_events t) \<subseteq> {..<length h1}" using t framed_length [OF fr] by simp
    have ev': "pruned_events n h (ys @ [x]) =
      (if prunable n h t then pruned_events n h ys \<union> set (t_events t) else pruned_events n h ys)"
      by (auto simp: pruned_events_def x)
    note e = prune_step_effect [OF st [unfolded u x] fr t]
    show "?P (ys @ [x]) u'"
    proof (cases "prunable n h t")
      case True
      have "framed h h2" using fr prune_step_framed [OF st [unfolded u x]] framed_trans by blast
      moreover have "h2 ! i = (if i \<in> pruned_events n h (ys @ [x]) then (h ! i)(''task'' \<mapsto> VNone) else h ! i)" for i
        using P e True unfolding ev' by (auto simp: u foldl_setk_nth [OF l])
      ultimately show ?thesis
        using P e True by (auto simp: u x map_of_delete_dict dict_wf_delete fun_eq_iff)
    next
      case False
      with P e show ?thesis by (simp add: u x ev' [unfolded x])
    qed
  qed
  then show ?thesis by simp
qed

section \<open>Initial references come before the unmount\<close>

lemma setk_role: "k \<noteq> ''role'' \<Longrightarrow> (setk h i k v ! j) ''role'' = (h ! j) ''role''"
  by (cases "i < length h"; cases "j = i") (auto simp: setk_def list_update_beyond)

lemma new_holder_own [simp]: "own_done (new_holder pid s ie) = own_done s"
  by (simp add: new_holder_def Let_def)

lemma legit_step_role:
  "legit_step pid s i = Inr s' \<Longrightarrow> own_done s' = own_done s \<and> (heap s' ! j) ''role'' = (heap s ! j) ''role''"
  by (auto simp: legit_step_def Let_def setk_role)

lemma get_step_role:
  "get_step pid s i = Inr s' \<Longrightarrow>
   own_done s' = own_done s \<and> (j \<noteq> i \<longrightarrow> (heap s' ! j) ''role'' = (heap s ! j) ''role'')"
  by (auto simp: get_step_def new_holder_def Let_def setk_role setk_other split: if_splits)

lemma put_step_role:
  "put_step pid s i = Inr s' \<Longrightarrow> own_done s' = own_done s \<and> (heap s' ! j) ''role'' = (heap s ! j) ''role''"
  by (cases "open_walkers s"; cases "holds s")
    (auto simp: put_step_def Let_def setk_role elim!: bindE_elim simp del: bindE_Inr_conv)

lemma take_own_ref_own: "take_own_ref s = Inr s' \<Longrightarrow> own_done s'"
  by (cases rule: take_own_ref_cases) auto

lemma event_step_own:
  assumes "event_step ut_n pid s i = Inr s'" "\<not> own_done s'"
  shows "\<not> own_done s \<and> (\<exists>m\<le>ut_n. (heap s ! i) ''n'' = Some (VInt m))"
proof -
  from assms(1) obtain ev t where ev: "(heap s ! i) ''ev'' = Some ev"
    and t: "(if own_done s then Inr s else bindE (geti (heap s ! i) ''n'')
        (\<lambda>n. if ut_n < n then take_own_ref s else Inr s)) = Inr t"
    and s': "(if ev = VStr ''mnt_legitimize'' then legit_step pid t i
       else if ev = VStr ''mnt_get'' then get_step pid t i
       else bindE (is_put (heap t ! i)) (\<lambda>put.
         if put then put_step pid t i
         else bindE (getv (heap t ! i) ''n'') (\<lambda>n.
           Inr (t\<lparr>noted := noted t @ [''unhandled event '' @ fmt_val ev @ '' at line '' @ fmt_val n]\<rparr>)))) = Inr s'"
    unfolding event_step_def by (auto elim!: bindE_elim simp del: bindE_Inr_conv)
  have "own_done s' = own_done t"
    using s' by (auto dest: legit_step_role get_step_role put_step_role split: if_splits elim!: bindE_elim simp del: bindE_Inr_conv)
  with assms(2) t show ?thesis by (auto simp: not_less dest: take_own_ref_own split: if_splits)
qed

definition n_le :: "int \<Rightarrow> heap \<Rightarrow> nat \<Rightarrow> bool" where
  "n_le n h i = (\<exists>m\<le>n. (h ! i) ''n'' = Some (VInt m))"

definition inits_early :: "int \<Rightarrow> heap \<Rightarrow> cstate \<Rightarrow> bool" where
  "inits_early n h1 s = (\<forall>j<length h1. (heap s ! j) ''role'' = Some (VStr ''init'') \<longrightarrow> is_get h1 j \<or> n_le n h1 j)"

definition own_early :: "int \<Rightarrow> heap \<Rightarrow> nat list \<Rightarrow> cstate \<Rightarrow> bool" where
  "own_early n h1 ps s = (\<not> own_done s \<longrightarrow> (\<forall>j\<in>set ps. n_le n h1 j))"

lemma take_own_ref_early:
  assumes led: "ledger h1 D pid Q ps s" and ctx: "pid_ctx h1 D pid Q ps" and st: "take_own_ref s = Inr s'"
    and e: "inits_early n h1 s" "own_early n h1 ps s" "\<not> own_done s"
  shows "inits_early n h1 s'"
  using st
proof (cases rule: take_own_ref_cases)
  case (walker w t e0 es)
  then have "w \<in> set (open_walkers s)" by simp
  with ledgerD(6) [OF led] walker(3) have p: "t_pid t = pid" unfolding open_ok_def by force
  with ledgerD(3) [OF led walker(3)] ctx have "set (t_events t) \<subseteq> set ps"
    by (auto simp: task_ok_def owned_def pid_ctx_def)
  then have "n_le n h1 e0" using e(2,3) walker(4) by (auto simp: own_early_def)
  then show ?thesis using e(1) unfolding inits_early_def walker(5)
    by (simp add: setk_def) (metis nth_list_update_neq)
next
  case (holder hn r t ie)
  have "(heap s ! ie) ''role'' = Some (VStr ''init'')"
    using ledgerD(3) [OF led holder(4)] holder(5) by (simp add: task_ok_def)
  then have "(heap s' ! j) ''role'' = Some (VStr ''init'') \<longleftrightarrow> (heap s ! j) ''role'' = Some (VStr ''init'')" for j
    by (cases "j = ie"; cases "ie < length (heap s)") (auto simp: holder setk_def list_update_beyond)
  with e(1) show ?thesis by (simp add: inits_early_def)
next
  case (implicit ns)
  with e(1) show ?thesis by (simp add: inits_early_def)
qed

lemma event_step_early:
  assumes led: "ledger h1 D pid Q ps s" and ctx: "pid_ctx h1 D pid Q ps" and fr: "fresh_index h1 D pid Q ps i"
    and st: "event_step n pid s i = Inr s'" and e: "inits_early n h1 s" "own_early n h1 ps s"
  shows "inits_early n h1 s' \<and> own_early n h1 (ps @ [i]) s'"
proof
  have own: "inits_early n h1 t" if "t = s \<or> (take_own_ref s = Inr t \<and> \<not> own_done s)" for t
    using that e take_own_ref_early [OF led ctx _ e] by blast
  from st show "inits_early n h1 s'"
  proof (cases rule: event_step_cases)
    case (legit t)
    with own [OF legit(1)] legit_step_role [OF legit(3)] show ?thesis by (simp add: inits_early_def)
  next
    case (get t)
    with fresh_heap [OF led fr] have "is_get h1 i" by (simp add: is_get_def)
    with own [OF get(1)] get_step_role [OF get(3)] show ?thesis unfolding inits_early_def by metis
  next
    case (put t)
    with own [OF put(1)] put_step_role [OF put(3)] show ?thesis by (simp add: inits_early_def)
  next
    case (unhandled t ev ns)
    with own [OF unhandled(1)] show ?thesis by (simp add: inits_early_def)
  qed
  show "own_early n h1 (ps @ [i]) s'"
    using event_step_own [OF st] e(2) fresh_heap(2) [OF led fr] by (auto simp: own_early_def n_le_def)
qed

lemma pid_step_early:
  assumes dn: "ledger_done h1 D Q s" and ctx: "pid_ctx h1 D pid Q pes" and sp: "sorted_wrt (<) pes" "Q \<inter> set pes = {}"
    and st: "pid_step n upid s (pid, pes) = Inr s'" and e: "inits_early n h1 s"
  shows "inits_early n h1 s'"
proof -
  let ?s0 = "s\<lparr>wk := 0, hk := 0, open_walkers := [], holder := None, own_done := (pid \<noteq> upid)\<rparr>"
  from st obtain s1 s2 d where s1: "foldE (event_step n pid) ?s0 pes = Inr s1"
    and s2: "s2 = s1 \<and> own_done s1 \<or> take_own_ref s1 = Inr s2 \<and> \<not> own_done s1" and s': "s' = s2\<lparr>doomer := d\<rparr>"
    by (rule pid_step_stages)
  have "ledger h1 D pid Q [] (s\<lparr>wk := 0, hk := 0, open_walkers := [], holder := None\<rparr>)"
    using dn by (simp add: ledger_done_def)
  then have start: "ledger h1 D pid Q [] ?s0"
    by (simp add: ledger_def covered_def open_ok_def holder_ok_def)
  let ?P = "\<lambda>ys t. ledger h1 D pid Q ys t \<and> inits_early n h1 t \<and> own_early n h1 ys t"
  have "?P pes s1"
    using s1
  proof (rule foldE_invariant_prefix [where P = ?P])
    show "?P [] ?s0" using start e by (simp add: inits_early_def own_early_def)
  next
    fix ys x zs t t'
    assume p: "pes = ys @ x # zs" and l: "?P ys t" and ev: "event_step n pid t x = Inr t'"
    note fr = pid_ctx_fresh(2,1) [OF ctx sp p]
    show "?P (ys @ [x]) t'"
      using event_step_ledger [OF conjunct1 [OF l] fr ev] event_step_early [OF conjunct1 [OF l] fr ev] l by blast
  qed
  with s2 take_own_ref_early [of h1 D pid Q pes s1 s2 n] ctx have "inits_early n h1 s2" by blast
  then show ?thesis by (simp add: s' inits_early_def)
qed

section \<open>The fate of every event\<close>

lemma rest_events_set:
  assumes "rest_events h = Inr rest"
  shows "sorted_wrt (<) rest" "set rest \<subseteq> {..<length h}"
    "i \<in> set rest \<longleftrightarrow> i < length h \<and> (h ! i) ''task'' = Some VNone \<and>
       (\<exists>ev. (h ! i) ''ev'' = Some ev \<and> ev \<noteq> VStr ''mnt_cleanup'')"
proof -
  show "sorted_wrt (<) rest" "set rest \<subseteq> {..<length h}"
    using filterE_indices [OF assms [unfolded rest_events_def]] by auto
  show "i \<in> set rest \<longleftrightarrow> i < length h \<and> (h ! i) ''task'' = Some VNone \<and>
       (\<exists>ev. (h ! i) ''ev'' = Some ev \<and> ev \<noteq> VStr ''mnt_cleanup'')"
    using filterE_conv [OF assms [unfolded rest_events_def]] by (auto split: if_splits)
qed

lemma event_wf_int: "event_wf e \<Longrightarrow> e k = Some v \<Longrightarrow> k \<notin> {''ev'', ''comm''} \<Longrightarrow> v \<in> range VInt"
  unfolding event_wf_def by blast

definition evs_wf :: "event list \<Rightarrow> bool" where
  "evs_wf evs = (\<forall>e\<in>set evs. event_wf e)"

lemma staged_start:
  assumes z: "staged evs notes0 c out z" and wf: "evs_wf evs" and i: "i < length evs"
  shows "(z_h1 z ! i) ''role'' \<noteq> Some (VStr ''init'')"
    "(z_h1 z ! i) ''task'' \<in> {Some VNone, Some (VStr ''U''), Some (VStr ''rcu'')}"
    "(z_h1 z ! i) ''pid'' = Some p \<Longrightarrow> p \<in> range VInt"
    "\<exists>ev. (z_h1 z ! i) ''ev'' = Some ev"
proof -
  note st = stagedD [OF z]
  have ew: "event_wf (evs ! i)" using wf i by (simp add: evs_wf_def)
  have f0: "framed evs (z_h0 z)" by (rule rank_phase_framed [OF st(3)])
  have m: "u_mark (z_h0 z ! i) (z_h1 z ! i)"
    using u_phase_mark [OF st(4)] i framed_length [OF f0] by simp
  note k0 = rank_phase_keys [OF st(3) i]
  have "(evs ! i) ''role'' \<noteq> Some (VStr ''init'')" using event_wf_int [OF ew, of "''role''"] by auto
  with m k0 show "(z_h1 z ! i) ''role'' \<noteq> Some (VStr ''init'')" by (auto simp: u_mark_def)
  show "(z_h1 z ! i) ''task'' \<in> {Some VNone, Some (VStr ''U''), Some (VStr ''rcu'')}"
    using m k0 by (auto simp: u_mark_def)
  have key: "(z_h1 z ! i) k = (evs ! i) k" if "k \<notin> book_keys" for k
    using framed_key [OF staged_framed(1) [OF z] i that] .
  show "(z_h1 z ! i) ''pid'' = Some p \<Longrightarrow> p \<in> range VInt"
    using event_wf_int [OF ew, of "''pid''"] key [of "''pid''"] by simp
  show "\<exists>ev. (z_h1 z ! i) ''ev'' = Some ev"
    using ew key [of "''ev''"] by (auto simp: event_wf_def)
qed

lemma staged_ledger:
  assumes z: "staged evs notes0 c out z" and wf: "evs_wf evs"
  shows "ledger_done (z_h1 z) (fst ` set (z_bypid z)) (set (z_rest z)) (z_s1 z)"
    "inits_early (z_n z) (z_h1 z) (z_s1 z)"
proof -
  note st = stagedD [OF z]
  have len: "length (z_h1 z) = length evs" by (rule framed_length [OF staged_framed(1) [OF z]])
  have "ledger_done (z_h1 z) (fst ` set (z_bypid z)) (set (z_rest z)) (z_s1 z) \<and> inits_early (z_n z) (z_h1 z) (z_s1 z)"
  proof (rule pid_loop_ledger [OF st(6) rest_events_set(1,2) [OF st(5)] _ _ st(8)])
    fix i p assume "i < length (z_h1 z)" "(z_h1 z ! i) ''pid'' = Some p"
    then show "p \<in> range VInt" using staged_start(3) [OF z wf, of i p] len by simp
  next
    fix i assume i: "i < length (z_h1 z)"
    then show "(z_h1 z ! i) ''role'' \<noteq> Some (VStr ''init'')" using staged_start(1) [OF z wf, of i] len by simp
  next
    show "inits_early (z_n z) (z_h1 z) (start_state (z_h1 z) (notes0 @ z_ns z) (z_d z))"
      using staged_start(1) [OF z wf] len by (simp add: inits_early_def start_state_def)
  next
    fix D pid Q pes s s'
    assume "ledger_done (z_h1 z) D Q s" "inits_early (z_n z) (z_h1 z) s" "pid_ctx (z_h1 z) D pid Q pes"
      "sorted_wrt (<) pes" "Q \<inter> set pes = {}" "pid_step (z_n z) (z_upid z) s (pid, pes) = Inr s'"
    note a = this
    show "inits_early (z_n z) (z_h1 z) s'" by (rule pid_step_early [OF a(1,3-6,2)])
  qed
  then show "ledger_done (z_h1 z) (fst ` set (z_bypid z)) (set (z_rest z)) (z_s1 z)"
    "inits_early (z_n z) (z_h1 z) (z_s1 z)" by auto
qed

text \<open>The tables after the pruning, in terms of the ledger's.\<close>

lemma staged_pruned:
  assumes z: "staged evs notes0 c out z" and wf: "evs_wf evs"
  shows "z_pruned z = map fst (filter (\<lambda>(name, t). prunable (z_n z) (heap (z_s2 z)) t) (tasks (z_s1 z)))"
    "map_of (z_ts z) = (\<lambda>k. if k \<in> set (z_pruned z) then None else map_of (tasks (z_s1 z)) k)"
    "dict_wf (z_ts z)"
    "z_h3 z ! i = (if i \<in> pruned_events (z_n z) (heap (z_s2 z)) (tasks (z_s1 z))
       then (heap (z_s2 z) ! i)(''task'' \<mapsto> VNone) else heap (z_s2 z) ! i)"
    "i < length evs \<Longrightarrow> heap (z_s2 z) ! i = (if is_cleanup (z_h1 z ! i)
       then (heap (z_s1 z) ! i)(''task'' \<mapsto> VStr (finisher (z_s1 z))) else heap (z_s1 z) ! i)"
proof -
  note st = stagedD [OF z] and fr = staged_framed [OF z] and led = staged_ledger(1) [OF z wf]
  have cl: "tasks (z_s2 z) = tasks (z_s1 z)" "\<And>i. i < length (heap (z_s1 z)) \<Longrightarrow> heap (z_s2 z) ! i =
    (if is_cleanup (heap (z_s1 z) ! i) then (heap (z_s1 z) ! i)(''task'' \<mapsto> VStr (finisher (z_s1 z))) else heap (z_s1 z) ! i)"
    using cleanup_phase_effect [OF st(9)] by auto
  have ev: "set (t_events t) \<subseteq> {..<length (heap (z_s2 z))}" if "(name, t) \<in> set (tasks (z_s1 z))" for name t
  proof -
    have "map_of (tasks (z_s1 z)) name = Some t" using ledger_doneD(2) [OF led] that by simp
    then have "set (t_events t) \<subseteq> set (z_rest z)"
      using task_ok_events [OF ledger_doneD(3) [OF led]] by fastforce
    then show ?thesis
      using rest_events_set(2) [OF st(5)] framed_length [OF fr(1)] framed_length [OF fr(3)] by auto
  qed
  have pr: "z_pruned z = map fst (filter (\<lambda>(name, t). prunable (z_n z) (heap (z_s2 z)) t) (tasks (z_s1 z))) \<and>
    map_of (z_ts z) = (\<lambda>k. if k \<in> set (z_pruned z) then None else map_of (tasks (z_s1 z)) k) \<and> dict_wf (z_ts z) \<and>
    (\<forall>i. z_h3 z ! i = (if i \<in> pruned_events (z_n z) (heap (z_s2 z)) (tasks (z_s1 z))
       then (heap (z_s2 z) ! i)(''task'' \<mapsto> VNone) else heap (z_s2 z) ! i))"
    by (rule prune_phase_effect [OF st(10) [unfolded cl(1)] ledger_doneD(2) [OF led]]) (rule ev)
  from pr show "z_pruned z = map fst (filter (\<lambda>(name, t). prunable (z_n z) (heap (z_s2 z)) t) (tasks (z_s1 z)))" ..
  from pr show "map_of (z_ts z) = (\<lambda>k. if k \<in> set (z_pruned z) then None else map_of (tasks (z_s1 z)) k)" "dict_wf (z_ts z)"
    by auto
  show "z_h3 z ! i = (if i \<in> pruned_events (z_n z) (heap (z_s2 z)) (tasks (z_s1 z))
       then (heap (z_s2 z) ! i)(''task'' \<mapsto> VNone) else heap (z_s2 z) ! i)"
    using pr by blast
  have "is_cleanup (heap (z_s1 z) ! i) = is_cleanup (z_h1 z ! i)" if "i < length evs"
    using that fr(1,2) by (simp add: is_cleanup_def framed_key)
  then show "i < length evs \<Longrightarrow> heap (z_s2 z) ! i = (if is_cleanup (z_h1 z ! i)
       then (heap (z_s1 z) ! i)(''task'' \<mapsto> VStr (finisher (z_s1 z))) else heap (z_s1 z) ! i)"
    using cl(2) [of i] framed_length [OF fr(2)] by simp
qed

end
