(* ===== verification/Py_Json.thy ===== *)
theory Py_Json
  imports Py_Str
begin

text \<open>
  The output side of the standard library that the scripts use: \<^verbatim>\<open>json.dumps\<close> with its default
  separators, \<^verbatim>\<open>json.dump\<close> with \<^verbatim>\<open>indent=1\<close>, and \<^verbatim>\<open>repr()\<close> of strings and of lists of strings.

  The lemmas: a rendered document is one line of printable ASCII, whatever the strings in it hold,
  so a file of one document per line has as many lines as documents.
\<close>

datatype json =
    JInt int
  | JStr string
  | JBool bool
  | JNull
  | JList "json list"
  | JObj "(string \<times> json) list"

definition hex_digit :: "nat \<Rightarrow> char" where
  "hex_digit d = (if d < 10 then digit_char d else char_of (87 + d))"

definition esc_char :: "char \<Rightarrow> string" where
  "esc_char c =
     (if c = cdq then bs @ dq
      else if c = cbs then bs @ bs
      else if c = cnl then bs @ ''n''
      else if c = CHR 0x0D then bs @ ''r''
      else if c = CHR 0x09 then bs @ ''t''
      else if c = CHR 0x0C then bs @ ''f''
      else if c = CHR 0x08 then bs @ ''b''
      else if 32 \<le> code c \<and> code c \<le> 126 then [c]
      else bs @ ''u00'' @ [hex_digit (code c div 16), hex_digit (code c mod 16)])"

definition json_str :: "string \<Rightarrow> string" where
  "json_str s = dq @ concat (map esc_char s) @ dq"

fun dumps :: "json \<Rightarrow> string" where
  "dumps (JInt i) = show_int i"
| "dumps (JStr s) = json_str s"
| "dumps (JBool b) = (if b then ''true'' else ''false'')"
| "dumps JNull = ''null''"
| "dumps (JList js) = ''['' @ join '', '' (map dumps js) @ '']''"
| "dumps (JObj kvs) = ''{'' @ join '', '' (map (\<lambda>(k, v). json_str k @ '': '' @ dumps v) kvs) @ ''}''"

text \<open>\<^verbatim>\<open>indent=1\<close>: one item per line, indented by one blank per level; empty containers stay closed.\<close>

definition newline_indent :: "nat \<Rightarrow> string" where
  "newline_indent d = nl @ replicate d CHR '' ''"

fun dump_indent :: "nat \<Rightarrow> json \<Rightarrow> string" where
  "dump_indent d (JInt i) = show_int i"
| "dump_indent d (JStr s) = json_str s"
| "dump_indent d (JBool b) = (if b then ''true'' else ''false'')"
| "dump_indent d JNull = ''null''"
| "dump_indent d (JList js) = (if js = [] then ''[]''
     else ''['' @ newline_indent (Suc d) @ join ('','' @ newline_indent (Suc d)) (map (dump_indent (Suc d)) js) @
          newline_indent d @ '']'')"
| "dump_indent d (JObj kvs) = (if kvs = [] then ''{}''
     else ''{'' @ newline_indent (Suc d) @
          join ('','' @ newline_indent (Suc d)) (map (\<lambda>(k, v). json_str k @ '': '' @ dump_indent (Suc d) v) kvs) @
          newline_indent d @ ''}'')"

text \<open>\<^verbatim>\<open>repr()\<close>: single quotes, unless the text has a single quote and no double quote.\<close>

definition repr_char :: "char \<Rightarrow> char \<Rightarrow> string" where
  "repr_char q c =
     (if c = q \<or> c = cbs then bs @ [c]
      else if c = cnl then bs @ ''n''
      else if c = CHR 0x0D then bs @ ''r''
      else if c = CHR 0x09 then bs @ ''t''
      else if code c < 32 \<or> (127 \<le> code c \<and> code c \<le> 160) \<or> code c = 173
      then bs @ ''x'' @ [hex_digit (code c div 16), hex_digit (code c mod 16)]
      else [c])"

definition repr_str :: "string \<Rightarrow> string" where
  "repr_str s = (let q = (if CHR 0x27 \<in> set s \<and> cdq \<notin> set s then cdq else CHR 0x27)
                 in q # concat (map (repr_char q) s) @ [q])"

definition repr_strs :: "string list \<Rightarrow> string" where
  "repr_strs ss = ''['' @ join '', '' (map repr_str ss) @ '']''"

section \<open>Rendered documents are one printable line\<close>

definition printable :: "char \<Rightarrow> bool" where
  "printable c = (32 \<le> code c \<and> code c \<le> 126)"

lemma printable_not_nl: "printable c \<Longrightarrow> c \<noteq> cnl"
  by (auto simp: printable_def code_def)

lemma printable_digit: "is_digit c \<Longrightarrow> printable c"
  by (simp add: printable_def is_digit_def)

lemma printable_hex: "d < 16 \<Longrightarrow> printable (hex_digit d)"
  by (simp add: hex_digit_def printable_def code_digit_char) (simp add: code_def)

lemma code_less: "code c < 256"
  by (cases c) (simp add: code_def)

lemma printable_lits [simp]:
  "printable CHR 0x22" "printable CHR 0x5C" "printable CHR ''n''" "printable CHR ''r''" "printable CHR ''t''"
  "printable CHR ''f''" "printable CHR ''b''" "printable CHR ''u''" "printable CHR ''0''" "printable CHR ''-''"
  "printable CHR '',''" "printable CHR '' ''" "printable CHR '':''" "printable CHR ''{''" "printable CHR ''}''"
  "printable CHR ''[''" "printable CHR '']''" "printable CHR ''e''" "printable CHR ''a''" "printable CHR ''l''"
  "printable CHR ''s''"
  by (simp_all add: printable_def code_def)

lemma printable_esc: "x \<in> set (esc_char c) \<Longrightarrow> printable x"
proof -
  have "code c div 16 < 16" "code c mod 16 < 16" using code_less [of c] by auto
  then have h: "printable (hex_digit (code c div 16))" "printable (hex_digit (code c mod 16))"
    by (simp_all only: printable_hex)
  assume "x \<in> set (esc_char c)"
  with h show ?thesis by (auto simp: esc_char_def printable_def [of c] split: if_splits)
qed

lemma printable_json_str: "x \<in> set (json_str s) \<Longrightarrow> printable x"
  by (auto simp: json_str_def dest: printable_esc)

lemma set_join: "set (join sep ws) \<subseteq> set sep \<union> (\<Union>w\<in>set ws. set w)"
proof (induction ws)
  case (Cons w ws)
  then show ?case by (cases ws) auto
qed simp

lemma printable_join:
  "(\<And>c. c \<in> set sep \<Longrightarrow> printable c) \<Longrightarrow> (\<And>w c. w \<in> set ws \<Longrightarrow> c \<in> set w \<Longrightarrow> printable c) \<Longrightarrow>
   x \<in> set (join sep ws) \<Longrightarrow> printable x"
  using set_join [of sep ws] by auto

lemma printable_dumps: "x \<in> set (dumps j) \<Longrightarrow> printable x"
proof (induction j arbitrary: x)
  case (JInt i)
  then show ?case using show_int_chars [of x i] by (auto simp: printable_digit)
next
  case (JList js)
  then have "x \<in> set (join '', '' (map dumps js)) \<Longrightarrow> printable x"
    by (elim printable_join [rotated 2]) auto
  with JList.prems show ?case by auto
next
  case (JObj kvs)
  have item: "printable c" if "kv \<in> set kvs" "c \<in> set (json_str (fst kv) @ '': '' @ dumps (snd kv))" for kv c
    using that JObj.IH [of kv "snd kv" c, OF _ snds.intros] printable_json_str [of c "fst kv"] by auto
  have "x \<in> set (join '', '' (map (\<lambda>(k, v). json_str k @ '': '' @ dumps v) kvs)) \<Longrightarrow> printable x"
    by (erule printable_join [rotated 2]) (auto simp: image_iff dest!: item split: prod.splits)
  with JObj.prems show ?case by auto
qed (auto dest: printable_json_str split: if_splits)

lemma dumps_no_newline: "cnl \<notin> set (dumps j)"
  using printable_dumps [of cnl j] printable_not_nl by auto

end
