(* ===== verification/Py_Out.thy ===== *)
theory Py_Out
  imports Py_Base
begin

text \<open>
  What is left of a run that an exception ends: the state it had reached, or what it had printed, beside the
  exception. \<open>runE\<close> is a loop over the state, \<open>say_all\<close> prints one part after the other; both stop at the
  first exception and keep what was done before it.
\<close>

type_synonym 's ran = "'s \<times> py_error option"

fun runE :: "('s \<Rightarrow> 'a \<Rightarrow> 's ran) \<Rightarrow> 's \<Rightarrow> 'a list \<Rightarrow> 's ran" where
  "runE f s [] = (s, None)"
| "runE f s (x # xs) = (case f s x of (s', None) \<Rightarrow> runE f s' xs | (s', Some e) \<Rightarrow> (s', Some e))"

definition say_then :: "'a list ran \<Rightarrow> 'a list ran \<Rightarrow> 'a list ran" where
  "say_then a b = (case a of (xs, None) \<Rightarrow> (case b of (ys, e) \<Rightarrow> (xs @ ys, e)) | (xs, Some e) \<Rightarrow> (xs, Some e))"

text \<open>A part that is printed as a whole, or an exception instead of it\<close>

definition say_result :: "'a list result \<Rightarrow> 'a list ran" where
  "say_result r = (case r of Inl e \<Rightarrow> ([], Some e) | Inr xs \<Rightarrow> (xs, None))"

text \<open>A value that is needed before the printing goes on\<close>

definition say_with :: "'b result \<Rightarrow> ('b \<Rightarrow> 'a list ran) \<Rightarrow> 'a list ran" where
  "say_with r f = (case r of Inl e \<Rightarrow> ([], Some e) | Inr x \<Rightarrow> f x)"

fun say_all :: "'a list ran list \<Rightarrow> 'a list ran" where
  "say_all [] = ([], None)"
| "say_all (a # as) = say_then a (say_all as)"

text \<open>For evaluation the rest of a run waits for what is before it.\<close>

declare say_with_def [code_unfold]

lemma say_then_simps [simp]:
  "say_then (xs, Some e) b = (xs, Some e)"
  "say_then (xs, None) (ys, stop) = (xs @ ys, stop)"
  "say_then a ([], None) = a"
  "say_then ([], None) b = b"
  by (auto simp: say_then_def split: prod.splits option.splits)

lemma say_result_simps [simp]: "say_result (Inl e) = ([], Some e)" "say_result (Inr xs) = (xs, None)"
  by (simp_all add: say_result_def)

lemma say_with_simps [simp]: "say_with (Inl e) f = ([], Some e)" "say_with (Inr x) f = f x"
  by (simp_all add: say_with_def)

lemma say_then_assoc: "say_then (say_then a b) c = say_then a (say_then b c)"
  by (cases a; cases b; cases c; cases "snd a"; cases "snd b") (auto simp: say_then_def)

lemma say_all_append: "say_all (as @ bs) = say_then (say_all as) (say_all bs)"
  by (induction as) (simp_all add: say_then_assoc)

lemma say_all_fine: "say_all (map (\<lambda>x. (f x, None)) xs) = (concat (map f xs), None)"
  by (induction xs) simp_all

text \<open>What was printed are the parts before the first that raised an exception, and what that one printed.\<close>

lemma say_all_results:
  "\<exists>n \<le> length rs. say_all (map say_result rs) = (concat (map (\<lambda>r. case r of Inl e \<Rightarrow> [] | Inr xs \<Rightarrow> xs) (take n rs)),
      if n = length rs then None else (case rs ! n of Inl e \<Rightarrow> Some e | Inr xs \<Rightarrow> None)) \<and>
    list_all (\<lambda>r. \<exists>xs. r = Inr xs) (take n rs) \<and> (n < length rs \<longrightarrow> (\<exists>e. rs ! n = Inl e))"
proof (induction rs)
  case (Cons r rs)
  show ?case
  proof (cases r)
    case (Inl e)
    then show ?thesis by (intro exI [of _ 0]) simp
  next
    case (Inr xs)
    from Cons obtain n where n: "n \<le> length rs" "say_all (map say_result rs) = (concat (map (\<lambda>r. case r of Inl e \<Rightarrow> [] | Inr xs \<Rightarrow> xs) (take n rs)),
        if n = length rs then None else (case rs ! n of Inl e \<Rightarrow> Some e | Inr xs \<Rightarrow> None))"
      "list_all (\<lambda>r. \<exists>xs. r = Inr xs) (take n rs)" "n < length rs \<longrightarrow> (\<exists>e. rs ! n = Inl e)" by blast
    then show ?thesis using Inr by (intro exI [of _ "Suc n"]) simp
  qed
qed simp

lemma runE_append: "runE f s (xs @ ys) = (case runE f s xs of (t, None) \<Rightarrow> runE f t ys | (t, Some e) \<Rightarrow> (t, Some e))"
  by (induction xs arbitrary: s) (auto split: prod.splits option.splits)

lemma runE_invariant:
  assumes "runE f s xs = (t, None)" "P [] s"
    and "\<And>ys x zs s s'. xs = ys @ x # zs \<Longrightarrow> P ys s \<Longrightarrow> f s x = (s', None) \<Longrightarrow> P (ys @ [x]) s'"
  shows "P xs t"
proof -
  have "runE f s zs = (t, None) \<Longrightarrow> xs = ys @ zs \<Longrightarrow> P ys s \<Longrightarrow> P xs t" for ys zs s
  proof (induction zs arbitrary: ys s)
    case (Cons z zs)
    then obtain s' where s: "f s z = (s', None)" "runE f s' zs = (t, None)"
      by (auto split: prod.splits option.splits)
    from assms(3) [of ys z zs s s'] Cons.prems s have "P (ys @ [z]) s'" by simp
    with Cons.IH [of s' "ys @ [z]"] s Cons.prems show ?case by simp
  qed simp
  from this [of s xs "[]"] assms(1,2) show ?thesis by simp
qed

end
