(* ===== verification/Trace_Main.thy ===== *)
theory Trace_Main
  imports Trace_Convert Py_Json Py_Out
begin

text \<open>
  \<^verbatim>\<open>main()\<close> of \<^verbatim>\<open>kernel/work.mount.gp_on_demand.proposal/trace/trace2ndjson.py\<close>: the events of the dump
  are grouped by mount, every group is converted, one NDJSON file per converted mount and a
  summary are written, and the result is printed. The output directory is a map from names to contents;
  what is printed is a list of lines. An exception leaves the files that were written before it, the last
  of them up to the record that could not be written.
\<close>

fun json_of_val :: "val \<Rightarrow> json" where
  "json_of_val (VInt i) = JInt i"
| "json_of_val (VStr s) = JStr s"
| "json_of_val VNone = JNull"

definition jstrs :: "string list \<Rightarrow> json" where
  "jstrs ss = JList (map JStr ss)"

definition json_of_cfg :: "cfg \<Rightarrow> json" where
  "json_of_cfg c = JObj [(''id'', json_of_val (c_id c)), (''shape'', JStr (c_shape c)),
     (''sync'', JBool (c_sync c)), (''count_at_utree'', json_of_val (c_count c)),
     (''upid'', json_of_val (c_upid c)), (''tasklist'', jstrs (c_tasklist c)),
     (''walkers'', jstrs (c_walkers c)), (''holders'', jstrs (c_holders c)),
     (''getbudget'', JInt (c_getbudget c)), (''ncpu'', JInt (c_ncpu c)),
     (''cpus_seen'', JList (map JInt (c_cpus c))), (''nevents'', JInt (int (c_nevents c))),
     (''nlocked'', JInt (int (c_nlocked c))), (''pruned'', jstrs (c_pruned c)),
     (''inits'', jstrs (c_inits c)), (''preexisting'', jstrs (c_preexisting c)),
     (''has_free'', JBool (c_has_free c)), (''notes'', jstrs (c_notes c))]"

definition opt_keys :: "string list" where
  "opt_keys = [''count'', ''unheld'', ''doomed'', ''result'', ''early'', ''sync'', ''batch'', ''end'', ''sample'']"

definition bool_keys :: "string set" where
  "bool_keys = {''unheld'', ''doomed'', ''early'', ''sync'', ''end''}"

definition json_of_event :: "nat \<Rightarrow> event \<Rightarrow> json result" where
  "json_of_event i e =
     bindE (mapE (\<lambda>k. bindE (getv e k) (\<lambda>v. Inr (k, json_of_val v)))
       [''task'', ''ev'', ''lk'', ''ts'', ''cpu'', ''pid'', ''seq'']) (\<lambda>base.
     Inr (JObj ([(''i'', JInt (int i))] @ base @
       List.map_filter (\<lambda>k. case e k of None \<Rightarrow> None
         | Some v \<Rightarrow> Some (k, if k \<in> bool_keys then JBool (truthy v) else json_of_val v)) opt_keys @
       (case e ''role'' of None \<Rightarrow> [] | Some v \<Rightarrow> [(''role'', json_of_val v)]))))"

definition record_line :: "nat \<Rightarrow> event \<Rightarrow> string result" where
  "record_line i e = bindE (json_of_event i e) (\<lambda>j. Inr (dumps j @ nl))"

definition ndjson :: "cfg \<Rightarrow> event list \<Rightarrow> string ran" where
  "ndjson c out = say_all ((dumps (json_of_cfg c) @ nl, None) # map (\<lambda>(i, e). say_result (record_line i e)) (enumerate 1 out))"

definition group_by_id :: "event list \<Rightarrow> (int, event list) dict result" where
  "group_by_id evs = foldE (\<lambda>d e. bindE (geti e ''id'') (\<lambda>i.
     Inr (AList.update i ((case map_of d i of None \<Rightarrow> [] | Some l \<Rightarrow> l) @ [e]) d))) [] evs"

record converted =
  r_file :: string
  r_cfg :: cfg

datatype outcome = Skipped int "string list" nat | Converted int converted

definition json_of_outcome :: "outcome \<Rightarrow> json" where
  "json_of_outcome oc = (case oc of
     Skipped mid ns n \<Rightarrow> JObj [(''id'', JInt mid), (''skipped'', jstrs ns), (''n'', JInt (int n))]
   | Converted mid r \<Rightarrow> (let c = r_cfg r in JObj [(''id'', JInt mid), (''file'', JStr (r_file r)),
       (''shape'', JStr (c_shape c)), (''sync'', JBool (c_sync c)),
       (''count_at_utree'', json_of_val (c_count c)), (''nevents'', JInt (int (c_nevents c))),
       (''nlocked'', JInt (int (c_nlocked c))), (''walkers'', jstrs (c_walkers c)),
       (''holders'', jstrs (c_holders c)), (''pruned'', jstrs (c_pruned c)),
       (''has_free'', JBool (c_has_free c)), (''notes'', jstrs (c_notes c))]))"

definition mount_file :: "int \<Rightarrow> string" where
  "mount_file mid = ''mnt-'' @ show_int mid @ ''.ndjson''"

type_synonym folder = "(string, string) dict"

definition mount_step :: "folder \<times> outcome list \<Rightarrow> int \<times> event list \<Rightarrow> (folder \<times> outcome list) ran" where
  "mount_step = (\<lambda>(files, summary) (mid, mevs).
     case convert mevs [] of
       Inl e \<Rightarrow> ((files, summary), Some e)
     | Inr (None, notes) \<Rightarrow> ((files, summary @ [Skipped mid notes (length mevs)]), None)
     | Inr (Some (c, out), notes) \<Rightarrow>
         (case ndjson c out of (text, stop) \<Rightarrow>
           ((AList.update (mount_file mid) text files,
             if stop = None then summary @ [Converted mid \<lparr>r_file = mount_file mid, r_cfg = c\<rparr>] else summary), stop)))"

definition py_bool :: "bool \<Rightarrow> string" where
  "py_bool b = (if b then ''True'' else ''False'')"

definition report_line :: "converted \<Rightarrow> string" where
  "report_line r = (let c = r_cfg r in
     ''  '' @ r_file r @ '': shape='' @ c_shape c @ '' sync='' @ py_bool (c_sync c) @
     '' count@utree='' @ fmt_val (c_count c) @ '' events='' @ show_nat (c_nevents c) @
     '' walkers='' @ show_nat (length (c_walkers c)) @ '' holders='' @ show_nat (length (c_holders c)) @
     '' pruned='' @ show_nat (length (c_pruned c)) @ '' free='' @ py_bool (c_has_free c) @
     (if c_notes c \<noteq> [] then '' NOTES='' @ repr_strs (c_notes c) else []))"

definition converted_of :: "outcome list \<Rightarrow> converted list" where
  "converted_of oc = concat (map (\<lambda>x. case x of Skipped _ _ _ \<Rightarrow> [] | Converted _ r \<Rightarrow> [r]) oc)"

definition grouped :: "string \<Rightarrow> (event list \<times> (int, event list) dict) result" where
  "grouped content = bindE (parse content) (\<lambda>evs. bindE (group_by_id evs) (\<lambda>byid. Inr (evs, byid)))"

definition headline :: "nat \<Rightarrow> nat \<Rightarrow> nat \<Rightarrow> nat \<Rightarrow> string \<Rightarrow> string" where
  "headline evs mounts conv skipped outdir = show_nat evs @ '' events, '' @ show_nat mounts @ '' mounts, '' @
     show_nat conv @ '' converted, '' @ show_nat skipped @ '' skipped -> '' @ outdir"

definition main :: "string \<Rightarrow> string \<Rightarrow> folder \<Rightarrow> (folder \<times> string list) ran" where
  "main content outdir files =
     (case grouped content of
        Inl e \<Rightarrow> ((files, []), Some e)
      | Inr (evs, byid) \<Rightarrow>
          (case runE mount_step (files, []) (sort_key fst byid) of
             ((files, summary), Some e) \<Rightarrow> ((files, []), Some e)
           | ((files, summary), None) \<Rightarrow>
               (let conv = converted_of summary in
                ((AList.update ''summary.json'' (dump_indent 0 (JList (map json_of_outcome summary))) files,
                  headline (length evs) (length byid) (length conv) (length summary - length conv) outdir # map report_line conv), None))))"

end
