(* ===== verification/Trace_Props.thy ===== *)
theory Trace_Props
  imports Trace_Account Trace_Main
begin

text \<open>
  The properties of \<^verbatim>\<open>trace2ndjson.py\<close>: of the emitted trace of \<^verbatim>\<open>convert()\<close>, over the ledger of
  Trace_Ledger and the accounts of Trace_Account, and of the files \<^verbatim>\<open>main()\<close> writes.
\<close>

section \<open>The final heap, event by event\<close>

lemma pruned_events_rest:
  assumes "staged evs notes0 c out z" "evs_wf evs" "i \<in> pruned_events n h (tasks (z_s1 z))"
  shows "i \<in> set (z_rest z)"
proof -
  note led = staged_ledger(1) [OF assms(1,2)]
  from assms(3) obtain name t where t: "(name, t) \<in> set (tasks (z_s1 z))" "i \<in> set (t_events t)"
    by (auto simp: pruned_events_def)
  then have "map_of (tasks (z_s1 z)) name = Some t" using ledger_doneD(2) [OF led] by simp
  then have "set (t_events t) \<subseteq> set (z_rest z)"
    using task_ok_events [OF ledger_doneD(3) [OF led]] by fastforce
  with t(2) show ?thesis by blast
qed

lemma rest_not_cleanup:
  assumes "staged evs notes0 c out z" "i \<in> set (z_rest z)"
  shows "\<not> is_cleanup (z_h1 z ! i)" "i < length evs"
  using rest_events_set(3) [OF stagedD(5) [OF assms(1)], of i] assms(2) framed_length [OF staged_framed(1) [OF assms(1)]]
  by (auto simp: is_cleanup_def)

lemma task_events_rest:
  assumes "staged evs notes0 c out z" "evs_wf evs" "map_of (tasks (z_s1 z)) name = Some t" "i \<in> set (t_events t)"
  shows "i \<in> set (z_rest z)"
  using task_ok_events [OF ledger_doneD(3) [OF staged_ledger(1) [OF assms(1,2)] assms(3)]] assms(4) by fastforce

lemma dict_filter_key:
  assumes "dict_wf d" "map_of d k = Some v"
  shows "k \<in> set (map fst (filter (\<lambda>(n, t). P t) d)) \<longleftrightarrow> P v"
proof -
  have "v' = v" if "(k, v') \<in> set d" for v' using assms map_of_is_SomeI [OF assms(1) that] by simp
  moreover have "(k, v) \<in> set d" using assms(2) by (rule map_of_SomeD)
  ultimately have "(\<exists>w. (k, w) \<in> set d \<and> P w) \<longleftrightarrow> P v" by blast
  moreover have "k \<in> set (map fst (filter (\<lambda>(n, t). P t) d)) \<longleftrightarrow> (\<exists>w. (k, w) \<in> set d \<and> P w)"
    by (induction d) auto
  ultimately show ?thesis by simp
qed

lemma fate_task:
  assumes z: "staged evs notes0 c out z" and wf: "evs_wf evs"
    and t: "map_of (tasks (z_s1 z)) name = Some t" and i: "i \<in> set (t_events t)"
  shows "(z_h3 z ! i) ''role'' \<noteq> Some (VStr ''init'')"
    "(z_h3 z ! i) ''task'' = Some (if name \<in> set (z_pruned z) then VNone else VStr name)"
proof -
  note led = staged_ledger(1) [OF z wf] and pr = staged_pruned [OF z wf]
  have ok: "task_ok (z_h1 z) (heap (z_s1 z)) (fst ` set (z_bypid z)) VNone (set (z_rest z)) [] 0 0 k u"
    if "map_of (tasks (z_s1 z)) k = Some u" for k u
    using ledger_doneD(3) [OF led that] .
  have ir: "i \<in> set (z_rest z)" by (rule task_events_rest [OF z wf t i])
  note cl = rest_not_cleanup [OF z ir]
  have h2: "heap (z_s2 z) ! i = heap (z_s1 z) ! i" using pr(5) [OF cl(2)] cl(1) by simp
  have k1: "(heap (z_s1 z) ! i) ''task'' = Some (VStr name)" "(heap (z_s1 z) ! i) ''role'' = (z_h1 z ! i) ''role''"
    using ok [OF t] i by (auto simp: task_ok_def)
  have "i \<in> pruned_events (z_n z) (heap (z_s2 z)) (tasks (z_s1 z)) \<longleftrightarrow> prunable (z_n z) (heap (z_s2 z)) t"
  proof
    assume "i \<in> pruned_events (z_n z) (heap (z_s2 z)) (tasks (z_s1 z))"
    then obtain k u where u: "(k, u) \<in> set (tasks (z_s1 z))" "prunable (z_n z) (heap (z_s2 z)) u" "i \<in> set (t_events u)"
      by (auto simp: pruned_events_def)
    then have mu: "map_of (tasks (z_s1 z)) k = Some u" using ledger_doneD(2) [OF led] by simp
    from ok [OF this] u(3) k1(1) have "k = name" by (auto simp: task_ok_def)
    with mu t u(2) show "prunable (z_n z) (heap (z_s2 z)) t" by simp
  next
    assume "prunable (z_n z) (heap (z_s2 z)) t"
    with t i show "i \<in> pruned_events (z_n z) (heap (z_s2 z)) (tasks (z_s1 z))"
      by (auto simp: pruned_events_def dest: map_of_SomeD)
  qed
  also have "\<dots> \<longleftrightarrow> name \<in> set (z_pruned z)"
    unfolding pr(1) using dict_filter_key [OF ledger_doneD(2) [OF led] t] by simp
  finally have p: "i \<in> pruned_events (z_n z) (heap (z_s2 z)) (tasks (z_s1 z)) \<longleftrightarrow> name \<in> set (z_pruned z)" .
  show "(z_h3 z ! i) ''task'' = Some (if name \<in> set (z_pruned z) then VNone else VStr name)"
    by (simp add: pr(4) p h2 k1(1))
  show "(z_h3 z ! i) ''role'' \<noteq> Some (VStr ''init'')"
    using staged_start(1) [OF z wf cl(2)] by (simp add: pr(4) h2 k1(2))
qed

lemma fate_rest:
  assumes z: "staged evs notes0 c out z" and wf: "evs_wf evs" and i: "i \<in> set (z_rest z)"
  obtains (member) name t where "map_of (tasks (z_s1 z)) name = Some t" "i \<in> set (t_events t)"
  | (init) "(z_h3 z ! i) ''role'' = Some (VStr ''init'')" "is_get (z_h1 z) i \<or> n_le (z_n z) (z_h1 z) i"
  | (unhandled) "unhandled (z_h1 z ! i)" "(z_h3 z ! i) ''task'' = Some VNone"
proof -
  note led = staged_ledger(1) [OF z wf] and pr = staged_pruned [OF z wf]
  note cl = rest_not_cleanup [OF z i]
  have h2: "heap (z_s2 z) ! i = heap (z_s1 z) ! i" using pr(5) [OF cl(2)] cl(1) by simp
  have len: "length (z_h1 z) = length evs" by (rule framed_length [OF staged_framed(1) [OF z]])
  from ledger_doneD(4) [OF led i] consider
    (a) "\<exists>name t. map_of (tasks (z_s1 z)) name = Some t \<and> i \<in> set (t_events t)"
    | (b) "(heap (z_s1 z) ! i) ''role'' = Some (VStr ''init'')"
    | (c) "Trace_Ledger.unhandled (z_h1 z ! i)" "heap (z_s1 z) ! i = z_h1 z ! i"
    unfolding covered_def by blast
  then show thesis
  proof cases
    case a
    then show thesis using member by blast
  next
    case b
    then show thesis
      using staged_ledger(2) [OF z wf] cl(2) len by (intro init) (auto simp: pr(4) h2 inits_early_def)
  next
    case c
    moreover have "(z_h1 z ! i) ''task'' = Some VNone"
      using rest_events_set(3) [OF stagedD(5) [OF z], of i] i by simp
    ultimately show thesis by (intro unhandled) (auto simp: pr(4) h2)
  qed
qed


lemma fate_u:
  assumes z: "staged evs notes0 c out z" and wf: "evs_wf evs"
    and i: "i < length evs" "\<not> is_cleanup (z_h1 z ! i)" "i \<notin> set (z_rest z)"
  shows "z_h3 z ! i = z_h1 z ! i" "(z_h1 z ! i) ''task'' \<in> {Some (VStr ''U''), Some (VStr ''rcu'')}"
proof -
  note led = staged_ledger(1) [OF z wf] and pr = staged_pruned [OF z wf]
  have "i \<notin> pruned_events (z_n z) (heap (z_s2 z)) (tasks (z_s1 z))" using pruned_events_rest [OF z wf] i(3) by blast
  then show "z_h3 z ! i = z_h1 z ! i"
    using pr(5) [OF i(1)] i(2) ledger_doneD(5) [OF led i(3)] by (simp add: pr(4))
  have len: "length (z_h1 z) = length evs" by (rule framed_length [OF staged_framed(1) [OF z]])
  show "(z_h1 z ! i) ''task'' \<in> {Some (VStr ''U''), Some (VStr ''rcu'')}"
    using staged_start(2,4) [OF z wf i(1)] i(1,2,3) rest_events_set(3) [OF stagedD(5) [OF z], of i] len
    by (auto simp: is_cleanup_def)
qed


lemma emitted_iff:
  "emitted h i = Inr True \<longleftrightarrow> (\<exists>t. (h ! i) ''task'' = Some t \<and> t \<noteq> VNone) \<and> (h ! i) ''role'' \<noteq> Some (VStr ''init'')"
  by (auto simp: emitted_def)


definition n_of :: "event \<Rightarrow> int" where
  "n_of e = (case e ''n'' of Some (VInt m) \<Rightarrow> m | _ \<Rightarrow> 0)"





section \<open>What the emitted trace keeps\<close>





section \<open>The tasks of the emitted events\<close>

lemma names_of_set: "dict_wf ts \<Longrightarrow> name \<in> set (names_of role ts) \<longleftrightarrow> (\<exists>t. map_of ts name = Some t \<and> t_role t = role)"
  unfolding names_of_def by (auto dest: map_of_SomeD map_of_is_SomeI intro!: image_eqI)


lemma staged_task:
  assumes z: "staged evs notes0 c out z" and wf: "evs_wf evs" and t: "map_of (z_ts z) name = Some t"
  shows "map_of (tasks (z_s1 z)) name = Some t" "name \<notin> set (z_pruned z)" "sorted_wrt (<) (t_events t)"
    "task_shape (z_h1 z) t" "name \<notin> {''U'', ''rcu''}"
proof -
  note led = staged_ledger(1) [OF z wf]
  show t1: "map_of (tasks (z_s1 z)) name = Some t" "name \<notin> set (z_pruned z)"
    using t by (auto simp: staged_pruned(2) [OF z wf] split: if_splits)
  have ok: "task_ok (z_h1 z) (heap (z_s1 z)) (fst ` set (z_bypid z)) VNone (set (z_rest z)) [] 0 0 name t"
    using ledger_doneD(3) [OF led t1(1)] .
  then show "sorted_wrt (<) (t_events t)" "task_shape (z_h1 z) t" by (auto simp: task_ok_def)
  from ok obtain p n where "name = task_name (role_char t) p n" by (auto simp: task_ok_def owned_def)
  then show "name \<notin> {''U'', ''rcu''}" by (auto simp: task_name_def role_char_def)
qed

lemma emitted_task:
  assumes z: "staged evs notes0 c out z" and wf: "evs_wf evs" and i: "i < length evs" "\<not> is_cleanup (z_h3 z ! i)"
    and e: "emitted (z_h3 z) i = Inr True"
  obtains (member) name t where "map_of (z_ts z) name = Some t" "i \<in> set (t_events t)" "(z_h3 z ! i) ''task'' = Some (VStr name)"
  | (protocol) "(z_h3 z ! i) ''task'' \<in> {Some (VStr ''U''), Some (VStr ''rcu'')}"
proof -
  have fr: "framed (z_h1 z) (z_h3 z)" using staged_framed(1,4) [OF z] by (simp add: framed_def)
  have c: "\<not> is_cleanup (z_h1 z ! i)"
    using i framed_key [OF fr, of i "''ev''"] framed_length [OF staged_framed(1) [OF z]] by (simp add: is_cleanup_def)
  show thesis
  proof (cases "i \<in> set (z_rest z)")
    case False
    from fate_u [OF z wf i(1) c False] show thesis by (intro protocol) simp
  next
    case True
    from z wf True show thesis
    proof (cases rule: fate_rest)
      case (member name t)
      note f = fate_task [OF z wf member]
      with e have "name \<notin> set (z_pruned z)" by (auto simp: emitted_iff)
      with f member show thesis by (intro that(1) [of name t]) (simp_all add: staged_pruned(2) [OF z wf])
    qed (use e in \<open>auto simp: emitted_iff\<close>)
  qed
qed

text \<open>The emitted events of a task of the configuration are the task's events, in order.\<close>

lemma staged_task_out:
  assumes z: "staged evs notes0 c out z" and wf: "evs_wf evs" and t: "map_of (z_ts z) name = Some t"
  obtains h where "framed (z_h1 z) h"
    "filter (\<lambda>e. e ''task'' = Some (VStr name) \<and> \<not> is_cleanup e) out = map ((!) h) (t_events t)"
proof -
  let ?h = "z_h3 z"
  note st = staged_task [OF z wf t]
  from z obtain idx lk where idx: "filterE (emitted ?h) [0..<length ?h] = Inr idx"
    and out: "out = map ((!) (rank_from 1 ?h lk)) idx"
    by (rule staged_out)
  let ?r = "rank_from 1 ?h lk"
  let ?p = "\<lambda>i. (?h ! i) ''task'' = Some (VStr name) \<and> \<not> is_cleanup (?h ! i)"
  have len: "length ?h = length evs" by (rule framed_length [OF staged_framed(4) [OF z]])
  have fr: "framed (z_h1 z) ?h" using staged_framed(1,4) [OF z] by (simp add: framed_def)
  have io: "i \<in> set idx \<longleftrightarrow> i < length evs \<and> emitted ?h i = Inr True" for i
    using filterE_conv [OF idx] len by auto
  have same: "(?r ! i) ''task'' = (?h ! i) ''task''" "is_cleanup (?r ! i) = is_cleanup (?h ! i)" if "i \<in> set idx" for i
    using that io len by (auto simp: rank_from_key is_cleanup_def)
  have ids: "filter ?p idx = t_events t"
  proof (rule strict_sorted_equal)
    show "sorted_wrt (<) (filter ?p idx)" using filterE_indices [OF idx] by (simp add: sorted_wrt_filter)
    show "sorted_wrt (<) (t_events t)" by (rule st(3))
    show "set (filter ?p idx) = set (t_events t)"
    proof (intro equalityI [OF _ subsetI] subsetI)
      fix i assume i: "i \<in> set (filter ?p idx)"
      then have a: "i < length evs" "\<not> is_cleanup (?h ! i)" "emitted ?h i = Inr True" by (auto simp: io)
      from z wf a show "i \<in> set (t_events t)"
        by (cases rule: emitted_task) (use i st(5) t in auto)
    next
      fix i assume i: "i \<in> set (t_events t)"
      note r = task_events_rest [OF z wf st(1) i]
      have "\<not> is_cleanup (?h ! i)"
        using rest_not_cleanup [OF z r] framed_key [OF fr, of i "''ev''"] framed_length [OF staged_framed(1) [OF z]]
        by (simp add: is_cleanup_def)
      then show "i \<in> set (filter ?p idx)"
        using fate_task [OF z wf st(1) i] rest_not_cleanup(2) [OF z r] st(2) by (simp add: io emitted_iff)
    qed
  qed
  have "filter (\<lambda>e. e ''task'' = Some (VStr name) \<and> \<not> is_cleanup e) out = map ((!) ?r) (t_events t)"
  proof -
    have "filter (\<lambda>i. (?r ! i) ''task'' = Some (VStr name) \<and> \<not> is_cleanup (?r ! i)) idx = filter ?p idx"
      by (rule filter_cong) (simp_all add: same)
    then show ?thesis unfolding out filter_map comp_def using ids by simp
  qed
  moreover have "framed (z_h1 z) ?r" using fr rank_from_framed by (rule framed_trans)
  ultimately show thesis by (intro that)
qed

lemma staged_task_range:
  assumes z: "staged evs notes0 c out z" and wf: "evs_wf evs" and t: "map_of (tasks (z_s1 z)) name = Some t"
  shows "set (t_events t) \<subseteq> {..<length (z_h1 z)}"
  using task_events_rest [OF z wf t] rest_not_cleanup(2) [OF z] framed_length [OF staged_framed(1) [OF z]] by auto

text \<open>The runs of the model's tasks: a walker is one acquisition and at most the put of the reference
  it took; a holder's puts never exceed the references it has.\<close>

definition walker_run :: "event list \<Rightarrow> bool" where
  "walker_run es = (case es of
     [a] \<Rightarrow> a ''ev'' = Some (VStr ''mnt_legitimize'')
   | [a, b] \<Rightarrow> a ''ev'' = Some (VStr ''mnt_legitimize'') \<and> is_put b = Inr True \<and>
       a ''result'' \<in> {Some (VInt 0), Some (VInt (-1))}
   | _ \<Rightarrow> False)"

fun holder_run :: "nat \<Rightarrow> event list \<Rightarrow> bool" where
  "holder_run n [] = True"
| "holder_run n (e # es) =
     (if e ''ev'' = Some (VStr ''mnt_get'') then holder_run (n + 1) es
      else is_put e = Inr True \<and> 0 < n \<and> holder_run (n - 1) es)"

lemma walker_shape_run:
  assumes "walker_shape h es" "framed h h'" "set es \<subseteq> {..<length h}"
  shows "walker_run (map ((!) h') es)"
proof -
  have key: "(h' ! i) ''ev'' = (h ! i) ''ev''" "(h' ! i) ''result'' = (h ! i) ''result''" "is_put (h' ! i) = is_put (h ! i)"
    if "i \<in> set es" for i
    using framed_key [OF assms(2), of i] is_put_base [OF framed_base [OF assms(2), of i]] assms(3) that by auto
  from assms(1) obtain a where a: "is_legit h a" and es: "es = [a] \<or> (\<exists>b. es = [a, b] \<and> is_putb h b \<and> takes_ref h a)"
    by (auto simp: walker_shape_def)
  from es key a show ?thesis
    by (elim disjE exE) (simp_all add: walker_run_def is_legit_def is_putb_def takes_ref_def)
qed

lemma holder_shape_run_aux:
  assumes "framed h h'"
  shows "set es \<subseteq> {..<length h} \<Longrightarrow> (\<forall>i\<in>set es. is_get h i \<or> is_putb h i) \<Longrightarrow>
   (\<forall>k\<le>length es. 0 \<le> int n - 1 + refs h (take k es)) \<Longrightarrow> holder_run n (map ((!) h') es)"
proof (induction es arbitrary: n)
  case (Cons i es)
  have i: "i < length h" using Cons.prems(1) by simp
  have ev: "(h' ! i) ''ev'' = (h ! i) ''ev''" "is_put (h' ! i) = is_put (h ! i)"
    using framed_key [OF assms i] is_put_base [OF framed_base [OF assms i]] by simp_all
  have tl: "0 \<le> int n - 1 + refs h (i # take k es)" if "k \<le> length es" for k
    using Cons.prems(3) that by (auto dest: spec [of _ "Suc k"])
  show ?case
  proof (cases "is_get h i")
    case True
    have "refs h (i # xs) = refs h xs + 1" for xs using True get_not_put [of h i] by (simp add: refs_def)
    with tl have "\<forall>k\<le>length es. 0 \<le> int (n + 1) - 1 + refs h (take k es)" by simp
    with Cons.IH [of "n + 1"] Cons.prems(1,2) True ev(1) show ?thesis by (simp add: is_get_def)
  next
    case False
    with Cons.prems(2) have p: "is_putb h i" by simp
    have m: "refs h (i # xs) = refs h xs - 1" for xs using False p by (simp add: refs_def)
    have "0 < n" using tl [of 0] m [of "[]"] by simp
    moreover have "\<forall>k\<le>length es. 0 \<le> int (n - 1) - 1 + refs h (take k es)" using tl m \<open>0 < n\<close> by fastforce
    ultimately show ?thesis
      using Cons.IH [of "n - 1"] Cons.prems(1,2) False p ev by (simp add: is_get_def is_putb_def)
  qed
qed simp

lemma holder_shape_run:
  "holder_shape h es \<Longrightarrow> framed h h' \<Longrightarrow> set es \<subseteq> {..<length h} \<Longrightarrow> holder_run 1 (map ((!) h') es)"
  by (rule holder_shape_run_aux) (auto simp: holder_shape_def)

section \<open>A concrete trace\<close>

definition sample_event :: "nat \<Rightarrow> string \<Rightarrow> int \<Rightarrow> (string \<times> val) list \<Rightarrow> event" where
  "sample_event n ev pid kvs = map_of ([(''ev'', VStr ev), (''n'', VInt (int n)), (''pid'', VInt pid)] @ kvs @
     [(''seq'', VInt (int n)), (''cpu'', VInt 1), (''id'', VInt 7), (''ts'', VInt (int n)), (''comm'', VStr ''t'')])"

definition sample :: "event list" where
  "sample = [
     sample_event 0 ''mnt_legitimize'' 10 [(''result'', VInt 0)],
     sample_event 1 ''mnt_legitimize'' 20 [(''result'', VInt 0)],
     sample_event 2 ''mnt_get'' 30 [],
     sample_event 3 ''mnt_legitimize'' 40 [(''result'', VInt 1), (''early'', VInt 1)],
     sample_event 4 ''mnt_umount_tree'' 10 [(''sync'', VInt 0), (''count'', VInt 3)],
     sample_event 5 ''mnt_put_fast'' 20 [],
     sample_event 6 ''mnt_caller_drop'' 10 [(''count'', VInt 1)],
     sample_event 7 ''mnt_peek'' 10 [(''unheld'', VInt 0)],
     sample_event 8 ''mnt_slowpath'' 30 [(''count'', VInt 0), (''doomed'', VInt 0)],
     sample_event 9 ''mnt_cleanup'' 30 [],
     sample_event 10 ''mnt_free'' 0 []]"


definition sample_tasks :: "(string list \<times> string list) option" where
  "sample_tasks = (case convert sample [] of
     Inr (Some (c, out), _) \<Rightarrow> Some (c_walkers c, c_holders c) | _ \<Rightarrow> None)"

lemma sample_tasks_eval: "sample_tasks = Some ([''W20.1''], [''H30.1''])"
  by code_simp

lemma sample_run:
  obtains c out ns where "convert sample [] = Inr (Some (c, out), ns)" "c_walkers c = [''W20.1'']" "c_holders c = [''H30.1'']"
  using sample_tasks_eval unfolding sample_tasks_def by (auto split: sum.splits prod.splits option.splits)

lemma sample_wf: "evs_wf sample" "sorted_wrt (<) (map n_of sample)"
  by (auto simp: evs_wf_def sample_def sample_event_def event_wf_def n_of_def split: if_splits)

section \<open>The properties of the emitted trace\<close>





text \<open>
  C2: the emitted events of a walker are one \<^verbatim>\<open>__legitimize_mnt()\<close>, alone or followed by one put, and
  it is followed by a put only when it returned 0 or -1, that is when it took a reference.
\<close>

theorem convert_walker_runs:
  assumes "convert evs notes0 = Inr (Some (c, out), ns)" "evs_wf evs" "w \<in> set (c_walkers c)"
  shows "walker_run (filter (\<lambda>e. e ''task'' = Some (VStr w) \<and> \<not> is_cleanup e) out)"
proof -
  from assms(1) obtain z where z: "staged evs notes0 c out z" by (rule convert_staged)
  from stagedD(11) [OF z] have "c_walkers c = names_of ''walker'' (z_ts z)" by (rule result_phase_out) simp
  with assms(3) obtain t where t: "map_of (z_ts z) w = Some t" "t_role t = ''walker''"
    using staged_pruned(3) [OF z assms(2)] by (auto simp: names_of_set)
  note st = staged_task [OF z assms(2) t(1)]
  from z assms(2) t(1) obtain h where h: "framed (z_h1 z) h"
    "filter (\<lambda>e. e ''task'' = Some (VStr w) \<and> \<not> is_cleanup e) out = map ((!) h) (t_events t)"
    by (rule staged_task_out)
  have "walker_shape (z_h1 z) (t_events t)" using st(4) t(2) by (simp add: task_shape_def)
  then show ?thesis unfolding h(2) using h(1) staged_task_range [OF z assms(2) st(1)] by (rule walker_shape_run)
qed

theorem convert_walker_runs_witness:
  "\<exists>c out ns. convert sample [] = Inr (Some (c, out), ns) \<and>
     walker_run (filter (\<lambda>e. e ''task'' = Some (VStr ''W20.1'') \<and> \<not> is_cleanup e) out)"
proof -
  obtain c out ns where r: "convert sample [] = Inr (Some (c, out), ns)" "c_walkers c = [''W20.1'']" by (rule sample_run)
  show ?thesis using convert_walker_runs [OF r(1) sample_wf(1), of "''W20.1''"] r by auto
qed

text \<open>
  C3: the emitted events of a holder are gets and puts, and starting from the one reference it was
  created with, no put finds it without a reference.
\<close>

theorem convert_holder_runs:
  assumes "convert evs notes0 = Inr (Some (c, out), ns)" "evs_wf evs" "hn \<in> set (c_holders c)"
  shows "holder_run 1 (filter (\<lambda>e. e ''task'' = Some (VStr hn) \<and> \<not> is_cleanup e) out)"
proof -
  from assms(1) obtain z where z: "staged evs notes0 c out z" by (rule convert_staged)
  from stagedD(11) [OF z] have "c_holders c = names_of ''holder'' (z_ts z)" by (rule result_phase_out) simp
  with assms(3) obtain t where t: "map_of (z_ts z) hn = Some t" "t_role t = ''holder''"
    using staged_pruned(3) [OF z assms(2)] by (auto simp: names_of_set)
  note st = staged_task [OF z assms(2) t(1)]
  from z assms(2) t(1) obtain h where h: "framed (z_h1 z) h"
    "filter (\<lambda>e. e ''task'' = Some (VStr hn) \<and> \<not> is_cleanup e) out = map ((!) h) (t_events t)"
    by (rule staged_task_out)
  have "holder_shape (z_h1 z) (t_events t)" using st(4) t(2) by (simp add: task_shape_def)
  then show ?thesis unfolding h(2) using h(1) staged_task_range [OF z assms(2) st(1)] by (rule holder_shape_run)
qed

theorem convert_holder_runs_witness:
  "\<exists>c out ns. convert sample [] = Inr (Some (c, out), ns) \<and>
     holder_run 1 (filter (\<lambda>e. e ''task'' = Some (VStr ''H30.1'') \<and> \<not> is_cleanup e) out)"
proof -
  obtain c out ns where r: "convert sample [] = Inr (Some (c, out), ns)" "c_holders c = [''H30.1'']" by (rule sample_run)
  show ?thesis using convert_holder_runs [OF r(1) sample_wf(1), of "''H30.1''"] r by auto
qed

text \<open>
  C6: the emitted trace is a subsequence of the mount's events in file order; only the keys
  \<^verbatim>\<open>task\<close>, \<^verbatim>\<open>role\<close> and \<^verbatim>\<open>lk\<close> of an event are changed.
\<close>

theorem convert_subsequence:
  assumes "convert evs notes0 = Inr (Some (c, out), ns)"
  shows "subseq (map base out) (map base evs)"
  using assms by (rule out_subseq)

theorem convert_subsequence_witness:
  "\<exists>c out ns. convert sample [] = Inr (Some (c, out), ns) \<and> subseq (map base out) (map base sample)"
proof -
  obtain c out ns where "convert sample [] = Inr (Some (c, out), ns)" by (rule sample_run)
  with convert_subsequence [OF this] show ?thesis by blast
qed

text \<open>
  C5: the events of the emitted trace that happen under \<^verbatim>\<open>mount_lock\<close> carry the ranks 1, 2, ... in trace
  order, without a gap, and \<^verbatim>\<open>nlocked\<close> is their number.
\<close>

theorem convert_locked_ranks:
  assumes "convert evs notes0 = Inr (Some (c, out), ns)"
  shows "map (\<lambda>e. e ''lk'') (filter (\<lambda>e. locked e = Inr True) out) =
         map (\<lambda>r. Some (VInt (int r))) [1..<Suc (c_nlocked c)]"
  using assms by (rule out_ranks)

theorem convert_locked_ranks_witness:
  "\<exists>c out ns. convert sample [] = Inr (Some (c, out), ns) \<and>
     map (\<lambda>e. e ''lk'') (filter (\<lambda>e. locked e = Inr True) out) =
     map (\<lambda>r. Some (VInt (int r))) [1..<Suc (c_nlocked c)]"
proof -
  obtain c out ns where "convert sample [] = Inr (Some (c, out), ns)" by (rule sample_run)
  with convert_locked_ranks [OF this] show ?thesis by blast
qed

text \<open>
  C7: a mount is skipped exactly when its trace does not have one \<^verbatim>\<open>umount_tree()\<close>, and the note says
  how many it has.
\<close>

theorem convert_skips:
  assumes "evs_wf evs"
  shows "convert evs notes0 = Inr (None, ns) \<longleftrightarrow>
     length (filter (\<lambda>e. e ''ev'' = Some (VStr ''mnt_umount_tree'')) evs) \<noteq> 1 \<and>
     ns = notes0 @ [''skipped: '' @ show_nat (length (filter (\<lambda>e. e ''ev'' = Some (VStr ''mnt_umount_tree'')) evs)) @
       '' umount_tree events'']"
proof -
  have ev: "\<exists>b. ev_is evs ''mnt_umount_tree'' i = Inr b" if "i \<in> set [0..<length evs]" for i
  proof -
    have "event_wf (evs ! i)" using assms that by (simp add: evs_wf_def)
    then obtain v where "(evs ! i) ''ev'' = Some v" by (auto simp: event_wf_def)
    then show ?thesis by (simp add: ev_is_def getv_def)
  qed
  let ?u = "\<lambda>e. e ''ev'' = Some (VStr ''mnt_umount_tree'')"
  define uts where "uts = filter (\<lambda>i. ?u (evs ! i)) [0..<length evs]"
  have "(ev_is evs ''mnt_umount_tree'' i = Inr True) = ?u (evs ! i)" for i
    by (auto simp: ev_is_def)
  then have f: "filterE (ev_is evs ''mnt_umount_tree'') [0..<length evs] = Inr uts"
    using filterE_total [of "[0..<length evs]" "ev_is evs ''mnt_umount_tree''"] ev by (simp add: uts_def)
  have "filter ?u evs = map ((!) evs) uts"
    using filter_map [of ?u "(!) evs" "[0..<length evs]"] by (simp add: map_nth uts_def comp_def)
  then have len: "length (filter ?u evs) = length uts" by simp
  show ?thesis
    unfolding len convert_def f bindE_simps
    by (auto split: list.splits elim!: bindE_elim simp del: bindE_Inr_conv)
qed

theorem convert_skips_witness: "convert [] [] = Inr (None, [''skipped: 0 umount_tree events''])"
proof -
  have "show_nat 0 = ''0''" by code_simp
  then show ?thesis
    using convert_skips [of "[]" "[]" "[''skipped: 0 umount_tree events'']"] by (simp add: evs_wf_def)
qed

text \<open>
  When U's own reference is the \<^verbatim>\<open>mntget()\<close> that opened a holder, \<^verbatim>\<open>convert()\<close> lists that initial
  reference twice: \<^verbatim>\<open>take_own_ref()\<close> appends the event that the get had already appended.
\<close>

theorem convert_inits_twice:
  "(case convert [sample_event 0 ''mnt_get'' 10 [],
       sample_event 1 ''mnt_umount_tree'' 10 [(''sync'', VInt 0), (''count'', VInt 2)]] [] of
     Inr (Some (c, out), _) \<Rightarrow> Some (c_inits c, length out) | _ \<Rightarrow> None) =
   Some ([''U:mnt_get@0'', ''U:mnt_get@0''], 1)"
  by code_simp

section \<open>The files written\<close>





end
