(* ===== verification/Trace_Files.thy ===== *)
theory Trace_Files
  imports Trace_Main
begin

text \<open>
  What \<^verbatim>\<open>main()\<close> of \<^verbatim>\<open>trace2ndjson.py\<close> leaves behind: the groups of the events, and the files, the
  summary and the lines that a run which no exception ends accounts for them with.
\<close>

section \<open>The groups\<close>

definition mount_events :: "event list \<Rightarrow> int \<Rightarrow> event list" where
  "mount_events evs mid = filter (\<lambda>e. e ''id'' = Some (VInt mid)) evs"

lemma group_by_id_groups:
  assumes "group_by_id evs = Inr byid"
  shows "map_of byid mid = (if mount_events evs mid = [] then None else Some (mount_events evs mid))"
    and "distinct (map fst byid)"
proof -
  let ?P = "\<lambda>es d. distinct (map fst d) \<and>
    (\<forall>mid. map_of d mid = (if mount_events es mid = [] then None else Some (mount_events es mid)))"
  have "?P evs byid"
    using assms unfolding group_by_id_def
  proof (rule foldE_invariant_prefix)
    show "?P [] []" by (simp add: mount_events_def)
  next
    fix ys x zs s s'
    assume "evs = ys @ x # zs" "?P ys s"
      "bindE (geti x ''id'') (\<lambda>i. Inr (AList.update i ((case map_of s i of None \<Rightarrow> [] | Some l \<Rightarrow> l) @ [x]) s)) = Inr s'"
    moreover from this obtain i where i: "x ''id'' = Some (VInt i)" by auto
    ultimately have s': "s' = AList.update i (mount_events ys i @ [x]) s" and d: "distinct (map fst s)"
      and m: "map_of s mid = (if mount_events ys mid = [] then None else Some (mount_events ys mid))" for mid
      by auto
    have "mount_events (ys @ [x]) mid = mount_events ys mid @ (if mid = i then [x] else [])" for mid
      using i by (simp add: mount_events_def)
    then show "?P (ys @ [x]) s'" using d m by (simp add: s' update_conv' distinct_update)
  qed
  then show "distinct (map fst byid)" "map_of byid mid = (if mount_events evs mid = [] then None else Some (mount_events evs mid))"
    by blast+
qed

lemma mount_file_inj [simp]: "mount_file i = mount_file j \<longleftrightarrow> i = j"
  by (simp add: mount_file_def)

lemma mount_file_summary [simp]: "mount_file i \<noteq> ''summary.json''" "''summary.json'' \<noteq> mount_file i"
  by (simp_all add: mount_file_def)


section \<open>One mount after the other\<close>

text \<open>What \<^verbatim>\<open>main()\<close> makes of one mount, as a relation between the files before and after it\<close>

definition mount_done :: "folder \<Rightarrow> int \<times> event list \<Rightarrow> outcome \<Rightarrow> folder \<Rightarrow> bool" where
  "mount_done d g oc d' = (case convert (snd g) [] of
     Inl e \<Rightarrow> False
   | Inr (None, notes) \<Rightarrow> d' = d \<and> oc = Skipped (fst g) notes (length (snd g))
   | Inr (Some (c, out), notes) \<Rightarrow> (\<exists>t. ndjson c out = (t, None) \<and> d' = AList.update (mount_file (fst g)) t d) \<and>
       oc = Converted (fst g) \<lparr>r_file = mount_file (fst g), r_cfg = c\<rparr>)"

lemma mount_step_done:
  "mount_step (d, summary) g = ((d', summary'), None) \<longleftrightarrow>
   (\<exists>oc. mount_done d g oc d' \<and> summary' = summary @ [oc])"
  by (cases g) (auto simp: mount_step_def mount_done_def split: sum.splits prod.splits option.splits)

text \<open>The part of the account that is one mount's: its file and its entry in the summary\<close>

definition mount_entry :: "folder \<Rightarrow> folder \<Rightarrow> int \<times> event list \<Rightarrow> outcome \<Rightarrow> bool" where
  "mount_entry before after g oc = (case convert (snd g) [] of
     Inl e \<Rightarrow> False
   | Inr (None, notes) \<Rightarrow> oc = Skipped (fst g) notes (length (snd g)) \<and>
       map_of after (mount_file (fst g)) = map_of before (mount_file (fst g))
   | Inr (Some (c, out), notes) \<Rightarrow> oc = Converted (fst g) \<lparr>r_file = mount_file (fst g), r_cfg = c\<rparr> \<and>
       (\<exists>t. ndjson c out = (t, None) \<and> map_of after (mount_file (fst g)) = Some t))"

lemma mount_done_entry:
  assumes "mount_done d g oc d'" "map_of d (mount_file (fst g)) = map_of before (mount_file (fst g))"
  shows "mount_entry before d' g oc"
  using assms by (auto simp: mount_done_def mount_entry_def update_conv' split: sum.splits prod.splits option.splits)

lemma mount_done_frame:
  assumes "mount_done d g oc d'" "f \<noteq> mount_file (fst g)"
  shows "map_of d' f = map_of d f"
  using assms by (auto simp: mount_done_def update_conv' split: sum.splits prod.splits option.splits)

lemma mount_entry_cong:
  assumes "map_of d (mount_file (fst g)) = map_of d' (mount_file (fst g))"
  shows "mount_entry before d g oc = mount_entry before d' g oc"
  using assms by (simp add: mount_entry_def split: sum.splits prod.splits option.splits)

lemma mounts_account:
  assumes "runE mount_step (before, []) gs = ((after, summary), None)" "distinct (map fst gs)"
  shows "list_all2 (mount_entry before after) gs summary \<and>
    (\<forall>f. f \<notin> (\<lambda>g. mount_file (fst g)) ` set gs \<longrightarrow> map_of after f = map_of before f)"
proof -
  let ?P = "\<lambda>gs (s :: folder \<times> outcome list). list_all2 (mount_entry before (fst s)) gs (snd s) \<and>
    (\<forall>f. f \<notin> (\<lambda>g. mount_file (fst g)) ` set gs \<longrightarrow> map_of (fst s) f = map_of before f)"
  have "?P gs (after, summary)"
    using assms(1)
  proof (rule runE_invariant)
    fix ys x zs s s'
    assume gs: "gs = ys @ x # zs" and p: "?P ys s" and st: "mount_step s x = (s', None)"
    obtain oc where oc: "mount_done (fst s) x oc (fst s')" "snd s' = snd s @ [oc]"
      using st mount_step_done [of "fst s" "snd s" x "fst s'" "snd s'"] by auto
    have new: "mount_file (fst x) \<notin> (\<lambda>g. mount_file (fst g)) ` set ys"
    proof -
      have "fst x \<notin> fst ` set ys" using assms(2) gs by simp
      then show ?thesis by (auto simp: image_iff)
    qed
    then have "map_of (fst s) (mount_file (fst x)) = map_of before (mount_file (fst x))" using p by blast
    with oc(1) have "mount_entry before (fst s') x oc" by (rule mount_done_entry)
    moreover have "list_all2 (mount_entry before (fst s')) ys (snd s)"
    proof (rule list.rel_mono_strong [of "mount_entry before (fst s)"])
      fix g oc' assume "g \<in> set ys" and e: "mount_entry before (fst s) g oc'"
      then have "mount_file (fst g) \<noteq> mount_file (fst x)" using new by (metis (no_types, lifting) image_eqI)
      with e show "mount_entry before (fst s') g oc'"
        using mount_entry_cong [OF mount_done_frame [OF oc(1), of "mount_file (fst g)"]] by blast
    qed (use p in simp)
    ultimately show "?P (ys @ [x]) s'"
      using p oc(2) mount_done_frame [OF oc(1)] by (simp add: list_all2_appendI)
  qed simp
  then show ?thesis by simp
qed

text \<open>A file is whole when every event has the keys of a record.\<close>

lemma ndjson_whole:
  assumes "list_all (\<lambda>e. list_all (\<lambda>k. e k \<noteq> None) [''task'', ''ev'', ''lk'', ''ts'', ''cpu'', ''pid'', ''seq'']) out"
  shows "snd (ndjson c out) = None"
proof -
  have r: "\<exists>t. record_line i e = Inr t" if "e \<in> set out" for i e
  proof -
    have "list_all (\<lambda>k. e k \<noteq> None) [''task'', ''ev'', ''lk'', ''ts'', ''cpu'', ''pid'', ''seq'']" using assms that by (simp add: list_all_iff)
    then show ?thesis by (auto simp: record_line_def json_of_event_def getv_def)
  qed
  have "snd (say_all (map (\<lambda>(i, e). say_result (record_line i e)) (enumerate n out))) = None" for n
    using r
  proof (induction out arbitrary: n)
    case (Cons e out)
    from Cons.prems obtain t where "record_line n e = Inr t" by (meson list.set_intros(1))
    then show ?case using Cons.IH [of "Suc n"] Cons.prems
      by (cases "say_all (map (\<lambda>(i, e). say_result (record_line i e)) (enumerate (Suc n) out))") simp
  qed simp
  from this [of 1] show ?thesis
    by (cases "say_all (map (\<lambda>(i, e). say_result (record_line i e)) (enumerate 1 out))") (simp add: ndjson_def)
qed

section \<open>The whole run\<close>

lemma sorted_items:
  assumes "group_by_id evs = Inr byid"
  defines "gs \<equiv> sort_key fst byid"
  shows "gs = map (\<lambda>mid. (mid, mount_events evs mid)) (map fst gs)" "sorted_wrt (<) (map fst gs)"
    "set (map fst gs) = {mid. mount_events evs mid \<noteq> []}" "distinct (map fst gs)"
proof -
  note by_id = group_by_id_groups [OF assms(1)]
  have d: "distinct (map fst gs)" using by_id(2) by (metis distinct_map distinct_sort gs_def set_sort)
  then show "distinct (map fst gs)" .
  have "sorted (map fst gs)" by (simp add: gs_def)
  with d show "sorted_wrt (<) (map fst gs)" by (simp add: strict_sorted_iff)
  have "snd g = mount_events evs (fst g)" if "g \<in> set gs" for g
  proof -
    have "map_of byid (fst g) = Some (snd g)" using that by_id(2) by (simp add: gs_def)
    then show ?thesis using by_id(1) [of "fst g"] by (auto split: if_splits)
  qed
  then show "gs = map (\<lambda>mid. (mid, mount_events evs mid)) (map fst gs)"
    by (metis (no_types, lifting) comp_apply map_idI map_map prod.collapse)
  have "fst ` set byid = dom (map_of byid)" by (simp add: dom_map_of_conv_image_fst)
  also have "\<dots> = {mid. mount_events evs mid \<noteq> []}" using by_id(1) by (auto split: if_splits)
  finally show "set (map fst gs) = {mid. mount_events evs mid \<noteq> []}" by (simp add: gs_def)
qed

lemma grouped_events: "grouped content = Inr (evs, byid) \<longleftrightarrow> parse content = Inr evs \<and> group_by_id evs = Inr byid"
  by (auto simp: grouped_def)

text \<open>
  C9: when no exception ends the run, the events of the dump are divided among the mounts, in the order of
  their ids and each in file order; every mount is either skipped, and no file of its own is written, or
  its file holds the whole of its NDJSON text. The summary lists the mounts in that order, the first line
  printed counts them, the others are one per converted mount, and no other file changes.
\<close>

theorem main_accounts:
  assumes "main content outdir before = ((after, printed), None)"
  shows "\<exists>evs gs summary. parse content = Inr evs \<and>
    gs = map (\<lambda>mid. (mid, mount_events evs mid)) (map fst gs) \<and>
    sorted_wrt (<) (map fst gs) \<and> set (map fst gs) = {mid. mount_events evs mid \<noteq> []} \<and>
    list_all2 (mount_entry before after) gs summary \<and>
    map_of after ''summary.json'' = Some (dump_indent 0 (JList (map json_of_outcome summary))) \<and>
    (\<forall>f. f \<noteq> ''summary.json'' \<and> f \<notin> mount_file ` fst ` set gs \<longrightarrow> map_of after f = map_of before f) \<and>
    printed = headline (length evs) (length gs) (length (converted_of summary)) (length gs - length (converted_of summary)) outdir #
      map report_line (converted_of summary)"
proof -
  from assms obtain evs byid where g: "grouped content = Inr (evs, byid)"
    by (auto simp: main_def split: sum.splits)
  define gs where "gs = sort_key fst byid"
  from g have byid: "parse content = Inr evs" "group_by_id evs = Inr byid" by (simp_all add: grouped_events)
  from assms g obtain d summary where run: "runE mount_step (before, []) gs = ((d, summary), None)"
    and after: "after = AList.update ''summary.json'' (dump_indent 0 (JList (map json_of_outcome summary))) d"
    and printed: "printed = headline (length evs) (length byid) (length (converted_of summary))
      (length summary - length (converted_of summary)) outdir # map report_line (converted_of summary)"
    by (auto simp: main_def gs_def Let_def split: prod.splits option.splits)
  note items = sorted_items [OF byid(2), folded gs_def]
  from mounts_account [OF run items(4)] have acc: "list_all2 (mount_entry before d) gs summary"
    "\<And>f. f \<notin> (\<lambda>g. mount_file (fst g)) ` set gs \<Longrightarrow> map_of d f = map_of before f" by blast+
  have "list_all2 (mount_entry before after) gs summary"
    using acc(1) by (rule list_all2_mono) (subst mount_entry_cong [of after _ d]; simp add: after update_conv' del: dump_indent.simps)
  moreover have "map_of after f = map_of before f" if "f \<noteq> ''summary.json''" "f \<notin> mount_file ` fst ` set gs" for f
    using acc(2) [of f] that by (simp add: after update_conv' image_image del: dump_indent.simps)
  moreover have "map_of after ''summary.json'' = Some (dump_indent 0 (JList (map json_of_outcome summary)))"
    by (simp add: after update_conv' del: dump_indent.simps)
  moreover have "length summary = length gs" using acc(1) by (simp add: list_all2_lengthD)
  moreover have "length byid = length gs" by (simp add: gs_def)
  ultimately show ?thesis using byid(1) items(1-3) printed by (metis (no_types, lifting))
qed

definition sample_dump :: string where
  "sample_dump = '' umount-1 [000] ..... 2.5: mnt_umount_tree: id=7 pid=10 sync=0 count=2 cpu=1 seq=3'' @ nl"

definition sample_events :: "event list" where
  "sample_events = [[''n'' \<mapsto> VInt 0, ''ev'' \<mapsto> VStr ''mnt_umount_tree'', ''ts'' \<mapsto> VInt 2500000, ''comm'' \<mapsto> VStr ''umount''] ++
     [''id'' \<mapsto> VInt 7, ''pid'' \<mapsto> VInt 10, ''sync'' \<mapsto> VInt 0, ''count'' \<mapsto> VInt 2, ''cpu'' \<mapsto> VInt 1, ''seq'' \<mapsto> VInt 3]]"

lemma show_samples: "show_int 7 = ''7''" "show_int 10 = ''10''" "show_int 0 = ''0''" "show_int 2 = ''2''" "show_int 1 = ''1''" "show_int 3 = ''3''"
  "show_int 500000 = ''500000''"
  by (simp_all add: show_int_def show_nat.simps digit_char_def) code_simp+

lemma sample_dump_parse: "parse sample_dump = Inr sample_events"
proof -
  let ?l = "'' umount-1 [000] ..... 2.5: mnt_umount_tree: id=7 pid=10 sync=0 count=2 cpu=1 seq=3''"
  have ls: "file_lines sample_dump = [?l]" by code_simp
  have "map_option (\<lambda>m. map (group_str m) [1, 4, 5, 6, 7]) (re_match LINE ?l) =
    Some [''umount'', ''2'', ''5'', ''mnt_umount_tree'', ''id=7 pid=10 sync=0 count=2 cpu=1 seq=3'']" by code_simp
  then obtain m where m: "re_match LINE ?l = Some m" "group_str m 1 = ''umount''" "group_str m 4 = ''2''" "group_str m 5 = ''5''"
    "group_str m 6 = ''mnt_umount_tree''" "group_str m 7 = ''id=7 pid=10 sync=0 count=2 cpu=1 seq=3''" by auto
  have "split_ws ''id=7 pid=10 sync=0 count=2 cpu=1 seq=3'' = [''id=7'', ''pid=10'', ''sync=0'', ''count=2'', ''cpu=1'', ''seq=3'']"
    "partition ''id=7'' ''='' = (''id'', ''='', ''7'')" "partition ''pid=10'' ''='' = (''pid'', ''='', ''10'')"
    "partition ''sync=0'' ''='' = (''sync'', ''='', ''0'')" "partition ''count=2'' ''='' = (''count'', ''='', ''2'')"
    "partition ''cpu=1'' ''='' = (''cpu'', ''='', ''1'')" "partition ''seq=3'' ''='' = (''seq'', ''='', ''3'')" by code_simp+
  moreover have "py_int ''7'' = Inr 7" "py_int ''10'' = Inr 10" "py_int ''0'' = Inr 0" "py_int ''2'' = Inr 2" "py_int ''1'' = Inr 1"
    "py_int ''3'' = Inr 3" and us: "py_int ''500000'' = Inr 500000"
    using py_int_show_int [of 7] py_int_show_int [of 10] py_int_show_int [of 0] py_int_show_int [of 2] py_int_show_int [of 1]
      py_int_show_int [of 3] py_int_show_int [of 500000]
    by (simp_all add: show_samples)
  ultimately have kv: "parse_kv (group_str m 7) = Inr [''id'' \<mapsto> VInt 7, ''pid'' \<mapsto> VInt 10, ''sync'' \<mapsto> VInt 0, ''count'' \<mapsto> VInt 2,
      ''cpu'' \<mapsto> VInt 1, ''seq'' \<mapsto> VInt 3]" and ts: "py_int ''2'' = Inr 2"
    by (simp_all add: m parse_kv_def)
  have "take 6 (ljust_with CHR ''0'' 6 ''5'') = ''500000''" "strip ''umount'' = ''umount''" by code_simp+
  then show ?thesis by (simp add: parse_def ls parse_line_def m(1,3-5) m(2) [unfolded One_nat_def] kv ts us sample_events_def)
qed

theorem main_accounts_witness:
  "\<exists>after printed summary. main sample_dump ''out'' [] = ((after, printed), None) \<and>
     list_all2 (mount_entry [] after) [(7, sample_events)] summary"
proof -
  have g: "group_by_id sample_events = Inr [(7, sample_events)]"
    by (simp add: group_by_id_def sample_events_def geti_def)
  have "(case convert sample_events [] of Inr (Some (c, out), _) \<Rightarrow>
    list_all (\<lambda>e. list_all (\<lambda>k. e k \<noteq> None) [''task'', ''ev'', ''lk'', ''ts'', ''cpu'', ''pid'', ''seq'']) out | _ \<Rightarrow> False)" by code_simp
  then obtain c out ns where c: "convert sample_events [] = Inr (Some (c, out), ns)"
    "list_all (\<lambda>e. list_all (\<lambda>k. e k \<noteq> None) [''task'', ''ev'', ''lk'', ''ts'', ''cpu'', ''pid'', ''seq'']) out"
    by (auto split: sum.splits prod.splits option.splits)
  from ndjson_whole [OF c(2), of c] obtain t where t: "ndjson c out = (t, None)" by (cases "ndjson c out") auto
  define r where "r = main sample_dump ''out'' []"
  have "snd r = None" by (simp add: r_def main_def grouped_def sample_dump_parse g mount_step_def c(1) t Let_def)
  then obtain after printed where m: "main sample_dump ''out'' [] = ((after, printed), None)" by (cases r) (auto simp: r_def)
  from main_accounts [OF m] obtain gs summary where s: "gs = map (\<lambda>mid. (mid, mount_events sample_events mid)) (map fst gs)"
    "sorted_wrt (<) (map fst gs)" "set (map fst gs) = {mid. mount_events sample_events mid \<noteq> []}" "list_all2 (mount_entry [] after) gs summary"
    by (auto simp: sample_dump_parse)
  have "set (map fst gs) = {7}" unfolding s(3) by (auto simp: mount_events_def sample_events_def)
  with s(2) have "map fst gs = [7]" by (intro strict_sorted_equal) simp_all
  moreover have "mount_events sample_events 7 = sample_events" by (simp add: mount_events_def sample_events_def)
  ultimately have "gs = [(7, sample_events)]" using s(1) by simp
  with m s(4) show ?thesis by blast
qed

text \<open>A run that an exception ends has printed nothing, and the summary is as it was.\<close>

theorem main_stops:
  assumes "main content outdir before = ((after, printed), Some e)"
  shows "printed = []" "map_of after ''summary.json'' = map_of before ''summary.json''"
proof -
  have step: "map_of (fst s') ''summary.json'' = map_of (fst s) ''summary.json''"
    if "mount_step s g = (s', stop)" for s g s' stop
    using that by (cases s; cases g) (auto simp: mount_step_def update_conv' split: sum.splits prod.splits option.splits)
  have all: "runE mount_step s gs = (s', stop) \<Longrightarrow> map_of (fst s') ''summary.json'' = map_of (fst s) ''summary.json''" for s gs s' stop
  proof (induction gs arbitrary: s)
    case (Cons g gs)
    then show ?case using step [of s g] by (cases "mount_step s g") (force split: option.splits)
  qed simp
  show "printed = []" using assms by (auto simp: main_def Let_def split: sum.splits prod.splits option.splits)
  show "map_of after ''summary.json'' = map_of before ''summary.json''"
    using assms all [of "(before, [])"]
    by (fastforce simp: main_def Let_def split: sum.splits prod.splits option.splits)
qed

end
