(* ===== verification/Py_Lines.thy ===== *)
theory Py_Lines
  imports Py_Str
begin

text \<open>
  Searching a text line by line: a pattern without a newline is found in one line or not at all, so that
  a search passes over whole lines without it.
\<close>

lemma str_in_Nil [simp]: "p \<noteq> [] \<Longrightarrow> \<not> str_in p []"
  by (simp add: str_in_def)

lemma prefix_nl: "cnl \<notin> set p \<Longrightarrow> prefix p (a @ cnl # b) \<longleftrightarrow> prefix p a"
proof (induction p arbitrary: a)
  case (Cons x p)
  then show ?case by (cases a) auto
qed simp

lemma str_in_Cons: "str_in p (x # xs) \<longleftrightarrow> prefix p (x # xs) \<or> str_in p xs"
  by (auto simp: str_in_def)

lemma str_in_nl: "cnl \<notin> set p \<Longrightarrow> p \<noteq> [] \<Longrightarrow> str_in p (a @ cnl # b) \<longleftrightarrow> str_in p a \<or> str_in p b"
proof (induction a)
  case Nil
  then have "\<not> prefix p (cnl # b)" by (cases p) auto
  with Nil show ?case by (simp add: str_in_Cons)
next
  case (Cons x a)
  then show ?case using prefix_nl [of p "x # a" b] by (auto simp: str_in_Cons)
qed

text \<open>A text that is empty or ends with a newline\<close>

definition whole :: "string \<Rightarrow> bool" where
  "whole pre = (pre = [] \<or> last pre = cnl)"

lemma whole_cases: "whole pre \<Longrightarrow> pre = [] \<or> (\<exists>q. pre = q @ nl)"
  by (cases pre rule: rev_cases) (auto simp: whole_def)

lemma str_in_whole: "whole pre \<Longrightarrow> cnl \<notin> set p \<Longrightarrow> p \<noteq> [] \<Longrightarrow> str_in p (pre @ s) \<longleftrightarrow> str_in p pre \<or> str_in p s"
proof -
  assume w: "whole pre" and p: "cnl \<notin> set p" "p \<noteq> []"
  show ?thesis
  proof (cases "pre = []")
    case True
    with p show ?thesis by (simp add: str_in_def)
  next
    case False
    with whole_cases [OF w] obtain q where "pre = q @ nl" by blast
    with str_in_nl [OF p, of q] str_in_nl [OF p, of q "[]"] p show ?thesis by (auto simp: str_in_def)
  qed
qed

lemma find_whole:
  "whole pre \<Longrightarrow> cnl \<notin> set p \<Longrightarrow> \<not> str_in p pre \<Longrightarrow> prefix p s \<Longrightarrow> p \<noteq> [] \<Longrightarrow> str_find p (pre @ s) = Some (length pre)"
proof (induction pre)
  case Nil
  then show ?case by (cases s) auto
next
  case (Cons x pre)
  obtain q where q: "x # pre = q @ nl" using whole_cases [OF Cons.prems(1)] by blast
  have "prefix p (x # pre @ s) \<longleftrightarrow> prefix p q" using prefix_nl [OF Cons.prems(2), of q s] q by (metis append.assoc append_Cons append_Nil)
  moreover have "prefix p q \<longleftrightarrow> prefix p (x # pre)" using prefix_nl [OF Cons.prems(2), of q "[]"] q by simp
  ultimately have "\<not> prefix p (x # pre @ s)" using Cons.prems(3) by (simp add: str_in_Cons)
  moreover have "whole pre" using Cons.prems(1) by (auto simp: whole_def split: if_splits)
  ultimately show ?case using Cons by (simp add: str_in_Cons)
qed
text \<open>The lines of a text of lines\<close>

definition lines_text :: "string list \<Rightarrow> string" where
  "lines_text ls = concat (map (\<lambda>l. l @ nl) ls)"

lemma splitlines_text: "list_all (list_all (\<lambda>c. \<not> is_linebreak c)) ls \<Longrightarrow> splitlines (lines_text ls) = ls"
proof (induction ls)
  case (Cons l ls)
  then show ?case using splitlines_append_nl [of l "lines_text ls"] by (simp add: lines_text_def list_all_iff)
qed (simp add: lines_text_def)

lemma lines_text_append: "lines_text (xs @ ys) = lines_text xs @ lines_text ys"
  by (simp add: lines_text_def)

lemma whole_lines: "whole (lines_text ls)"
  by (cases ls rule: rev_cases) (simp_all add: whole_def lines_text_def)

text \<open>Tokens\<close>

lemma split_ws_skip: "split_ws s = split_ws (dropWhile is_space s)"
proof -
  have "dropWhile is_space (dropWhile is_space s) = dropWhile is_space s" by simp
  then show ?thesis by (simp only: split_ws.simps [of s] split_ws.simps [of "dropWhile is_space s"])
qed

lemma split_ws_word:
  assumes "list_all (\<lambda>c. \<not> is_space c) w" "w \<noteq> []" "rest = [] \<or> is_space (hd rest)"
  shows "split_ws (w @ rest) = w # split_ws rest"
proof -
  obtain c cs where w: "w = c # cs" "\<not> is_space c" using assms(1,2) by (cases w) auto
  have d: "dropWhile is_space (w @ rest) = w @ rest" using w by simp
  have n: "x \<in> set w \<Longrightarrow> \<not> is_space x" for x using assms(1) by (auto simp: list_all_iff)
  have t: "takeWhile (\<lambda>c. \<not> is_space c) (w @ rest) = w" "dropWhile (\<lambda>c. \<not> is_space c) (w @ rest) = rest"
    using n assms(3) by (cases rest; simp add: takeWhile_append2 dropWhile_append2)+
  show ?thesis by (subst split_ws.simps) (simp add: d t Let_def w(1)[symmetric] del: append_Cons, simp add: w)
qed

end
