(* ===== verification/Py_Re_First.thy ===== *)
theory Py_Re_First
  imports Py_Re Py_Lines
begin

text \<open>
  Reasoning about the match that Python returns: \<open>hits r s t\<close> says that \<open>t\<close> is the first state the
  backtracking matcher reaches, with one rule for each construct; \<open>search_hits\<close> and \<open>match_hits\<close>
  carry it to the functions of the module.
\<close>

definition hits :: "rx \<Rightarrow> mstate \<Rightarrow> mstate \<Rightarrow> bool" where
  "hits r s t = (\<exists>ts. mt r s = t # ts)"

lemma hits_eps: "hits Eps s s"
  by (simp add: hits_def)

lemma hits_lit: "hits (Lit w) (pre, w @ rest, g) (rev w @ pre, rest, g)"
  by (simp add: hits_def)

lemma hits_seq: "hits r s u \<Longrightarrow> hits q u t \<Longrightarrow> hits (Seq r q) s t"
  by (auto simp: hits_def)

lemma hits_alt1: "hits r s t \<Longrightarrow> hits (Alt r q) s t"
  by (auto simp: hits_def)

lemma hits_alt2: "mt r s = [] \<Longrightarrow> hits q s t \<Longrightarrow> hits (Alt r q) s t"
  by (auto simp: hits_def)

lemma hits_grp: "hits r s (p, w, g) \<Longrightarrow> hits (Grp n r) s (p, w, g(n \<mapsto> span s (p, w, g)))"
  by (auto simp: hits_def)

lemma hits_eol: "rest = [] \<or> rest = nl \<Longrightarrow> hits Eol (pre, rest, g) (pre, rest, g)"
  by (auto simp: hits_def)

lemma hits_greedy:
  "list_all c w \<Longrightarrow> rest = [] \<or> \<not> c (hd rest) \<Longrightarrow> hits (Star c) (pre, w @ rest, g) (rev w @ pre, rest, g)"
proof (induction w arbitrary: pre)
  case Nil
  then show ?case by (cases rest) (auto simp: hits_def)
next
  case (Cons x w)
  then have "hits (Star c) (x # pre, w @ rest, g) (rev w @ x # pre, rest, g)" "c x" by simp_all
  then show ?case by (auto simp: hits_def)
qed

lemma hits_plus:
  "list_all c w \<Longrightarrow> w \<noteq> [] \<Longrightarrow> rest = [] \<or> \<not> c (hd rest) \<Longrightarrow> hits (Plus c) (pre, w @ rest, g) (rev w @ pre, rest, g)"
proof -
  assume w: "list_all c w" "w \<noteq> []" and r: "rest = [] \<or> \<not> c (hd rest)"
  then obtain x xs where x: "w = x # xs" "c x" "list_all c xs" by (cases w) auto
  have "hits (Cls c) (pre, w @ rest, g) (x # pre, xs @ rest, g)" using x by (simp add: hits_def)
  moreover have "hits (Star c) (x # pre, xs @ rest, g) (rev xs @ x # pre, rest, g)" by (rule hits_greedy [OF x(3) r])
  ultimately show ?thesis using hits_seq x(1) by fastforce
qed

text \<open>A greedy \<^verbatim>\<open>.*\<close> under \<^verbatim>\<open>re.S\<close> before a character runs to its last occurrence.\<close>

lemma star_step:
  "mt (Seq (Star all_char) q) (pre, x # xs, g) = mt (Seq (Star all_char) q) (x # pre, xs, g) @ mt q (pre, x # xs, g)"
  by (simp add: all_char_def)

lemma star_none: "d \<notin> set ws \<Longrightarrow> mt (Seq (Star all_char) (Lit [d])) (pre, ws, g) = []"
proof (induction ws arbitrary: pre)
  case (Cons x ws)
  then show ?case by (simp add: star_step del: mt.simps(5))
qed simp

lemma hits_last:
  "d \<notin> set ws \<Longrightarrow> hits (Seq (Star all_char) (Lit [d])) (pre, x @ d # ws, g) (d # rev x @ pre, ws, g)"
proof (induction x arbitrary: pre)
  case Nil
  then show ?case by (simp add: hits_def star_step star_none del: mt.simps(5))
next
  case (Cons c x)
  from Cons.IH [OF Cons.prems, of "c # pre"] show ?case by (auto simp: hits_def star_step simp del: mt.simps(5))
qed

text \<open>The way to a state of the matcher\<close>

lemma mt_SeqE: "t \<in> set (mt (Seq r q) s) \<Longrightarrow> (\<And>u. u \<in> set (mt r s) \<Longrightarrow> t \<in> set (mt q u) \<Longrightarrow> P) \<Longrightarrow> P"
  by auto

lemma mt_GrpE:
  "t \<in> set (mt (Grp n r) s) \<Longrightarrow> (\<And>u. u \<in> set (mt r s) \<Longrightarrow> fst u = fst t \<Longrightarrow> fst (snd u) = fst (snd t) \<Longrightarrow> P) \<Longrightarrow> P"
  by (auto split: prod.splits)

lemma match_hits: "hits r ([], w, Map.empty) t \<Longrightarrow> re_match r w = Some (mk_match ([], w, Map.empty) t)"
  by (auto simp: hits_def re_match_def)

lemma search_hits: "hits r ([], w, Map.empty) t \<Longrightarrow> re_search r w = Some (mk_match ([], w, Map.empty) t)"
  by (auto simp: hits_def re_search_def scan.simps [of r False "[]"])

section \<open>Lazy repetition\<close>

text \<open>The text a group spans, and the groups a match keeps\<close>

lemma span_append: "span (pre, w @ rest, g) (rev w @ pre, rest', g') = w"
  by (simp add: span_def)

lemma span_snoc: "span (pre, w @ rest, g) (c # rev w @ pre, rest', g') = w @ [c]"
  using span_append [of pre "w @ [c]" rest g rest' g'] by (simp add: span_def)

lemma rep_lazy_head: "\<exists>ts. rep_lazy c pre rest g = (pre, rest, g) # ts"
  by (cases rest) auto

lemma rep_lazy_split:
  "list_all c v \<Longrightarrow> \<exists>us ts. rep_lazy c pre (v @ rest) g = us @ (rev v @ pre, rest, g) # ts \<and>
     (\<forall>u\<in>set us. \<exists>a b. v = a @ b \<and> b \<noteq> [] \<and> u = (rev a @ pre, b @ rest, g))"
proof (induction v arbitrary: pre)
  case Nil
  from rep_lazy_head [of c pre rest g] obtain ts where "rep_lazy c pre rest g = (pre, rest, g) # ts" by blast
  then show ?case by (intro exI [of _ "[]"] exI [of _ ts]) simp
next
  case (Cons x v)
  then obtain us ts where u: "rep_lazy c (x # pre) (v @ rest) g = us @ (rev v @ x # pre, rest, g) # ts"
    "\<forall>u\<in>set us. \<exists>a b. v = a @ b \<and> b \<noteq> [] \<and> u = (rev a @ x # pre, b @ rest, g)" by force
  have "\<exists>a b. x # v = a @ b \<and> b \<noteq> [] \<and> w = (rev a @ pre, b @ rest, g)" if w: "w \<in> set ((pre, (x # v) @ rest, g) # us)" for w
  proof (cases "w = (pre, (x # v) @ rest, g)")
    case True
    then show ?thesis by (intro exI [of _ "[]"] exI [of _ "x # v"]) simp
  next
    case False
    with w u(2) obtain a b where "v = a @ b" "b \<noteq> []" "w = (rev a @ x # pre, b @ rest, g)" by auto
    then show ?thesis by (intro exI [of _ "x # a"] exI [of _ b]) simp
  qed
  moreover have "rep_lazy c pre ((x # v) @ rest) g = ((pre, (x # v) @ rest, g) # us) @ (rev (x # v) @ pre, rest, g) # ts"
    using Cons.prems u(1) by simp
  ultimately show ?case by blast
qed

text \<open>A lazy \<^verbatim>\<open>(.*?)\<close> stops where what follows it first matches.\<close>

lemma hits_lazy_in:
  assumes "list_all c v" "\<And>a b g. v = a @ b \<Longrightarrow> b \<noteq> [] \<Longrightarrow> mt q (rev a @ pre, b @ rest, g) = []"
    and "hits q (rev v @ pre, rest, g(n \<mapsto> v)) t"
  shows "hits (Seq (Grp n (Rep False c)) q) (pre, v @ rest, g) t"
proof -
  let ?f = "\<lambda>u. case u of (p, w, g') \<Rightarrow> (p, w, g'(n \<mapsto> span (pre, v @ rest, g) u))"
  from rep_lazy_split [OF assms(1), of pre rest g] obtain us ts where
    r: "rep_lazy c pre (v @ rest) g = us @ (rev v @ pre, rest, g) # ts" and
    u: "\<forall>u\<in>set us. \<exists>a b. v = a @ b \<and> b \<noteq> [] \<and> u = (rev a @ pre, b @ rest, g)" by blast
  have "mt q (?f u) = []" if "u \<in> set us" for u
  proof -
    obtain a b where "v = a @ b" "b \<noteq> []" "u = (rev a @ pre, b @ rest, g)" using u \<open>u \<in> set us\<close> by blast
    with assms(2) [of a b] show ?thesis by simp
  qed
  then have "concat (map (mt q) (map ?f us)) = []" by simp
  moreover have "?f (rev v @ pre, rest, g) = (rev v @ pre, rest, g(n \<mapsto> v))"
    using span_append [of pre v rest g rest g] by simp
  moreover have "mt (Grp n (Rep False c)) (pre, v @ rest, g) = map ?f us @ ?f (rev v @ pre, rest, g) # map ?f ts"
    by (simp add: r)
  ultimately show ?thesis using assms(3) by (auto simp only: hits_def mt.simps(5) map_append concat_append append_Nil list.map concat.simps append_Cons)
qed

lemma hits_lazy:
  assumes "\<And>a b g. v = a @ b \<Longrightarrow> b \<noteq> [] \<Longrightarrow> mt q (rev a @ pre, b @ rest, g) = []"
    and "hits q (rev v @ pre, rest, g(n \<mapsto> v)) t"
  shows "hits (Seq (Grp n (Rep False all_char)) q) (pre, v @ rest, g) t"
  by (rule hits_lazy_in [OF _ assms]) (simp add: all_char_def list_all_iff)

section \<open>Texts without a match\<close>

text \<open>No match starts inside \<open>p\<close> when \<open>rest\<close> follows it.\<close>

fun mute :: "rx \<Rightarrow> string \<Rightarrow> string \<Rightarrow> bool" where
  "mute r [] rest = True"
| "mute r (x # p) rest = ((\<forall>pre. mt r (pre, x # p @ rest, Map.empty) = []) \<and> mute r p rest)"

lemma mute_append: "mute r (a @ b) rest \<longleftrightarrow> mute r a (b @ rest) \<and> mute r b rest"
  by (induction a) auto

lemma scan_mute:
  "mute r p rest \<Longrightarrow> hits r (rev p @ pre, rest, Map.empty) t \<Longrightarrow> fst t \<noteq> rev p @ pre \<Longrightarrow>
   scan r adv pre (p @ rest) = Some (mk_match (rev p @ pre, rest, Map.empty) t)"
proof (induction p arbitrary: adv pre)
  case Nil
  then show ?case by (auto simp: scan.simps [of r adv pre] hits_def)
next
  case (Cons x p)
  have "mt r (pre, (x # p) @ rest, Map.empty) = []" using Cons.prems(1) by simp
  moreover have "scan r False (x # pre) (p @ rest) = Some (mk_match (rev p @ x # pre, rest, Map.empty) t)"
    by (rule Cons.IH) (use Cons.prems in auto)
  ultimately show ?case by (simp add: scan.simps [of r adv pre])
qed

lemma scan_mute_none: "mute r p [] \<Longrightarrow> (\<And>pre. mt r (pre, [], Map.empty) = []) \<Longrightarrow> scan r adv pre p = None"
proof (induction p arbitrary: adv pre)
  case (Cons x p)
  then show ?case by (simp add: scan.simps [of r adv pre])
next
  case Nil
  then show ?case by (simp add: scan.simps [of r adv pre])
qed

lemma search_mute:
  "mute r p rest \<Longrightarrow> hits r (rev p, rest, Map.empty) t \<Longrightarrow> fst t \<noteq> rev p \<Longrightarrow>
   re_search r (p @ rest) = Some (mk_match (rev p, rest, Map.empty) t)"
  using scan_mute [of r p rest "[]" t False] by (simp add: re_search_def)

text \<open>Where the literal a pattern begins with does not occur\<close>

lemma mute_lit:
  assumes "whole p" "cnl \<notin> set w" "w \<noteq> []" "\<not> str_in w p"
  shows "mute (Seq (Lit w) q) p rest"
  using assms(1,4)
proof (induction p)
  case (Cons x p)
  have "\<not> prefix w (x # p @ rest)"
  proof
    assume p: "prefix w (x # p @ rest)"
    obtain r where r: "x # p = r @ nl" using whole_cases [OF Cons.prems(1)] by blast
    with p prefix_nl [OF assms(2), of r rest] have "prefix w r" by (metis append.assoc append_Cons append_Nil)
    then have "prefix w (x # p)" using r by simp
    with Cons.prems(2) show False by (simp add: str_in_Cons)
  qed
  moreover have "whole p" using Cons.prems(1) by (auto simp: whole_def split: if_splits)
  moreover have "\<not> str_in w p" using Cons.prems(2) by (simp add: str_in_Cons)
  ultimately show ?case using Cons.IH by simp
qed simp

text \<open>Splitting a text into pieces without a match, between separators that match\<close>

definition glued :: "(string \<times> string) list \<Rightarrow> string" where
  "glued ps = concat (map (\<lambda>(s, p). s @ p) ps)"

lemma glued_simps [simp]: "glued [] = []" "glued ((s, p) # ps) = s @ p @ glued ps"
  by (simp_all add: glued_def)

lemma split_glued_from:
  assumes "\<And>pre. mt r (pre, [], Map.empty) = []"
    and "mute r p (glued ps)" "\<And>s q qs rs. ps = rs @ (s, q) # qs \<Longrightarrow> s \<noteq> [] \<and> mute r q (glued qs) \<and>
      (\<forall>pre. hits r (pre, s @ q @ glued qs, Map.empty) (rev s @ pre, q @ glued qs, G s))"
  shows "\<exists>ms. cut_at (rev pre @ p @ glued ps) (length pre) (finditer_from r adv pre (p @ glued ps)) = (p, ms) \<and>
    map (\<lambda>(m, t). (m_groups m, t)) ms = map (\<lambda>(s, q). (G s, q)) ps"
  using assms(2,3)
proof (induction ps arbitrary: adv pre p)
  case Nil
  then show ?case using assms(1) scan_mute_none [of r p adv pre] by (simp add: finditer_from.simps [of r adv pre])
next
  case (Cons sq qs)
  obtain s q where sq: "sq = (s, q)" by (cases sq)
  have s: "s \<noteq> []" "mute r q (glued qs)" and
    h: "hits r (rev p @ pre, s @ q @ glued qs, Map.empty) (rev s @ rev p @ pre, q @ glued qs, G s)"
    using Cons.prems(2) [of "[]" s q qs] sq by auto
  have sc: "scan r adv pre (p @ s @ q @ glued qs) =
      Some (mk_match (rev p @ pre, s @ q @ glued qs, Map.empty) (rev s @ rev p @ pre, q @ glued qs, G s))"
    by (rule scan_mute) (use Cons.prems(1) h s(1) in \<open>auto simp: sq\<close>)
  have m: "mk_match (rev p @ pre, s @ q @ glued qs, Map.empty) (rev s @ rev p @ pre, q @ glued qs, G s) =
    \<lparr>m_pre = rev pre @ p, m_text = s, m_post = q @ glued qs, m_groups = G s\<rparr>"
    using span_append [of "rev p @ pre" s "q @ glued qs" Map.empty "q @ glued qs" "G s"] by (simp add: mk_match_def)
  let ?pre = "rev s @ rev p @ pre"
  have "\<exists>ms. cut_at (rev ?pre @ q @ glued qs) (length ?pre) (finditer_from r False ?pre (q @ glued qs)) = (q, ms) \<and>
    map (\<lambda>(m, t). (m_groups m, t)) ms = map (\<lambda>(s, q). (G s, q)) qs"
    by (rule Cons.IH [OF s(2)]) (use Cons.prems(2) [of "sq # _"] in auto)
  then obtain ms where ms: "cut_at (rev ?pre @ q @ glued qs) (length ?pre) (finditer_from r False ?pre (q @ glued qs)) = (q, ms)"
    "map (\<lambda>(m, t). (m_groups m, t)) ms = map (\<lambda>(s, q). (G s, q)) qs" by blast
  then show ?case
    using s(1) by (simp add: sq finditer_from.simps [of r adv pre] sc m add.commute add.left_commute)
qed

lemma split_glued:
  assumes "\<And>pre. mt r (pre, [], Map.empty) = []"
    and "mute r p (glued ps)" "\<And>s q qs rs. ps = rs @ (s, q) # qs \<Longrightarrow> s \<noteq> [] \<and> mute r q (glued qs) \<and>
      (\<forall>pre. hits r (pre, s @ q @ glued qs, Map.empty) (rev s @ pre, q @ glued qs, G s))"
  shows "\<exists>ms. re_split r (p @ glued ps) = (p, ms) \<and> map (\<lambda>(m, t). (m_groups m, t)) ms = map (\<lambda>(s, q). (G s, q)) ps"
  using split_glued_from [where pre = "[]" and adv = False, OF assms] by (simp add: re_split_def re_finditer_def)

end
