(* ===== verification/Tlc_Cfg.thy ===== *)
theory Tlc_Cfg
  imports Py_Json
begin

text \<open>
  The configuration files of TLC that the \<^verbatim>\<open>gen-cfgs.py\<close> scripts write, what the scripts that
  run TLC read out of them, and the loop all the generators share.

  A generator is a table from configuration names to entries and a function that turns an entry
  into the lines of its file. \<open>tlc_cfg\<close> is what such a file says: its comments, the
  specification, the constants (assigned with \<^verbatim>\<open>=\<close> or substituted with \<^verbatim>\<open><-\<close>), the invariants
  and the properties to check; \<open>read_cfg\<close> reads a file back. The locale \<open>cfg_table\<close> is the
  contract between a generator's table and its entries' lines; the generators interpret it.
\<close>

section \<open>Values of the tables\<close>

datatype pyval = PBool bool | PInt int | PStr string | PList "pyval list"

definition tf :: "bool \<Rightarrow> string" where
  "tf b = (if b then ''TRUE'' else ''FALSE'')"

text \<open>\<^verbatim>\<open>repr(v)\<close> and \<^verbatim>\<open>str(v)\<close>\<close>

fun py_repr :: "pyval \<Rightarrow> string" where
  "py_repr (PBool b) = (if b then ''True'' else ''False'')"
| "py_repr (PInt i) = show_int i"
| "py_repr (PStr s) = repr_str s"
| "py_repr (PList vs) = ''['' @ join '', '' (map py_repr vs) @ '']''"

fun py_str :: "pyval \<Rightarrow> string" where
  "py_str (PStr s) = s"
| "py_str v = py_repr v"

fun truthy :: "pyval \<Rightarrow> bool" where
  "truthy (PBool b) = b"
| "truthy (PInt i) = (i \<noteq> 0)"
| "truthy (PStr s) = (s \<noteq> [])"
| "truthy (PList vs) = (vs \<noteq> [])"

text \<open>\<^verbatim>\<open>d.get(k, v)\<close> and \<^verbatim>\<open>d[k]\<close> for dictionaries with string keys\<close>

definition get_or :: "(string, 'v) dict \<Rightarrow> string \<Rightarrow> 'v \<Rightarrow> 'v" where
  "get_or d k v = (case map_of d k of None \<Rightarrow> v | Some w \<Rightarrow> w)"

definition item :: "(string, 'v) dict \<Rightarrow> string \<Rightarrow> 'v result" where
  "item d k = dget (\<lambda>k. k) d k"

text \<open>\<^verbatim>\<open>s.lower()\<close> on ASCII\<close>

definition lower :: "string \<Rightarrow> string" where
  "lower s = map (\<lambda>c. if 65 \<le> code c \<and> code c \<le> 90 then char_of (code c + 32) else c) s"

text \<open>The TLA+ set of the printed elements: \<^verbatim>\<open>"{" + ", ".join(...) + "}"\<close>\<close>

definition braces :: "string list \<Rightarrow> string" where
  "braces xs = ''{'' @ join '', '' xs @ ''}''"

definition quoted :: "string \<Rightarrow> string" where
  "quoted s = dq @ s @ dq"

definition upto_strs :: "int \<Rightarrow> string list" where
  "upto_strs n = map show_int [1..n]"

section \<open>Lines\<close>

text \<open>\<^verbatim>\<open>f"  {k} = {v}"\<close>, \<^verbatim>\<open>f"  {k} <- {v}"\<close>, \<^verbatim>\<open>f"  {i}"\<close> and a comment line\<close>

definition asg :: "string \<Rightarrow> string \<Rightarrow> string" where
  "asg k v = ''  '' @ k @ '' = '' @ v"

definition sbst :: "string \<Rightarrow> string \<Rightarrow> string" where
  "sbst k v = ''  '' @ k @ '' <- '' @ v"

definition indent :: "string \<Rightarrow> string" where
  "indent i = ''  '' @ i"

definition remark :: "string \<Rightarrow> string" where
  "remark s = cbs # ''* '' @ s"

text \<open>The sections that are written only when there is something to put in them\<close>

definition opt_section :: "string \<Rightarrow> string list \<Rightarrow> string list" where
  "opt_section h xs = (if xs = [] then [] else h # map indent xs)"

text \<open>The loop over the fixes of a model: \<^verbatim>\<open>'FALSE' if f in off else 'TRUE'\<close>\<close>

definition switch_lines :: "string list \<Rightarrow> string list \<Rightarrow> string list" where
  "switch_lines fs off = map (\<lambda>f. asg f (if f \<in> set off then ''FALSE'' else ''TRUE'')) fs"

text \<open>\<^verbatim>\<open>write_text("\n".join(lines) + "\n")\<close>\<close>

definition file_text :: "string list \<Rightarrow> string" where
  "file_text ls = join nl ls @ nl"

section \<open>What a configuration file says\<close>

datatype cval = Val string | Def string

record tlc_cfg =
  cfg_comments :: "string list"
  cfg_spec :: string
  cfg_consts :: "(string \<times> cval) list"
  cfg_invs :: "string list"
  cfg_props :: "string list"

fun const_line :: "string \<times> cval \<Rightarrow> string" where
  "const_line (k, Val v) = asg k v"
| "const_line (k, Def v) = sbst k v"

definition cfg_lines :: "tlc_cfg \<Rightarrow> string list" where
  "cfg_lines c = map remark (cfg_comments c) @ [''SPECIFICATION '' @ cfg_spec c, ''CONSTANTS'']
     @ map const_line (cfg_consts c) @ opt_section ''INVARIANTS'' (cfg_invs c) @ opt_section ''PROPERTIES'' (cfg_props c)"

definition switches :: "string list \<Rightarrow> string list \<Rightarrow> (string \<times> cval) list" where
  "switches fs off = map (\<lambda>f. (f, Val (tf (f \<notin> set off)))) fs"

datatype sect = SHead | SConst | SInv | SProp

definition ident :: "string \<Rightarrow> bool" where
  "ident s = (s \<noteq> [] \<and> list_all is_word s)"

definition read_const :: "string \<Rightarrow> (string \<times> cval) option" where
  "read_const l = (let n = takeWhile is_word l; r = dropWhile is_word l in
     if n = [] then None
     else if prefix '' = '' r then Some (n, Val (drop 3 r))
     else if prefix '' <- '' r then Some (n, Def (drop 4 r))
     else None)"

definition read_line :: "sect \<times> tlc_cfg \<Rightarrow> string \<Rightarrow> (sect \<times> tlc_cfg) option" where
  "read_line = (\<lambda>(s, c) l.
     if l = [] then Some (s, c)
     else if prefix (cbs # ''* '') l then Some (s, c\<lparr>cfg_comments := cfg_comments c @ [drop 3 l]\<rparr>)
     else if prefix ''SPECIFICATION '' l then Some (s, c\<lparr>cfg_spec := drop 14 l\<rparr>)
     else if l = ''CONSTANTS'' then Some (SConst, c)
     else if l = ''INVARIANTS'' then Some (SInv, c)
     else if l = ''PROPERTIES'' then Some (SProp, c)
     else if prefix ''  '' l then
       (case s of
          SConst \<Rightarrow> map_option (\<lambda>e. (s, c\<lparr>cfg_consts := cfg_consts c @ [e]\<rparr>)) (read_const (drop 2 l))
        | SInv \<Rightarrow> if ident (drop 2 l) then Some (s, c\<lparr>cfg_invs := cfg_invs c @ [drop 2 l]\<rparr>) else None
        | SProp \<Rightarrow> if ident (drop 2 l) then Some (s, c\<lparr>cfg_props := cfg_props c @ [drop 2 l]\<rparr>) else None
        | SHead \<Rightarrow> None)
     else None)"

fun foldO :: "('s \<Rightarrow> 'a \<Rightarrow> 's option) \<Rightarrow> 's \<Rightarrow> 'a list \<Rightarrow> 's option" where
  "foldO f s [] = Some s"
| "foldO f s (x # xs) = (case f s x of None \<Rightarrow> None | Some s' \<Rightarrow> foldO f s' xs)"

definition empty_cfg :: tlc_cfg where
  "empty_cfg = \<lparr>cfg_comments = [], cfg_spec = [], cfg_consts = [], cfg_invs = [], cfg_props = []\<rparr>"

definition read_cfg :: "string \<Rightarrow> tlc_cfg option" where
  "read_cfg txt = map_option snd (foldO read_line (SHead, empty_cfg) (split_on cnl txt))"

text \<open>A configuration that fits into the format\<close>

definition one_line :: "string \<Rightarrow> bool" where
  "one_line s = (cnl \<notin> set s)"

fun cval_text :: "cval \<Rightarrow> string" where
  "cval_text (Val v) = v"
| "cval_text (Def v) = v"

definition const_ok :: "string \<times> cval \<Rightarrow> bool" where
  "const_ok = (\<lambda>(k, v). ident k \<and> one_line (cval_text v))"

definition wf_cfg :: "tlc_cfg \<Rightarrow> bool" where
  "wf_cfg c = (list_all one_line (cfg_comments c) \<and> one_line (cfg_spec c) \<and> list_all const_ok (cfg_consts c)
     \<and> list_all ident (cfg_invs c) \<and> list_all ident (cfg_props c))"

section \<open>Reading back what was written\<close>

lemma foldO_append: "foldO f s (xs @ ys) = (case foldO f s xs of None \<Rightarrow> None | Some s' \<Rightarrow> foldO f s' ys)"
  by (induction xs arbitrary: s) (auto split: option.splits)

lemma ident_word: "ident s \<Longrightarrow> c \<in> set s \<Longrightarrow> is_word c"
  by (simp add: ident_def list_all_iff)

lemma ident_hd: "ident s \<Longrightarrow> \<exists>x xs. s = x # xs \<and> is_word x"
  by (cases s) (auto simp: ident_def)

lemma not_word [simp]:
  "\<not> is_word CHR '' ''" "\<not> is_word cnl" "\<not> is_word cbs" "\<not> is_word CHR '':''" "\<not> is_word CHR ''.''"
  by (simp_all add: is_word_def is_digit_def code_def)

lemma ident_one_line: "ident s \<Longrightarrow> one_line s"
  unfolding one_line_def using ident_word by fastforce

lemma takeWhile_word: "ident k \<Longrightarrow> takeWhile is_word (k @ CHR '' '' # r) = k"
  by (simp add: ident_def list_all_iff takeWhile_append2)

lemma dropWhile_word: "ident k \<Longrightarrow> dropWhile is_word (k @ CHR '' '' # r) = CHR '' '' # r"
  by (simp add: ident_def list_all_iff dropWhile_append2)

lemma read_const_line:
  assumes "const_ok e"
  shows "read_const (drop 2 (const_line e)) = Some e"
proof -
  obtain k v where e: "e = (k, v)" by (cases e)
  have k: "ident k" "k \<noteq> []" using assms by (simp_all add: e const_ok_def ident_def)
  show ?thesis
    by (cases v) (simp_all add: e read_const_def asg_def sbst_def takeWhile_word dropWhile_word k)
qed

lemma const_line_shape: "\<exists>r. const_line e = CHR '' '' # CHR '' '' # r"
  by (cases e rule: const_line.cases) (simp_all add: asg_def sbst_def)

lemma read_line_remark: "read_line (s, c) (remark t) = Some (s, c\<lparr>cfg_comments := cfg_comments c @ [t]\<rparr>)"
  by (simp add: read_line_def remark_def)

lemma read_line_const:
  "const_ok e \<Longrightarrow> read_line (SConst, c) (const_line e) = Some (SConst, c\<lparr>cfg_consts := cfg_consts c @ [e]\<rparr>)"
  using const_line_shape [of e] read_const_line [of e] by (auto simp: read_line_def)

lemma read_line_inv: "ident i \<Longrightarrow> read_line (SInv, c) (indent i) = Some (SInv, c\<lparr>cfg_invs := cfg_invs c @ [i]\<rparr>)"
  by (simp add: read_line_def indent_def)

lemma read_line_prop: "ident i \<Longrightarrow> read_line (SProp, c) (indent i) = Some (SProp, c\<lparr>cfg_props := cfg_props c @ [i]\<rparr>)"
  by (simp add: read_line_def indent_def)

lemma read_remarks: "foldO read_line (s, c) (map remark ts) = Some (s, c\<lparr>cfg_comments := cfg_comments c @ ts\<rparr>)"
  by (induction ts arbitrary: c) (simp_all add: read_line_remark)

lemma read_consts:
  "list_all const_ok es \<Longrightarrow>
   foldO read_line (SConst, c) (map const_line es) = Some (SConst, c\<lparr>cfg_consts := cfg_consts c @ es\<rparr>)"
  by (induction es arbitrary: c) (simp_all add: read_line_const)

lemma read_invs:
  "list_all ident js \<Longrightarrow> foldO read_line (SInv, c) (map indent js) = Some (SInv, c\<lparr>cfg_invs := cfg_invs c @ js\<rparr>)"
  by (induction js arbitrary: c) (simp_all add: read_line_inv)

lemma read_props:
  "list_all ident ps \<Longrightarrow> foldO read_line (SProp, c) (map indent ps) = Some (SProp, c\<lparr>cfg_props := cfg_props c @ ps\<rparr>)"
  by (induction ps arbitrary: c) (simp_all add: read_line_prop)

lemma read_line_heads [simp]:
  "read_line (s, c) ''CONSTANTS'' = Some (SConst, c)"
  "read_line (s, c) ''INVARIANTS'' = Some (SInv, c)"
  "read_line (s, c) ''PROPERTIES'' = Some (SProp, c)"
  "read_line (s, c) [] = Some (s, c)"
  by (simp_all add: read_line_def)

lemma read_inv_section:
  "list_all ident js \<Longrightarrow>
   \<exists>s'. foldO read_line (s, c) (opt_section ''INVARIANTS'' js) = Some (s', c\<lparr>cfg_invs := cfg_invs c @ js\<rparr>)"
  by (simp add: opt_section_def read_invs)

lemma read_prop_section:
  "list_all ident ps \<Longrightarrow>
   \<exists>s'. foldO read_line (s, c) (opt_section ''PROPERTIES'' ps) = Some (s', c\<lparr>cfg_props := cfg_props c @ ps\<rparr>)"
  by (simp add: opt_section_def read_props)

lemma read_cfg_lines:
  assumes "wf_cfg c"
  shows "\<exists>s. foldO read_line (SHead, empty_cfg) (cfg_lines c) = Some (s, c)"
proof -
  let ?c1 = "empty_cfg\<lparr>cfg_comments := cfg_comments c\<rparr>"
  have sp: "read_line (SHead, ?c1) (''SPECIFICATION '' @ cfg_spec c) = Some (SHead, ?c1\<lparr>cfg_spec := cfg_spec c\<rparr>)"
    by (simp add: read_line_def)
  let ?c2 = "?c1\<lparr>cfg_spec := cfg_spec c, cfg_consts := cfg_consts c\<rparr>"
  from assms obtain s1 where
    s1: "foldO read_line (SConst, ?c2) (opt_section ''INVARIANTS'' (cfg_invs c)) = Some (s1, ?c2\<lparr>cfg_invs := cfg_invs c\<rparr>)"
    using read_inv_section [of "cfg_invs c" SConst ?c2] by (auto simp: wf_cfg_def empty_cfg_def)
  from assms obtain s2 where
    s2: "foldO read_line (s1, ?c2\<lparr>cfg_invs := cfg_invs c\<rparr>) (opt_section ''PROPERTIES'' (cfg_props c)) =
           Some (s2, ?c2\<lparr>cfg_invs := cfg_invs c, cfg_props := cfg_props c\<rparr>)"
    using read_prop_section [of "cfg_props c" s1 "?c2\<lparr>cfg_invs := cfg_invs c\<rparr>"] by (auto simp: wf_cfg_def empty_cfg_def)
  have cs: "foldO read_line (SConst, ?c1\<lparr>cfg_spec := cfg_spec c\<rparr>) (map const_line (cfg_consts c)) = Some (SConst, ?c2)"
    using assms read_consts [of "cfg_consts c" "?c1\<lparr>cfg_spec := cfg_spec c\<rparr>"] by (simp add: wf_cfg_def empty_cfg_def)
  have "?c2\<lparr>cfg_invs := cfg_invs c, cfg_props := cfg_props c\<rparr> = c" by (simp add: empty_cfg_def)
  with s1 s2 cs sp show ?thesis
    unfolding cfg_lines_def
    by (simp add: foldO_append read_remarks empty_cfg_def)
qed

lemma const_line_one: "const_ok e \<Longrightarrow> one_line (const_line e)"
  by (cases e rule: const_line.cases)
     (auto simp: const_ok_def asg_def sbst_def one_line_def dest: ident_word)

lemma cfg_lines_one: "wf_cfg c \<Longrightarrow> l \<in> set (cfg_lines c) \<Longrightarrow> one_line l"
  unfolding cfg_lines_def wf_cfg_def opt_section_def remark_def indent_def
  using const_line_one ident_one_line
  by (auto simp: list_all_iff one_line_def split: if_splits dest: ident_word)

lemma cfg_lines_ne: "cfg_lines c \<noteq> []"
  by (simp add: cfg_lines_def)

lemma split_file_text:
  assumes "ls \<noteq> []" "\<And>l. l \<in> set ls \<Longrightarrow> one_line l"
  shows "split_on cnl (file_text ls) = ls @ [[]]"
proof -
  have "file_text ls = join nl (ls @ [[]])"
    using assms(1) by (simp add: file_text_def join_append)
  moreover have "split_on cnl (join nl (ls @ [[]])) = ls @ [[]]"
    by (rule split_on_join) (use assms(2) in \<open>auto simp: one_line_def\<close>)
  ultimately show ?thesis by simp
qed

lemma read_cfg_file: "wf_cfg c \<Longrightarrow> read_cfg (file_text (cfg_lines c)) = Some c"
  using read_cfg_lines [of c] split_file_text [OF cfg_lines_ne cfg_lines_one, of c]
  by (auto simp: read_cfg_def foldO_append)

section \<open>Writing a configuration\<close>

named_theorems cfg_simps \<open>the lines of a configuration as text\<close>

lemmas [cfg_simps] = cfg_lines_def asg_def sbst_def indent_def remark_def opt_section_def

lemma switches_lines [cfg_simps]: "map const_line (switches fs off) = switch_lines fs off"
  by (simp add: switches_def switch_lines_def tf_def)

lemma all_on: "map (\<lambda>f. asg f ''TRUE'') fs = switch_lines fs []"
  by (simp add: switch_lines_def)

lemma map_fst_switches [simp]: "map fst (switches fs off) = fs"
  by (simp add: switches_def comp_def)

lemma map_of_switches: "map_of (switches fs off) f = (if f \<in> set fs then Some (Val (tf (f \<notin> set off))) else None)"
  by (induction fs) (auto simp: switches_def)

lemma one_line_simps [simp]:
  "one_line []" "one_line (x # s) \<longleftrightarrow> x \<noteq> cnl \<and> one_line s" "one_line (s @ t) \<longleftrightarrow> one_line s \<and> one_line t"
  "one_line (tf b)"
  by (auto simp: one_line_def tf_def)

lemma one_line_show_int [simp]: "one_line (show_int i)"
proof -
  have "\<not> is_digit cnl" by (simp add: is_digit_def code_def)
  then show ?thesis using show_int_chars [of cnl i] by (auto simp: one_line_def)
qed

lemma one_line_join: "one_line sep \<Longrightarrow> list_all one_line xs \<Longrightarrow> one_line (join sep xs)"
proof (induction xs)
  case (Cons x xs)
  then show ?case by (cases xs) auto
qed simp

lemma one_line_braces: "list_all one_line xs \<Longrightarrow> one_line (braces xs)"
  by (simp add: braces_def one_line_join)

lemma one_line_upto [simp]: "one_line (braces (upto_strs n))"
  by (rule one_line_braces) (simp add: upto_strs_def list_all_iff)

lemma const_ok_simps [simp]:
  "const_ok (k, Val v) \<longleftrightarrow> ident k \<and> one_line v"
  "const_ok (k, Def v) \<longleftrightarrow> ident k \<and> one_line v"
  by (simp_all add: const_ok_def)

lemma switches_ok: "list_all ident fs \<Longrightarrow> list_all const_ok (switches fs off)"
  by (simp add: switches_def list_all_iff)

text \<open>Deciding \<open>ident\<close> on literals\<close>

lemma ident_simps:
  "ident [x] \<longleftrightarrow> is_word x"
  "ident (x # y # s) \<longleftrightarrow> is_word x \<and> ident (y # s)"
  by (auto simp: ident_def)

lemma is_word_ascii:
  "is_word (Char b0 b1 b2 b3 b4 b5 b6 False) \<longleftrightarrow>
     (if b6 then if b4 \<and> b3 \<and> (b2 \<or> b1 \<and> b0) then b2 \<and> b1 \<and> b0 \<and> \<not> b5 else b4 \<or> b3 \<or> b2 \<or> b1 \<or> b0
      else b5 \<and> b4 \<and> (\<not> b3 \<or> \<not> b2 \<and> \<not> b1))"
  by (cases b0; cases b1; cases b2; cases b3; cases b4; cases b5; cases b6)
     (simp_all add: is_word_def is_digit_def code_def)

lemmas ident_eval = ident_simps is_word_ascii

lemma is_word_code [code]:
  "is_word (Char b0 b1 b2 b3 b4 b5 b6 b7) =
     (if b7 then let n = code (Char b0 b1 b2 b3 b4 b5 b6 True) in
        n \<in> {170, 178, 179, 181, 185, 186, 188, 189, 190} \<or> (192 \<le> n \<and> n \<noteq> 215 \<and> n \<noteq> 247)
      else if b6 then if b4 \<and> b3 \<and> (b2 \<or> b1 \<and> b0) then b2 \<and> b1 \<and> b0 \<and> \<not> b5 else b4 \<or> b3 \<or> b2 \<or> b1 \<or> b0
      else b5 \<and> b4 \<and> (\<not> b3 \<or> \<not> b2 \<and> \<not> b1))"
  by (cases b0; cases b1; cases b2; cases b3; cases b4; cases b5; cases b6; cases b7)
     (simp_all add: is_word_def is_digit_def code_def)

section \<open>The expectation\<close>

text \<open>
  The scripts that run TLC compare its verdict with the expectation they find in the file:
  \<^verbatim>\<open>sed -n 's/.*expected: //p' "$cfg.cfg"\<close>, in some directories followed by \<^verbatim>\<open>| head -1\<close>.
  \<^verbatim>\<open>.*\<close> is greedy, so what is printed of a line is what follows the last occurrence.
\<close>

fun after_last :: "string \<Rightarrow> string \<Rightarrow> string option" where
  "after_last p [] = (if p = [] then Some [] else None)"
| "after_last p (x # xs) = (case after_last p xs of
     Some t \<Rightarrow> Some t
   | None \<Rightarrow> if prefix p (x # xs) then Some (drop (length p) (x # xs)) else None)"

definition sed_expected :: "string \<Rightarrow> string list" where
  "sed_expected txt = List.map_filter (after_last ''expected: '') (split_on cnl txt)"

definition clear :: "string \<Rightarrow> bool" where
  "clear e = (after_last ''expected: '' (''xpected: '' @ e) = None)"

lemma after_last_append:
  assumes "after_last p (tl p @ e) = None" "p \<noteq> []"
  shows "after_last p (a @ p @ e) = Some e"
proof (induction a)
  case Nil
  from assms(2) obtain x xs where "p = x # xs" by (cases p) auto
  with assms(1) show ?case by simp
qed simp

lemma after_last_None: "c \<in> set p \<Longrightarrow> c \<notin> set s \<Longrightarrow> after_last p s = None"
proof (induction s)
  case (Cons x xs)
  have "\<not> prefix p (x # xs)" using Cons.prems by (meson set_mono_prefix subsetD)
  with Cons show ?case by simp
qed auto

lemma after_last_expected: "clear e \<Longrightarrow> after_last ''expected: '' (a @ ''expected: '' @ e) = Some e"
  by (rule after_last_append) (simp_all add: clear_def)

text \<open>No constant of the configuration and no name contains a colon.\<close>

definition no_colon :: "string \<Rightarrow> bool" where
  "no_colon s = (CHR '':'' \<notin> set s)"

definition quiet :: "tlc_cfg \<Rightarrow> bool" where
  "quiet c = (list_all (\<lambda>(k, v). no_colon (cval_text v)) (cfg_consts c) \<and> no_colon (cfg_spec c))"

lemma no_colon_simps [simp]:
  "no_colon []" "no_colon (x # s) \<longleftrightarrow> x \<noteq> CHR '':'' \<and> no_colon s" "no_colon (s @ t) \<longleftrightarrow> no_colon s \<and> no_colon t"
  "no_colon (tf b)"
  by (auto simp: no_colon_def tf_def)

lemma no_colon_show_int [simp]: "no_colon (show_int i)"
  using show_int_chars [of "CHR '':''" i] by (auto simp: no_colon_def is_digit_def code_def)

lemma no_colon_join: "no_colon sep \<Longrightarrow> list_all no_colon xs \<Longrightarrow> no_colon (join sep xs)"
proof (induction xs)
  case (Cons x xs)
  then show ?case by (cases xs) auto
qed simp

lemma no_colon_braces: "list_all no_colon xs \<Longrightarrow> no_colon (braces xs)"
  by (simp add: braces_def no_colon_join)

lemma no_colon_upto [simp]: "no_colon (braces (upto_strs n))"
  by (rule no_colon_braces) (simp add: upto_strs_def list_all_iff)

lemma quiet_switches [simp]: "list_all (\<lambda>(k, v). no_colon (cval_text v)) (switches fs off)"
  by (auto simp: switches_def list_all_iff)

text \<open>The overrides of a table are numbers and truth values.\<close>

definition over_ok :: "(string, pyval) dict \<Rightarrow> bool" where
  "over_ok over = list_all (\<lambda>(k, v). case v of PStr s \<Rightarrow> False | PList vs \<Rightarrow> False | _ \<Rightarrow> True) over"

lemma over_value:
  assumes "over_ok over" "\<And>s. v \<noteq> PStr s" "\<And>vs. v \<noteq> PList vs"
  shows "one_line (py_str (get_or over k v)) \<and> no_colon (py_str (get_or over k v))"
proof -
  have "get_or over k v = v \<or> (k, get_or over k v) \<in> set over"
    by (auto simp: get_or_def split: option.splits dest: map_of_SomeD)
  then show ?thesis
    using assms by (cases "get_or over k v") (auto simp: over_ok_def list_all_iff)
qed

lemma quiet_rest:
  assumes "wf_cfg c" "quiet c"
    and "l \<in> set ([''SPECIFICATION '' @ cfg_spec c, ''CONSTANTS''] @ map const_line (cfg_consts c)
           @ opt_section ''INVARIANTS'' (cfg_invs c) @ opt_section ''PROPERTIES'' (cfg_props c))"
  shows "after_last ''expected: '' l = None"
proof (rule after_last_None [where c = "CHR '':''"])
  have nm: "CHR '':'' \<notin> set s" if "ident s" for s using ident_word [OF that] by fastforce
  have cl: "CHR '':'' \<notin> set (const_line e)" if "e \<in> set (cfg_consts c)" for e
    using that assms(1,2) nm
    by (cases e rule: const_line.cases)
       (auto simp: quiet_def no_colon_def wf_cfg_def list_all_iff const_ok_def asg_def sbst_def)
  show "CHR '':'' \<notin> set l"
    using assms cl nm
    by (auto simp: quiet_def no_colon_def wf_cfg_def list_all_iff opt_section_def indent_def split: if_splits)
qed simp

lemma map_filter_None: "(\<And>x. x \<in> set xs \<Longrightarrow> f x = None) \<Longrightarrow> List.map_filter f xs = []"
  by (induction xs) (simp_all add: List.map_filter_def)

lemma map_filter_append: "List.map_filter f (xs @ ys) = List.map_filter f xs @ List.map_filter f ys"
  by (simp add: List.map_filter_def)

lemma sed_expected_cfg:
  assumes "wf_cfg c" "quiet c" "cfg_comments c = (a @ ''expected: '' @ e) # rest" "clear e"
  shows "\<exists>more. sed_expected (file_text (cfg_lines c)) = e # more \<and> (rest = [] \<longrightarrow> more = [])"
proof -
  define t where "t = [''SPECIFICATION '' @ cfg_spec c, ''CONSTANTS''] @ map const_line (cfg_consts c)
           @ opt_section ''INVARIANTS'' (cfg_invs c) @ opt_section ''PROPERTIES'' (cfg_props c)"
  let ?f = "after_last ''expected: ''"
  have sp: "split_on cnl (file_text (cfg_lines c)) = map remark (cfg_comments c) @ t @ [[]]"
    using split_file_text [OF cfg_lines_ne cfg_lines_one [OF assms(1)]] by (simp add: cfg_lines_def t_def)
  have quiet: "List.map_filter ?f (t @ [[]]) = []"
    by (rule map_filter_None) (use quiet_rest [OF assms(1,2)] in \<open>auto simp: t_def\<close>)
  have first: "?f (remark (a @ ''expected: '' @ e)) = Some e"
    using after_last_expected [OF assms(4), of "cbs # ''* '' @ a"] by (simp add: remark_def)
  have "sed_expected (file_text (cfg_lines c)) =
      List.map_filter ?f (map remark (cfg_comments c)) @ List.map_filter ?f (t @ [[]])"
    unfolding sed_expected_def sp by (rule map_filter_append)
  also have "\<dots> = e # List.map_filter ?f (map remark rest)"
    unfolding quiet assms(3) list.map by (simp only: List.map_filter_simps first option.case append_Nil2)
  finally show ?thesis by (auto simp: List.map_filter_simps)
qed

section \<open>Writing the files\<close>

text \<open>The directory of the script: file names and contents.\<close>

type_synonym dir = "(string, string) dict"

definition cfg_file :: "string \<Rightarrow> string" where
  "cfg_file n = n @ ''.cfg''"

definition write_cfg :: "string \<Rightarrow> string list \<Rightarrow> dir \<Rightarrow> dir" where
  "write_cfg n ls d = AList.update (cfg_file n) (file_text ls) d"

definition write_all :: "(string \<Rightarrow> 'e \<Rightarrow> string list result) \<Rightarrow> (string, 'e) dict \<Rightarrow> dir \<Rightarrow> dir result" where
  "write_all ls tbl d = foldE (\<lambda>d (n, e). bindE (ls n e) (\<lambda>l. Inr (write_cfg n l d))) d tbl"

text \<open>What the directory says, by configuration name, and the directory after writing
  configurations\<close>

definition load :: "dir \<Rightarrow> string \<Rightarrow> tlc_cfg option" where
  "load d n = Option.bind (map_of d (cfg_file n)) read_cfg"

definition put_all :: "(string \<times> tlc_cfg) list \<Rightarrow> dir \<Rightarrow> dir" where
  "put_all cs d = foldl (\<lambda>d (n, c). write_cfg n (cfg_lines c) d) d cs"

definition specs :: "(string \<Rightarrow> 'e \<Rightarrow> tlc_cfg) \<Rightarrow> (string, 'e) dict \<Rightarrow> (string \<times> tlc_cfg) list" where
  "specs sp tbl = map (\<lambda>(n, e). (n, sp n e)) tbl"

lemma foldl_invariant:
  "I s \<Longrightarrow> (\<And>s x. I s \<Longrightarrow> x \<in> set xs \<Longrightarrow> I (f s x)) \<Longrightarrow> I (foldl f s xs)"
  by (induction xs arbitrary: s) auto

lemma cfg_file_inj [simp]: "cfg_file m = cfg_file n \<longleftrightarrow> m = n"
  by (simp add: cfg_file_def)

lemma put_all_append: "put_all (xs @ ys) d = put_all ys (put_all xs d)"
  by (simp add: put_all_def)

lemma dkeys_specs [simp]: "map fst (specs sp tbl) = map fst tbl"
  by (induction tbl) (auto simp: specs_def)

lemma load_write: "wf_cfg c \<Longrightarrow> load (write_cfg n (cfg_lines c) d) = (load d)(n \<mapsto> c)"
  by (rule ext) (simp add: load_def write_cfg_def map_of_update_dict read_cfg_file)

lemma load_put_all:
  "list_all (\<lambda>(n, c). wf_cfg c) cs \<Longrightarrow> load (put_all cs d) = load d ++ map_of (rev cs)"
proof (induction cs arbitrary: d)
  case (Cons nc cs)
  obtain n c where nc: "nc = (n, c)" by (cases nc)
  have "load (put_all (nc # cs) d) = load (write_cfg n (cfg_lines c) d) ++ map_of (rev cs)"
    using Cons by (simp add: nc put_all_def)
  also have "\<dots> = load d ++ map_of (rev (nc # cs))"
    using Cons.prems by (simp add: nc load_write)
  finally show ?case .
qed (simp add: put_all_def)

lemma put_all_other: "f \<notin> cfg_file ` set (map fst cs) \<Longrightarrow> map_of (put_all cs d) f = map_of d f"
proof (induction cs arbitrary: d)
  case (Cons nc cs)
  then show ?case by (cases nc) (simp add: put_all_def write_cfg_def map_of_update_dict)
qed (simp add: put_all_def)

lemma put_all_file:
  "distinct (map fst cs) \<Longrightarrow> (n, c) \<in> set cs \<Longrightarrow>
   map_of (put_all cs d) (cfg_file n) = Some (file_text (cfg_lines c))"
proof (induction cs arbitrary: d)
  case (Cons nc cs)
  show ?case
  proof (cases "nc = (n, c)")
    case True
    then have "cfg_file n \<notin> cfg_file ` set (map fst cs)" using Cons.prems by force
    from put_all_other [OF this] True show ?thesis
      by (simp add: put_all_def write_cfg_def map_of_update_dict)
  next
    case False
    with Cons.prems have "(n, c) \<in> set cs" "distinct (map fst cs)" by auto
    from Cons.IH [OF this(2,1)] show ?thesis by (cases nc) (simp add: put_all_def)
  qed
qed simp

lemma put_all_wf: "dict_wf d \<Longrightarrow> dict_wf (put_all cs d)"
  unfolding put_all_def by (rule foldl_invariant) (auto simp: write_cfg_def dict_wf_update split: prod.splits)

lemma put_all_new:
  "distinct (map fst cs) \<Longrightarrow> set (dkeys d) \<inter> cfg_file ` set (map fst cs) = {} \<Longrightarrow>
   dkeys (put_all cs d) = dkeys d @ map (\<lambda>(n, c). cfg_file n) cs"
proof (induction cs arbitrary: d)
  case (Cons nc cs)
  obtain n c where nc: "nc = (n, c)" by (cases nc)
  from Cons.prems have "cfg_file n \<notin> set (dkeys d)" by (simp add: nc)
  from dkeys_update_new [OF this] have w: "write_cfg n (cfg_lines c) d = d @ [(cfg_file n, file_text (cfg_lines c))]"
    by (simp add: write_cfg_def)
  have "dkeys (put_all cs (write_cfg n (cfg_lines c) d)) =
      dkeys (write_cfg n (cfg_lines c) d) @ map (\<lambda>(n, c). cfg_file n) cs"
  proof (rule Cons.IH)
    show "distinct (map fst cs)" using Cons.prems(1) by simp
    have "cfg_file n \<notin> cfg_file ` set (map fst cs)" using Cons.prems(1) by (auto simp: nc simp del: set_map)
    then show "set (dkeys (write_cfg n (cfg_lines c) d)) \<inter> cfg_file ` set (map fst cs) = {}"
      using Cons.prems(2) by (auto simp: nc w simp del: set_map)
  qed
  then show ?case by (simp add: nc put_all_def w)
qed (simp add: put_all_def)

section \<open>The contract of a generator's table\<close>

locale cfg_table =
  fixes ls :: "string \<Rightarrow> 'e \<Rightarrow> string list result"
    and sp :: "string \<Rightarrow> 'e \<Rightarrow> tlc_cfg"
    and tbl :: "(string, 'e) dict"
  assumes names: "distinct (map fst tbl)"
    and emits: "(n, e) \<in> set tbl \<Longrightarrow> ls n e = Inr (cfg_lines (sp n e))"
    and fits: "(n, e) \<in> set tbl \<Longrightarrow> wf_cfg (sp n e)"
begin

lemma write_all_eq: "write_all ls tbl d = Inr (put_all (specs sp tbl) d)"
proof -
  have "\<forall>(n, e) \<in> set xs. ls n e = Inr (cfg_lines (sp n e)) \<Longrightarrow>
        write_all ls xs d = Inr (put_all (specs sp xs) d)" for xs
    by (induction xs arbitrary: d) (auto simp: write_all_def put_all_def specs_def)
  then show ?thesis using emits by blast
qed

lemma specs_fit: "list_all (\<lambda>(n, c). wf_cfg c) (specs sp tbl)"
  using fits by (auto simp: list_all_iff specs_def)

end

text \<open>
  A generator writes the configurations of all its tables. What is promised of the directory it
  leaves: every configuration reads back as specified, everything else is untouched.
\<close>

definition cfgs_written :: "(string \<times> tlc_cfg) list \<Rightarrow> dir \<Rightarrow> dir \<Rightarrow> bool" where
  "cfgs_written cs d d' \<longleftrightarrow> load d' = load d ++ map_of cs
     \<and> (\<forall>f. f \<notin> cfg_file ` set (map fst cs) \<longrightarrow> map_of d' f = map_of d f)"

lemma put_all_written:
  assumes "distinct (map fst cs)" "list_all (\<lambda>(n, c). wf_cfg c) cs"
  shows "cfgs_written cs d (put_all cs d)"
proof -
  have "map_of (rev cs) = map_of cs"
    by (rule map_of_eqI) (use assms(1) in \<open>auto simp: distinct_map inj_on_def\<close>)
  with load_put_all [OF assms(2), of d] put_all_other [of _ cs d] show ?thesis
    by (simp add: cfgs_written_def)
qed

lemma specs_all: "list_all P (specs sp tbl) \<longleftrightarrow> (\<forall>(n, e) \<in> set tbl. P (n, sp n e))"
  by (auto simp: specs_def list_all_iff)

section \<open>The contract with the scripts that run TLC\<close>

text \<open>\<^verbatim>\<open>check.sh\<close> picks the module from the name of the configuration: \<^verbatim>\<open>layout=${cfg%%_*}\<close>,
  \<^verbatim>\<open>module=MC_$layout\<close>.\<close>

definition layout_of :: "string \<Rightarrow> string" where
  "layout_of cfg = takeWhile (\<lambda>c. c \<noteq> CHR ''_'') cfg"

definition check_module :: "string \<Rightarrow> string" where
  "check_module cfg = ''MC_'' @ layout_of cfg"

lemma layout_of_append: "CHR ''_'' \<notin> set l \<Longrightarrow> layout_of (l @ CHR ''_'' # s) = l"
  by (induction l) (auto simp: layout_of_def)

text \<open>TLC refuses a configuration that leaves a constant of the module open, and one that gives a
  constant the module does not declare: the configuration has to assign exactly the declared ones,
  each once.\<close>

definition assigns :: "tlc_cfg \<Rightarrow> string list \<Rightarrow> bool" where
  "assigns c ks \<longleftrightarrow> distinct (map fst (cfg_consts c)) \<and> set (map fst (cfg_consts c)) = set ks"

text \<open>What an entry of a table has to satisfy for its file to be read back: the fixes it switches off
  are fixes of the model, there is something to check, and the expectation is a line \<^verbatim>\<open>sed\<close> recovers.\<close>

definition entry_ok :: "string list \<Rightarrow> string list \<Rightarrow> string list \<Rightarrow> string list \<Rightarrow> string \<Rightarrow> bool" where
  "entry_ok fs off js ps ex \<longleftrightarrow> list_all (\<lambda>f. List.member fs f) off \<and> (js \<noteq> [] \<or> ps \<noteq> [])
     \<and> list_all ident js \<and> list_all ident ps \<and> one_line ex \<and> clear ex"

text \<open>The first comment of a generated file\<close>

definition banner :: "string \<Rightarrow> string \<Rightarrow> string" where
  "banner what ex = ''generated by gen-cfgs.py'' @ what @ '', expected: '' @ ex"

lemmas [cfg_simps] = banner_def

lemma banner_one_line [simp]: "one_line (banner what ex) \<longleftrightarrow> one_line what \<and> one_line ex"
  by (simp add: banner_def)

locale cfg_runs = cfg_table ls sp tbl
  for ls :: "string \<Rightarrow> 'e \<Rightarrow> string list result" and sp :: "string \<Rightarrow> 'e \<Rightarrow> tlc_cfg" and tbl :: "(string, 'e) dict" +
  fixes ex :: "'e \<Rightarrow> string"
  assumes told: "(n, e) \<in> set tbl \<Longrightarrow>
      clear (ex e) \<and> quiet (sp n e) \<and> (\<exists>what rest. cfg_comments (sp n e) = banner what (ex e) # rest)"
begin

lemma expectation:
  assumes "(n, e) \<in> set tbl"
  shows "\<exists>more. sed_expected (file_text (cfg_lines (sp n e))) = ex e # more
           \<and> (length (cfg_comments (sp n e)) = 1 \<longrightarrow> more = [])"
proof -
  from told [OF assms] obtain what rest where
    t: "clear (ex e)" "quiet (sp n e)" "cfg_comments (sp n e) = banner what (ex e) # rest" by auto
  then have "cfg_comments (sp n e) = ((''generated by gen-cfgs.py'' @ what @ '', '') @ ''expected: '' @ ex e) # rest"
    by (simp add: banner_def)
  from sed_expected_cfg [OF fits [OF assms] t(2) this t(1)] t(3) show ?thesis by auto
qed

lemma expectation_only:
  assumes "(n, e) \<in> set tbl" "length (cfg_comments (sp n e)) = 1"
  shows "sed_expected (file_text (cfg_lines (sp n e))) = [ex e]"
  using expectation [OF assms(1)] assms(2) by auto

end

lemma in_table: "list_all P tbl \<Longrightarrow> (n, e) \<in> set tbl \<Longrightarrow> P (n, e)"
  by (simp add: list_all_iff)

text \<open>Several tables: names that the layouts keep apart\<close>

fun tagged :: "('a \<Rightarrow> 'b) \<Rightarrow> 'b list list \<Rightarrow> 'a list list \<Rightarrow> bool" where
  "tagged g (t # ts) (xs # xss) = (distinct xs \<and> (\<forall>x\<in>set xs. g x \<in> set t) \<and> tagged g ts xss)"
| "tagged g [] [] = True"
| "tagged g _ _ = False"

lemma tagged_in: "tagged g ts xss \<Longrightarrow> x \<in> set (concat xss) \<Longrightarrow> g x \<in> set (concat ts)"
  by (induction g ts xss rule: tagged.induct) auto

lemma tagged_distinct: "tagged g ts xss \<Longrightarrow> distinct (concat ts) \<Longrightarrow> distinct (concat xss)"
proof (induction g ts xss rule: tagged.induct)
  case (1 g t ts xs xss)
  then have "g x \<in> set t" if "x \<in> set xs" for x using that by simp
  moreover have "g x \<notin> set t" if "x \<in> set (concat xss)" for x
    using tagged_in [of g ts xss x] 1 that by (auto simp del: set_concat)
  ultimately show ?case using 1 by (auto simp del: set_concat)
qed auto

lemma table_names: "list_all P tbl \<Longrightarrow> (\<And>n e. P (n, e) \<Longrightarrow> Q n) \<Longrightarrow> \<forall>n\<in>set (dkeys tbl). Q n"
  by (auto simp: list_all_iff)

text \<open>Case analysis on the entries that have more than seven components\<close>

lemma tuple8_cases:
  "(\<And>a b c d e f g h. x = (a, b, c, d, e, f, g, h) \<Longrightarrow> P) \<Longrightarrow> P"
  by (metis surj_pair)

lemma tuple9_cases:
  "(\<And>a b c d e f g h i. x = (a, b, c, d, e, f, g, h, i) \<Longrightarrow> P) \<Longrightarrow> P"
  by (metis surj_pair)

lemma tuple10_cases:
  "(\<And>a b c d e f g h i j. x = (a, b, c, d, e, f, g, h, i, j) \<Longrightarrow> P) \<Longrightarrow> P"
  by (metis surj_pair)

text \<open>Texts that a constant can be given\<close>

definition plain :: "string \<Rightarrow> bool" where
  "plain s = (one_line s \<and> no_colon s)"

lemma plain_get: "plain v \<Longrightarrow> list_all (\<lambda>(k, v). Q k \<and> plain v) d \<Longrightarrow> plain (get_or d k v)"
  by (auto simp: get_or_def list_all_iff split: option.splits dest: map_of_SomeD)

section \<open>Tables built by assignments\<close>

lemma dkeys_lookup: "k \<in> set (dkeys d) \<Longrightarrow> \<exists>v. map_of d k = Some v"
  by (induction d) auto

lemma list_all_update: "list_all P d \<Longrightarrow> P (k, v) \<Longrightarrow> list_all P (AList.update k v d)"
  by (induction d) (auto split: if_splits)

lemma list_all_dmerge: "list_all P d \<Longrightarrow> list_all P over \<Longrightarrow> list_all P (dmerge d over)"
  unfolding dmerge_def by (induction over arbitrary: d) (auto simp: list_all_update)

lemma dkeys_update: "set (dkeys (AList.update k v d)) = insert k (set (dkeys d))"
  by (induction d) auto

lemma dkeys_dmerge: "set (dkeys (dmerge d over)) = set (dkeys over) \<union> set (dkeys d)"
  unfolding dmerge_def by (induction over arbitrary: d) (auto simp: dkeys_update simp del: set_map)

lemma foldE_total:
  assumes "I s" "\<And>s x. I s \<Longrightarrow> x \<in> set xs \<Longrightarrow> \<exists>s'. f s x = Inr s' \<and> I s'"
  shows "\<exists>s'. foldE f s xs = Inr s' \<and> I s'"
  using assms
proof (induction xs arbitrary: s)
  case (Cons x xs)
  from Cons.prems obtain s' where "f s x = Inr s'" "I s'" by (meson list.set_intros(1))
  with Cons show ?case by simp
qed simp

section \<open>A whole suite\<close>

text \<open>
  The contract with everything a table is used for: the entries that are fine (\<open>ok\<close>) give lines
  that read back, an expectation that is recovered, and the constants of the module they run with
  (\<open>mods\<close> gives the constants by configuration name).
\<close>

definition delivered ::
  "(string, 'e) dict \<Rightarrow> (string \<Rightarrow> 'e \<Rightarrow> tlc_cfg) \<Rightarrow> ('e \<Rightarrow> string) \<Rightarrow> (string \<Rightarrow> string list option) \<Rightarrow> dir \<Rightarrow> bool" where
  "delivered tbl sp ex mods d' \<longleftrightarrow> (\<forall>(n, e) \<in> set tbl.
     (\<exists>t more. map_of d' (cfg_file n) = Some t \<and> read_cfg t = Some (sp n e) \<and> sed_expected t = ex e # more
        \<and> (length (cfg_comments (sp n e)) = 1 \<longrightarrow> more = []))
     \<and> (\<exists>ks. mods n = Some ks \<and> assigns (sp n e) ks))"

locale cfg_suite =
  fixes ls :: "string \<Rightarrow> 'e \<Rightarrow> string list result"
    and sp :: "string \<Rightarrow> 'e \<Rightarrow> tlc_cfg"
    and tbl :: "(string, 'e) dict"
    and ex :: "'e \<Rightarrow> string"
    and ok :: "string \<times> 'e \<Rightarrow> bool"
    and mods :: "string \<Rightarrow> string list option"
  assumes apart: "distinct (map fst tbl)"
    and all_ok: "list_all ok tbl"
    and lines_ok: "ok (n, e) \<Longrightarrow> ls n e = Inr (cfg_lines (sp n e))"
    and text_ok: "ok (n, e) \<Longrightarrow> wf_cfg (sp n e) \<and> quiet (sp n e)"
    and expect_ok: "ok (n, e) \<Longrightarrow> clear (ex e) \<and> (\<exists>what rest. cfg_comments (sp n e) = banner what (ex e) # rest)"
    and consts_ok: "ok (n, e) \<Longrightarrow> \<exists>ks. mods n = Some ks \<and> assigns (sp n e) ks"

sublocale cfg_suite \<subseteq> cfg_runs ls sp tbl ex
proof
  show "distinct (map fst tbl)" by (rule apart)
  fix n e assume "(n, e) \<in> set tbl"
  from in_table [OF all_ok this] have ok: "ok (n, e)" .
  show "ls n e = Inr (cfg_lines (sp n e))" using ok by (rule lines_ok)
  show "wf_cfg (sp n e)" using text_ok [OF ok] by blast
  show "clear (ex e) \<and> quiet (sp n e) \<and> (\<exists>what rest. cfg_comments (sp n e) = banner what (ex e) # rest)"
    using text_ok [OF ok] expect_ok [OF ok] by blast
qed

context cfg_suite begin

lemma specs_in: "(n, e) \<in> set tbl \<Longrightarrow> (n, sp n e) \<in> set (specs sp tbl)"
  by (force simp: specs_def)

lemma delivers:
  assumes "distinct (map fst cs)" "set (specs sp tbl) \<subseteq> set cs"
  shows "delivered tbl sp ex mods (put_all cs d)"
  unfolding delivered_def
proof (intro ballI, clarify, intro conjI)
  fix n e assume e: "(n, e) \<in> set tbl"
  from specs_in [OF e] assms(2) have "(n, sp n e) \<in> set cs" by blast
  from put_all_file [OF assms(1) this] read_cfg_file [OF fits [OF e]] expectation [OF e]
  show "\<exists>t more. map_of (put_all cs d) (cfg_file n) = Some t \<and> read_cfg t = Some (sp n e) \<and> sed_expected t = ex e # more
      \<and> (length (cfg_comments (sp n e)) = 1 \<longrightarrow> more = [])" by blast
  from in_table [OF all_ok e] show "\<exists>ks. mods n = Some ks \<and> assigns (sp n e) ks" by (rule consts_ok)
qed

lemma written: "cfgs_written (specs sp tbl) d (put_all (specs sp tbl) d)"
  by (rule put_all_written [OF _ specs_fit]) (simp add: names)

end

text \<open>Membership is all that \<open>assigns\<close> asks of the names.\<close>

lemma assignsI:
  "map fst (cfg_consts c) = ks' \<Longrightarrow> distinct ks' \<and> set ks' = set ks \<Longrightarrow> assigns c ks"
  by (simp only: assigns_def)

section \<open>Removing stale configurations\<close>

text \<open>Some generators first remove every \<^verbatim>\<open>*.cfg\<close> whose \<^verbatim>\<open>stem\<close> is not a configuration.\<close>

definition stem :: "string \<Rightarrow> string" where
  "stem f = (let r = rev f; rest = dropWhile (\<lambda>c. c \<noteq> CHR ''.'') r in
     if hd r = CHR ''.'' \<or> length rest \<le> 1 then f else rev (tl rest))"

definition unlink_stale :: "string list \<Rightarrow> dir \<Rightarrow> dir" where
  "unlink_stale keep d = foldl (\<lambda>d old. if stem old \<notin> set keep then AList.delete old d else d) d
     (filter (suffix ''.cfg'') (dkeys d))"

lemma suffix_cfg_file [simp]: "suffix ''.cfg'' (cfg_file n)"
  by (simp add: cfg_file_def suffix_def)

lemma stem_cfg_file: "stem (cfg_file n) = (if n = [] then ''.cfg'' else n)"
  by (simp add: stem_def cfg_file_def Let_def)

lemma map_of_delete_loop:
  "map_of (foldl (\<lambda>d k. if P k then AList.delete k d else d) d ks) f =
     (if f \<in> set ks \<and> P f then None else map_of d f)"
  by (induction ks arbitrary: d) (auto simp: map_of_delete_dict)

lemma map_of_unlink_stale:
  "map_of (unlink_stale keep d) f = (if suffix ''.cfg'' f \<and> stem f \<notin> set keep then None else map_of d f)"
proof -
  have "map_of d f = None" if "f \<notin> set (dkeys d)" using that by (simp add: map_of_eq_None_iff)
  then show ?thesis by (auto simp: unlink_stale_def map_of_delete_loop simp del: set_map)
qed

lemma load_unlink_stale:
  "''.cfg'' \<notin> set keep \<Longrightarrow> [] \<notin> set keep \<Longrightarrow> load (unlink_stale keep d) n = (if n \<in> set keep then load d n else None)"
  by (auto simp: load_def map_of_unlink_stale stem_cfg_file)

lemma clean_written:
  assumes "distinct (map fst cs)" "list_all (\<lambda>(n, c). wf_cfg c) cs" "list_all ident (map fst cs)"
  shows "load (put_all cs (unlink_stale (map fst cs) d)) = map_of cs"
    and "\<not> suffix ''.cfg'' f \<Longrightarrow> map_of (put_all cs (unlink_stale (map fst cs) d)) f = map_of d f"
proof -
  let ?d = "unlink_stale (map fst cs) d"
  have k: "''.cfg'' \<notin> set (map fst cs)" "[] \<notin> set (map fst cs)"
    using assms(3) by (auto simp: list_all_iff ident_eval ident_def simp del: set_map)
  have w: "cfgs_written cs ?d (put_all cs ?d)" by (rule put_all_written [OF assms(1,2)])
  show "load (put_all cs ?d) = map_of cs"
  proof
    fix n
    have "map_of cs n \<noteq> None" if "n \<in> set (map fst cs)" using that by (simp add: map_of_eq_None_iff)
    then show "load (put_all cs ?d) n = map_of cs n"
      using w load_unlink_stale [OF k, of d n] by (auto simp: cfgs_written_def map_add_def split: option.splits simp del: set_map)
  qed
  assume f: "\<not> suffix ''.cfg'' f"
  then have "f \<notin> cfg_file ` set (map fst cs)" by (auto simp del: set_map)
  with w f show "map_of (put_all cs ?d) f = map_of d f" by (simp add: cfgs_written_def map_of_unlink_stale)
qed

end
