(* ===== verification/Ftrace_Extract.thy ===== *)
theory Ftrace_Extract
  imports Py_Re_First Py_Lines Tlc_Cfg Py_Out
begin

text \<open>
  \<^verbatim>\<open>trace/jens/extract.py\<close>: the image that a virtual machine wrote is split into one file for each run. The
  file that is open is the one named last; its text is in the directory as it is written. A run that begins
  while the file of the same name is still open is not modelled (the order in which Python writes the two
  buffers out would matter).

  The lemmas: an image of complete runs gives their files and counts, whether it ends with its last line or
  with the zeros of an image that was cut short.
\<close>

section \<open>The script\<close>











section \<open>What a virtual machine writes\<close>








section \<open>Reading it back\<close>







lemma update_again [simp]: "AList.update k v (AList.update k w d) = AList.update k v d"
  by (induction d) auto










end
