(* ===== verification/Asm_Ops.thy ===== *)
theory Asm_Ops
  imports Py_Re
begin

text \<open>
  The abstract programs of \<^verbatim>\<open>kernel/work.mount.gp_on_demand.proposal/litmus/gen-asm.py\<close>: the
  operations, the builders of the threads, the table of tests, and the variables and registers a
  thread uses. The keyword arguments of \<^verbatim>\<open>unmounter_sections()\<close> are a record whose default value holds
  the default arguments.
\<close>

datatype aop =
    St string int
  | Ld string string
  | Wmb
  | Rmb
  | Mb
  | Lock string string
  | Unlock string
  | Brz string string
  | Brnz string string
  | Brne string int string
  | Brne_reg string string string
  | Label string

type_synonym aprog = "aop list"

section \<open>The builders\<close>

record us_args =
  first_locked :: bool
  flags_sync :: bool
  outer_mb :: bool
  gets_first :: bool
  inner_mb :: bool
  decide :: bool
  gets :: string
  puts :: string

definition us_default :: us_args where
  "us_default = \<lparr>first_locked = True, flags_sync = False, outer_mb = True, gets_first = False,
     inner_mb = True, decide = False, gets = ''gets_h'', puts = ''puts_h''\<rparr>"

definition unmounter_sections :: "us_args \<Rightarrow> aprog" where
  "unmounter_sections a =
     (if first_locked a then
        [Lock ''mlock'' ''q1'', St ''seq'' 1, Wmb, St ''mnt_ns'' 0] @
        (if flags_sync a then [St ''flags'' 1] else []) @
        [Wmb, St ''seq'' 2, Unlock ''mlock''] @
        [Lock ''mlock'' ''q2'', St ''seq'' 3, Wmb]
      else
        [St ''mnt_ns'' 0] @
        [Lock ''mlock'' ''q2'', St ''seq'' 1, Wmb]) @
     (if outer_mb a then [Mb] else []) @
     (let puts_pass = [Ld ''r1'' (puts a), Ld ''r2'' ''puts_u''];
          gets_pass = [Ld ''r3'' (gets a), Ld ''r4'' ''gets_u''];
          mid = (if inner_mb a then [Mb] else [])
      in if gets_first a then gets_pass @ mid @ puts_pass else puts_pass @ mid @ gets_pass) @
     (if decide a then
        [Brnz ''r3'' ''L1'', St ''flags'' 3, St ''freed'' 1, Label ''L1'',
         Brne ''r3'' 1 ''L2'', Brne ''r1'' 1 ''L2'', St ''flags'' 3, St ''freed'' 1, Label ''L2'']
      else []) @
     [Wmb, St ''seq'' (if first_locked a then 4 else 2), Unlock ''mlock'']"

definition holder_a1 :: "bool \<Rightarrow> bool \<Rightarrow> aprog" where
  "holder_a1 wmb getfirst =
     (if getfirst then [St ''gets_h'' 2] else []) @
     [Ld ''r0'' ''mnt_ns'', Brz ''r0'' ''L0''] @
     (if wmb then [Wmb] else []) @
     [St ''puts_h'' 1, Label ''L0'']"

definition holder_d1 :: "bool \<Rightarrow> aprog" where
  "holder_d1 full =
     [Ld ''r0'' ''mnt_ns'', Brz ''r0'' ''L0'', Wmb, St ''puts_h'' 1,
      if full then Mb else Wmb, Ld ''r1'' ''mnt_ns'', Label ''L0'']"

definition walker :: "bool \<Rightarrow> bool \<Rightarrow> aprog" where
  "walker mb locked =
     [Ld ''r0'' ''seq'', Rmb, Rmb, Ld ''r1'' ''seq'', Brnz ''r1'' ''Lend'', St ''gets_w'' 1] @
     (if mb then [Mb] else []) @
     [Rmb, Ld ''r2'' ''seq'', Brz ''r2'' ''Lend''] @
     (if locked then [Lock ''mlock'' ''q0''] else []) @
     [Ld ''r3'' ''flags'', Brz ''r3'' ''Lskip'', St ''puts_w'' 1, Label ''Lskip''] @
     (if locked then [Unlock ''mlock''] else []) @
     [Label ''Lend'']"

definition e1_slowpath :: aprog where
  "e1_slowpath =
     [Lock ''mlock'' ''q1'', St ''seq'' 1, Wmb, St ''mnt_ns'' 0, St ''flags'' 1, Wmb,
      St ''seq'' 2, Unlock ''mlock'',
      Lock ''mlock'' ''q2'', St ''seq'' 3, Wmb, St ''puts_u'' 1,
      Ld ''r1'' ''puts_w'', Ld ''r2'' ''puts_u'', Mb, Ld ''r3'' ''gets_w'', Ld ''r4'' ''gets_u'',
      Brne_reg ''r3'' ''r1'' ''L1'', St ''flags'' 3, St ''freed'' 1, Label ''L1'',
      Wmb, St ''seq'' 4, Unlock ''mlock'']"

definition e2_busycheck :: aprog where
  "e2_busycheck =
     [Lock ''mlock'' ''q1'', St ''seq'' 1, Wmb,
      Ld ''r1'' ''puts_w'', Ld ''r2'' ''puts_u'', Mb, Ld ''r3'' ''gets_w'', Ld ''r4'' ''gets_u'',
      Brne_reg ''r3'' ''r1'' ''L1'', St ''mnt_ns'' 0, St ''flags'' 1, St ''freed'' 1, Label ''L1'',
      Wmb, St ''seq'' 2, Unlock ''mlock'']"

definition unmounter_b2_reduced :: aprog where
  "unmounter_b2_reduced =
     [Lock ''mlock'' ''q2'', St ''seq'' 1, Wmb,
      Ld ''r1'' ''puts_w'', Mb, Ld ''r3'' ''gets_w'',
      Brne_reg ''r3'' ''r1'' ''L1'', St ''flags'' 3, Label ''L1'',
      Wmb, St ''seq'' 2, Unlock ''mlock'']"

section \<open>The tests\<close>

type_synonym test = "(string, int) dict \<times> aprog list \<times> string \<times> string"

definition A1_INIT :: "(string, int) dict" where
  "A1_INIT = [(''mnt_ns'', 1), (''gets_h'', 1), (''gets_u'', 1)]"

definition B_INIT :: "(string, int) dict" where
  "B_INIT = [(''mnt_ns'', 1), (''gets_u'', 1)]"

text \<open>The conjunction of the conditions, \<^verbatim>\<open>/\\<close> in the source.\<close>

definition conj_s :: string where
  "conj_s = ''/'' @ [CHR 0x5C]"

definition conds :: "string list \<Rightarrow> string" where
  "conds = join ('' '' @ conj_s @ '' '')"

definition TESTS :: "(string, test) dict" where
  "TESTS = (let us = us_default; w = us\<lparr>gets := ''gets_w'', puts := ''puts_w''\<rparr>;
      a1 = conds [''0:r0=1'', ''1:r1=1'', ''1:r3=1''];
      d1 = conds [''0:r0=1'', ''0:r1=1'', ''1:r1=0''];
      b1 = conds [''0:r1=0'', ''0:r2=0'', ''freed=1''];
      b2 = conds [''0:r1=0'', ''~(0:r2=0)'', ''0:r3=0'', ''freed=1''] in
    [(''MNT-A1-holder-get-before-put'', (A1_INIT, [holder_a1 True True, unmounter_sections us], a1, ''Never'')),
     (''MNT-A1m-nowmb'', (A1_INIT, [holder_a1 False True, unmounter_sections us], a1, ''Sometimes'')),
     (''MNT-A1m-nomb-in-sum'', (A1_INIT, [holder_a1 True True, unmounter_sections (us\<lparr>inner_mb := False\<rparr>)], a1, ''Sometimes'')),
     (''MNT-A1m-gets-first'', (A1_INIT, [holder_a1 True True, unmounter_sections (us\<lparr>gets_first := True\<rparr>)], a1, ''Sometimes'')),
     (''MNT-C1-kern-unmount-get-before-put'', (A1_INIT, [holder_a1 True True, unmounter_sections (us\<lparr>first_locked := False\<rparr>)], a1, ''Never'')),
     (''MNT-D1-dekker-fastpath-recheck'', (A1_INIT, [holder_d1 True, unmounter_sections us], d1, ''Never'')),
     (''MNT-D1m-holder-wmb-only'', (A1_INIT, [holder_d1 False, unmounter_sections us], d1, ''Sometimes'')),
     (''MNT-B1-walker-inc-vs-peek'', (B_INIT, [walker True True, unmounter_sections (w\<lparr>flags_sync := True, decide := True\<rparr>)], b1, ''Never'')),
     (''MNT-B1m-walker-nomb'', (B_INIT, [walker False True, unmounter_sections (w\<lparr>flags_sync := True, decide := True\<rparr>)], b1, ''Sometimes'')),
     (''MNT-B1m-peek-no-outer-mb'', (B_INIT, [walker True True, unmounter_sections (w\<lparr>flags_sync := True, decide := True, outer_mb := False\<rparr>)], b1, ''Never'')),
     (''MNT-B2-walker-bail-sees-doomed-lazy'', (B_INIT, [walker True True, unmounter_sections (w\<lparr>decide := True\<rparr>)], b2, ''Never'')),
     (''MNT-E1-slowpath-no-outer-mb'', (B_INIT, [walker True True, e1_slowpath], b1, ''Never'')),
     (''MNT-E2-busycheck-no-outer-mb'', (B_INIT, [walker True True, e2_busycheck], b1, ''Never'')),
     (''MNT-B2r-walker-bail-reduced'', ([], [walker True True, unmounter_b2_reduced], conds [''0:r1=0'', ''~(0:r2=0)'', ''0:r3=0'', ''flags=3''], ''Never'')),
     (''MNT-B2m-walker-flags-unlocked'', (B_INIT, [walker True False, unmounter_sections (w\<lparr>decide := True\<rparr>)], b2, ''Sometimes''))])"

definition WALKER_TESTS :: "string list" where
  "WALKER_TESTS = filter (\<lambda>k. str_find ''-B'' k \<noteq> None \<or> str_find ''-E'' k \<noteq> None) (dkeys TESTS)"

section \<open>The variables and registers of a thread\<close>

fun op_var :: "aop \<Rightarrow> string option" where
  "op_var (St v _) = Some v"
| "op_var (Lock v _) = Some v"
| "op_var (Unlock v) = Some v"
| "op_var (Ld _ v) = Some v"
| "op_var _ = None"

fun op_reg :: "aop \<Rightarrow> string option" where
  "op_reg (Ld r _) = Some r"
| "op_reg (Lock _ r) = Some r"
| "op_reg _ = None"

text \<open>\<^verbatim>\<open>if v not in vs: vs.append(v)\<close> over the operations that have one.\<close>

definition collect :: "(aop \<Rightarrow> string option) \<Rightarrow> aprog \<Rightarrow> string list" where
  "collect f ops = foldl (\<lambda>vs op. case f op of None \<Rightarrow> vs | Some v \<Rightarrow> if v \<in> set vs then vs else vs @ [v]) [] ops"

definition vars_of :: "aprog \<Rightarrow> string list" where
  "vars_of = collect op_var"

definition regs_of :: "aprog \<Rightarrow> string list" where
  "regs_of = collect op_reg"

text \<open>\<^verbatim>\<open>{v: i for i, v in enumerate(vs)}\<close> with an offset.\<close>

definition alloc :: "nat \<Rightarrow> string list \<Rightarrow> (string, nat) dict" where
  "alloc n vs = map (\<lambda>(i, v). (v, i)) (enumerate n vs)"

lemma collect_snoc: "collect f (ops @ [op]) =
  (case f op of None \<Rightarrow> collect f ops | Some v \<Rightarrow> if v \<in> set (collect f ops) then collect f ops else collect f ops @ [v])"
  by (cases "f op") (simp_all add: collect_def)

lemma collect_props: "distinct (collect f ops) \<and> set (collect f ops) = {v. \<exists>op\<in>set ops. f op = Some v}"
proof (induction ops rule: rev_induct)
  case (snoc op ops)
  then show ?case by (auto simp: collect_snoc split: option.splits)
qed (simp add: collect_def)

lemma alloc_dom: "dkeys (alloc n vs) = vs"
  by (simp add: alloc_def comp_def case_prod_unfold)

lemma alloc_inj:
  assumes "distinct vs" "map_of (alloc n vs) v = Some i" "map_of (alloc n vs) w = Some i"
  shows "v = w"
proof -
  from assms have "(i, v) \<in> set (enumerate n vs)" "(i, w) \<in> set (enumerate n vs)"
    by (auto simp: alloc_def dest!: map_of_SomeD)
  then show ?thesis by (auto simp: in_set_enumerate_eq)
qed

lemma alloc_range: "map_of (alloc n vs) v = Some i \<Longrightarrow> n \<le> i \<and> i < n + length vs"
  by (auto simp: alloc_def in_set_enumerate_eq dest!: map_of_SomeD)

lemma alloc_some: "v \<in> set vs \<Longrightarrow> \<exists>i. map_of (alloc n vs) v = Some i"
  using alloc_dom [of n vs] by (metis map_of_eq_None_iff not_None_eq set_map)

end
