(* ===== verification/Asm_Backend.thy ===== *)
theory Asm_Backend
  imports Asm_Ops
begin

text \<open>
  The two backends of \<^verbatim>\<open>gen-asm.py\<close> and \<^verbatim>\<open>emit()\<close>: the lines of a thread for AArch64 and PPC, and the
  text of the litmus test. A missing register is the \<^verbatim>\<open>KeyError\<close> of the dictionary lookup.
\<close>

section \<open>Threads\<close>

datatype arch = AArch64 | PPC

record thread =
  b_ops :: aprog
  b_tid :: nat
  b_addr :: "(string, nat) dict"
  b_reg :: "(string, nat) dict"

definition new_a64 :: "aprog \<Rightarrow> nat \<Rightarrow> thread" where
  "new_a64 ops tid = \<lparr>b_ops = ops, b_tid = tid, b_addr = alloc 0 (vars_of ops), b_reg = alloc 10 (regs_of ops)\<rparr>"

definition new_ppc :: "aprog \<Rightarrow> nat \<Rightarrow> thread" where
  "new_ppc ops tid = \<lparr>b_ops = ops, b_tid = tid, b_addr = alloc 20 (vars_of ops), b_reg = alloc 1 (regs_of ops)\<rparr>"

definition addr :: "thread \<Rightarrow> string \<Rightarrow> string result" where
  "addr b v = bindE (dget id (b_addr b) v) (\<lambda>i. Inr (show_nat i))"

definition reg :: "thread \<Rightarrow> string \<Rightarrow> string result" where
  "reg b r = bindE (dget id (b_reg b) r) (\<lambda>i. Inr (show_nat i))"

definition lname :: "thread \<Rightarrow> string \<Rightarrow> string" where
  "lname b l = l @ show_nat (b_tid b)"

section \<open>AArch64\<close>

definition a64_init :: "thread \<Rightarrow> string list" where
  "a64_init b = map (\<lambda>(v, i). show_nat (b_tid b) @ '':X'' @ show_nat i @ ''='' @ v @ '';'') (b_addr b)"

definition a64_regname :: "thread \<Rightarrow> string \<Rightarrow> string result" where
  "a64_regname b r = bindE (reg b r) (\<lambda>i. Inr (''X'' @ i))"

fun a64_op :: "thread \<Rightarrow> aop \<Rightarrow> string list result" where
  "a64_op b (St v n) = bindE (addr b v) (\<lambda>a. Inr [''MOV W9,#'' @ show_int n, ''STR W9,[X'' @ a @ '']''])"
| "a64_op b (Ld r v) = bindE (reg b r) (\<lambda>i. bindE (addr b v) (\<lambda>a. Inr [''LDR W'' @ i @ '',[X'' @ a @ '']'']))"
| "a64_op b Wmb = Inr [''DMB ISHST'']"
| "a64_op b Rmb = Inr [''DMB ISHLD'']"
| "a64_op b Mb = Inr [''DMB ISH'']"
| "a64_op b (Lock v r) = bindE (reg b r) (\<lambda>i. bindE (addr b v) (\<lambda>a.
     Inr [''MOV W9,#1'', ''SWPA W9,W'' @ i @ '',[X'' @ a @ '']'']))"
| "a64_op b (Unlock v) = bindE (addr b v) (\<lambda>a. Inr [''STLR WZR,[X'' @ a @ '']''])"
| "a64_op b (Brz r l) = bindE (reg b r) (\<lambda>i. Inr [''CBZ W'' @ i @ '','' @ lname b l])"
| "a64_op b (Brnz r l) = bindE (reg b r) (\<lambda>i. Inr [''CBNZ W'' @ i @ '','' @ lname b l])"
| "a64_op b (Brne r n l) = bindE (reg b r) (\<lambda>i.
     Inr [''CMP W'' @ i @ '',#'' @ show_int n, ''B.NE '' @ lname b l])"
| "a64_op b (Brne_reg r s l) = bindE (reg b r) (\<lambda>i. bindE (reg b s) (\<lambda>j.
     Inr [''CMP W'' @ i @ '',W'' @ j, ''B.NE '' @ lname b l]))"
| "a64_op b (Label l) = Inr [lname b l @ '':'']"

definition a64_lines :: "thread \<Rightarrow> string list result" where
  "a64_lines b = bindE (mapE (a64_op b) (b_ops b)) (\<lambda>ls. Inr (concat ls))"

section \<open>PPC\<close>

definition ppc_init :: "thread \<Rightarrow> string list" where
  "ppc_init b = map (\<lambda>(v, i). show_nat (b_tid b) @ '':r'' @ show_nat i @ ''='' @ v @ '';'') (b_addr b)"

definition ppc_regname :: "thread \<Rightarrow> string \<Rightarrow> string result" where
  "ppc_regname b r = bindE (reg b r) (\<lambda>i. Inr (''r'' @ i))"

definition lok :: "thread \<Rightarrow> nat \<Rightarrow> string" where
  "lok b n = ''Lok'' @ show_nat (b_tid b) @ show_nat n"

definition lfail :: "thread \<Rightarrow> nat \<Rightarrow> string" where
  "lfail b n = ''Lfail'' @ show_nat (b_tid b) @ show_nat n"

text \<open>The lines of one operation; the counter is \<^verbatim>\<open>self.nlock\<close> after its increment.\<close>

fun ppc_op :: "thread \<Rightarrow> nat \<Rightarrow> aop \<Rightarrow> string list result" where
  "ppc_op b n (St v k) = bindE (addr b v) (\<lambda>a. Inr [''li r10,'' @ show_int k, ''stw r10,0(r'' @ a @ '')''])"
| "ppc_op b n (Ld r v) = bindE (reg b r) (\<lambda>i. bindE (addr b v) (\<lambda>a. Inr [''lwz r'' @ i @ '',0(r'' @ a @ '')'']))"
| "ppc_op b n Wmb = Inr [''lwsync'']"
| "ppc_op b n Rmb = Inr [''lwsync'']"
| "ppc_op b n Mb = Inr [''sync'']"
| "ppc_op b n (Lock v r) = bindE (addr b v) (\<lambda>a. bindE (reg b r) (\<lambda>i.
     Inr [''li r10,1'', ''lwarx r'' @ i @ '',r0,r'' @ a, ''cmpwi r'' @ i @ '',0'', ''bne '' @ lfail b n,
          ''stwcx. r10,r0,r'' @ a, ''bne '' @ lfail b n, ''isync'', ''b '' @ lok b n,
          lfail b n @ '':'', ''li r'' @ i @ '',1'', lok b n @ '':'']))"
| "ppc_op b n (Unlock v) = bindE (addr b v) (\<lambda>a. Inr [''lwsync'', ''li r10,0'', ''stw r10,0(r'' @ a @ '')''])"
| "ppc_op b n (Brz r l) = bindE (reg b r) (\<lambda>i. Inr [''cmpwi r'' @ i @ '',0'', ''beq '' @ lname b l])"
| "ppc_op b n (Brnz r l) = bindE (reg b r) (\<lambda>i. Inr [''cmpwi r'' @ i @ '',0'', ''bne '' @ lname b l])"
| "ppc_op b n (Brne r k l) = bindE (reg b r) (\<lambda>i.
     Inr [''cmpwi r'' @ i @ '','' @ show_int k, ''bne '' @ lname b l])"
| "ppc_op b n (Brne_reg r s l) = bindE (reg b r) (\<lambda>i. bindE (reg b s) (\<lambda>j.
     Inr [''cmpw r'' @ i @ '',r'' @ j, ''bne '' @ lname b l]))"
| "ppc_op b n (Label l) = Inr [lname b l @ '':'']"

fun is_lock :: "aop \<Rightarrow> bool" where
  "is_lock (Lock _ _) = True"
| "is_lock _ = False"

definition ppc_step :: "thread \<Rightarrow> nat \<times> string list \<Rightarrow> aop \<Rightarrow> (nat \<times> string list) result" where
  "ppc_step b = (\<lambda>(nlock, out) op.
     let n = (if is_lock op then nlock + 1 else nlock) in
     bindE (ppc_op b n op) (\<lambda>ls. Inr (n, out @ ls)))"

definition ppc_lines :: "thread \<Rightarrow> string list result" where
  "ppc_lines b = bindE (foldE (ppc_step b) (0, []) (b_ops b)) (\<lambda>(_, out). Inr out)"

section \<open>The interface of a backend and the text of a test\<close>

fun arch_name :: "arch \<Rightarrow> string" where
  "arch_name AArch64 = ''AArch64''"
| "arch_name PPC = ''PPC''"

fun new_thread :: "arch \<Rightarrow> aprog \<Rightarrow> nat \<Rightarrow> thread" where
  "new_thread AArch64 = new_a64"
| "new_thread PPC = new_ppc"

fun thread_init :: "arch \<Rightarrow> thread \<Rightarrow> string list" where
  "thread_init AArch64 = a64_init"
| "thread_init PPC = ppc_init"

fun regname :: "arch \<Rightarrow> thread \<Rightarrow> string \<Rightarrow> string result" where
  "regname AArch64 = a64_regname"
| "regname PPC = ppc_regname"

fun thread_lines :: "arch \<Rightarrow> thread \<Rightarrow> string list result" where
  "thread_lines AArch64 = a64_lines"
| "thread_lines PPC = ppc_lines"

text \<open>\<^verbatim>\<open>max(len(l) for l in c)\<close>; of an empty sequence it raises \<^verbatim>\<open>ValueError\<close>.\<close>

definition max_len :: "'a list list \<Rightarrow> nat result" where
  "max_len c = (if c = [] then Inl (ValueError ''max() arg is an empty sequence'')
     else Inr (Max (length ` set c)))"

definition row :: "nat list \<Rightarrow> string list \<Rightarrow> string" where
  "row w cells = '' '' @ join '' | '' (map (\<lambda>(n, c). ljust n c) (zip w cells)) @ '' ;''"

definition cell :: "nat \<Rightarrow> string list \<Rightarrow> string" where
  "cell j c = (if j < length c then c ! j else [])"

definition body_rows :: "nat \<Rightarrow> nat list \<Rightarrow> string list list \<Rightarrow> string list" where
  "body_rows n w cols = map (\<lambda>j. row w (map (cell j) cols)) [0..<n]"

definition header_row :: "nat list \<Rightarrow> string" where
  "header_row w = row w (map (\<lambda>i. ''P'' @ show_nat i) [0..<length w])"

text \<open>The registers of the conditions: \<^verbatim>\<open>(\d):(r\d|q\d)\<close>, a logical register of a thread.\<close>

definition REG :: rx where
  "REG = seqs [Grp 1 (Cls is_digit), Lit '':'',
     Grp 2 (Alt (Seq (Lit ''r'') (Cls is_digit)) (Seq (Lit ''q'') (Cls is_digit)))]"

definition xl_sub :: "arch \<Rightarrow> thread list \<Rightarrow> rmatch \<Rightarrow> string result" where
  "xl_sub a ths m = bindE (py_int (group_str m 1)) (\<lambda>t.
     let tid = nat t in
     if tid < length ths
     then bindE (regname a (ths ! tid) (group_str m 2)) (\<lambda>r. Inr (show_nat tid @ '':'' @ r))
     else Inl IndexError)"

definition xl :: "arch \<Rightarrow> thread list \<Rightarrow> string \<Rightarrow> string result" where
  "xl a ths cond = re_subE REG (xl_sub a ths) cond"

definition lock_filter :: "aprog list \<Rightarrow> string list" where
  "lock_filter threads = concat (map (\<lambda>(i, ops).
     List.map_filter (\<lambda>op. case op of Lock v q \<Rightarrow> Some (show_nat i @ '':'' @ q @ ''=0'') | _ \<Rightarrow> None) ops)
     (enumerate 0 threads))"

definition filt_of :: "string \<Rightarrow> aprog list \<Rightarrow> string list" where
  "filt_of name threads = lock_filter threads @ (if name \<in> set WALKER_TESTS then [''0:r0=0''] else [])"

definition conds_text :: "string list \<Rightarrow> string \<Rightarrow> string list" where
  "conds_text filt ex =
     (if filt \<noteq> [] then [''filter ('' @ conds filt @ '')''] else []) @ [''exists ('' @ ex @ '')'']"

text \<open>The lines above the table: the title, the comment and the initial state.\<close>

definition preamble :: "arch \<Rightarrow> string \<Rightarrow> string \<Rightarrow> (string, int) dict \<Rightarrow> thread list \<Rightarrow> string list" where
  "preamble a name expect init ths =
     [arch_name a @ '' '' @ name,
      ''(* LKMM result: '' @ expect @ ''; translation of litmus/'' @ name @
        ''.litmus, see gen-asm.py for the barrier mapping *)'', ''{''] @
     map (\<lambda>(v, x). v @ ''='' @ show_int x @ '';'') init @
     concat (map (thread_init a) ths) @ [''}'']"

definition emit :: "arch \<Rightarrow> string \<Rightarrow> test \<Rightarrow> string result" where
  "emit a name = (\<lambda>(init, threads, ex, expect).
     let ths = map (\<lambda>(i, ops). new_thread a ops i) (enumerate 0 threads) in
     bindE (mapE (thread_lines a) ths) (\<lambda>cols.
     bindE (max_len cols) (\<lambda>n.
     bindE (mapE (\<lambda>c. bindE (max_len c) (\<lambda>k. Inr (k + 1))) cols) (\<lambda>w.
     let body = preamble a name expect init ths @ [header_row w] @ body_rows n w cols in
     bindE (xl a ths (join nl (conds_text (filt_of name threads) ex))) (\<lambda>cond.
       Inr (join nl body @ nl @ cond @ nl))))))"

text \<open>The files written by the script, per architecture, and the line it prints.\<close>

definition sub_dir :: "arch \<Rightarrow> string" where
  "sub_dir a = (case a of AArch64 \<Rightarrow> ''aarch64'' | PPC \<Rightarrow> ''ppc'')"

definition asm_main :: "((string, string) dict \<times> string) result" where
  "asm_main = bindE (mapE (\<lambda>(a, name, t). bindE (emit a name t) (\<lambda>body.
       Inr (sub_dir a @ ''/'' @ name @ ''.litmus'', body)))
       (concat (map (\<lambda>a. map (Pair a) TESTS) [AArch64, PPC]))) (\<lambda>files.
     Inr (files, ''generated '' @ show_nat (length TESTS) @ '' tests x 2 archs''))"

end
