(* ===== verification/Asm_Sem.thy ===== *)
theory Asm_Sem
  imports Asm_Backend
begin

text \<open>
  What the translation of \<^verbatim>\<open>gen-asm.py\<close> must preserve, stated as a refinement. The abstract programs
  get a sequential execution over variables and logical registers; the instructions each backend
  uses get one over the registers of the processor, where an address register holds a pointer to a
  variable, as the initial state \<^verbatim>\<open>0:X0=seq;\<close> of the litmus test says. All branches of the programs are
  forward, so both executions are recursions on the rest of the code.

  The interface between the two levels is a locale: the laws a backend promises for every single
  operation, and, proved once inside it, that a whole thread then runs as its program does.
\<close>

section \<open>Abstract execution\<close>

record astate =
  a_reg :: "string \<Rightarrow> int"
  a_mem :: "string \<Rightarrow> int"

fun aeffect :: "aop \<Rightarrow> astate \<Rightarrow> astate" where
  "aeffect (St v n) s = s\<lparr>a_mem := (a_mem s)(v := n)\<rparr>"
| "aeffect (Ld r v) s = s\<lparr>a_reg := (a_reg s)(r := a_mem s v)\<rparr>"
| "aeffect (Lock v r) s = s\<lparr>a_mem := (a_mem s)(v := 1), a_reg := (a_reg s)(r := a_mem s v)\<rparr>"
| "aeffect (Unlock v) s = s\<lparr>a_mem := (a_mem s)(v := 0)\<rparr>"
| "aeffect _ s = s"

fun target :: "aop \<Rightarrow> string option" where
  "target (Brz _ l) = Some l"
| "target (Brnz _ l) = Some l"
| "target (Brne _ _ l) = Some l"
| "target (Brne_reg _ _ l) = Some l"
| "target _ = None"

fun taken :: "aop \<Rightarrow> astate \<Rightarrow> bool" where
  "taken (Brz r _) s = (a_reg s r = 0)"
| "taken (Brnz r _) s = (a_reg s r \<noteq> 0)"
| "taken (Brne r n _) s = (a_reg s r \<noteq> n)"
| "taken (Brne_reg r q _) s = (a_reg s r \<noteq> a_reg s q)"
| "taken _ s = False"

fun op_label :: "aop \<Rightarrow> string option" where
  "op_label (Label l) = Some l"
| "op_label _ = None"

text \<open>The code after the first definition of a label.\<close>

fun after :: "('i \<Rightarrow> string option) \<Rightarrow> string \<Rightarrow> 'i list \<Rightarrow> 'i list option" where
  "after lab l [] = None"
| "after lab l (i # is) = (if lab i = Some l then Some is else after lab l is)"

lemma after_length: "after lab l is = Some rest \<Longrightarrow> length rest < length is"
  by (induction lab l "is" rule: after.induct) (auto split: if_splits)

function aexec :: "aprog \<Rightarrow> astate \<Rightarrow> astate option" where
  "aexec [] s = Some s"
| "aexec (op # ops) s =
     (case target op of
        Some l \<Rightarrow> if taken op s
          then (case after op_label l ops of None \<Rightarrow> None | Some rest \<Rightarrow> aexec rest s)
          else aexec ops s
      | None \<Rightarrow> aexec ops (aeffect op s))"
  by pat_completeness auto

termination aexec
  by (relation "measure (\<lambda>(ops, s). length ops)") (auto dest: after_length)

section \<open>Machines\<close>

datatype mval = Num int | Ptr string

record mach =
  m_reg :: "nat \<Rightarrow> mval"
  m_mem :: "string \<Rightarrow> int"
  m_eq :: bool                 \<comment> \<open>the flag \<^verbatim>\<open>equal\<close> of the last comparison\<close>

definition setr :: "nat \<Rightarrow> mval \<Rightarrow> mach \<Rightarrow> mach" where
  "setr r v m = m\<lparr>m_reg := (m_reg m)(r := v)\<rparr>"

definition load :: "nat \<Rightarrow> mach \<Rightarrow> int option" where
  "load a m = (case m_reg m a of Ptr v \<Rightarrow> Some (m_mem m v) | Num _ \<Rightarrow> None)"

definition store :: "nat \<Rightarrow> mval \<Rightarrow> mach \<Rightarrow> mach option" where
  "store a x m = (case (m_reg m a, x) of (Ptr v, Num i) \<Rightarrow> Some (m\<lparr>m_mem := (m_mem m)(v := i)\<rparr>) | _ \<Rightarrow> None)"

text \<open>A step gives the next state and the branch target, if it branches; a fault is \<open>None\<close>.\<close>

type_synonym 'i stepper = "'i \<Rightarrow> mach \<Rightarrow> (mach \<times> string option) option"

function run :: "'i stepper \<Rightarrow> ('i \<Rightarrow> string option) \<Rightarrow> 'i list \<Rightarrow> mach \<Rightarrow> mach option" where
  "run step lab [] m = Some m"
| "run step lab (i # is) m =
     (case step i m of
        None \<Rightarrow> None
      | Some (m', None) \<Rightarrow> run step lab is m'
      | Some (m', Some l) \<Rightarrow> (case after lab l is of None \<Rightarrow> None | Some rest \<Rightarrow> run step lab rest m'))"
  by pat_completeness auto

termination run
  by (relation "measure (\<lambda>(step, lab, is, m). length is)") (auto dest: after_length)

definition jump :: "'i stepper \<Rightarrow> ('i \<Rightarrow> string option) \<Rightarrow> string \<Rightarrow> 'i list \<Rightarrow> mach \<Rightarrow> mach option" where
  "jump step lab l is m = (case after lab l is of None \<Rightarrow> None | Some rest \<Rightarrow> run step lab rest m)"

lemma run_Cons:
  "run step lab (i # is) m = (case step i m of None \<Rightarrow> None
     | Some (m', None) \<Rightarrow> run step lab is m' | Some (m', Some l) \<Rightarrow> jump step lab l is m')"
  by (simp add: jump_def split: option.splits)

declare run.simps(2) [simp del]
declare run_Cons [simp]

definition labels :: "('i \<Rightarrow> string option) \<Rightarrow> 'i list \<Rightarrow> string list" where
  "labels lab is = List.map_filter lab is"

lemma labels_simps [simp]:
  "labels lab [] = []"
  "labels lab (i # is) = (case lab i of None \<Rightarrow> labels lab is | Some l \<Rightarrow> l # labels lab is)"
  "labels lab (xs @ ys) = labels lab xs @ labels lab ys"
  by (auto simp: labels_def map_filter_def split: option.splits)

lemma after_append: "l \<notin> set (labels lab xs) \<Longrightarrow> after lab l (xs @ ys) = after lab l ys"
  by (induction xs) (auto split: option.splits)

section \<open>Programs that can be compiled\<close>

text \<open>Branches test registers the thread loads and go forward to a label; a lock word is written
  only by the lock operations.\<close>

fun op_tests :: "aop \<Rightarrow> string set" where
  "op_tests (Brz r _) = {r}"
| "op_tests (Brnz r _) = {r}"
| "op_tests (Brne r _ _) = {r}"
| "op_tests (Brne_reg r s _) = {r, s}"
| "op_tests _ = {}"

fun lock_var :: "aop \<Rightarrow> string option" where
  "lock_var (Lock v _) = Some v"
| "lock_var _ = None"

definition lock_vars :: "aprog \<Rightarrow> string list" where
  "lock_vars ops = collect lock_var ops"

definition wf_op :: "aprog \<Rightarrow> aop \<Rightarrow> bool" where
  "wf_op ops op = (op \<in> set ops \<and> op_tests op \<subseteq> set (regs_of ops) \<and>
     (case op of St v _ \<Rightarrow> v \<notin> set (lock_vars ops) | _ \<Rightarrow> True))"

fun resolved :: "aprog \<Rightarrow> bool" where
  "resolved [] = True"
| "resolved (op # ops) = ((case target op of None \<Rightarrow> True | Some l \<Rightarrow> l \<in> set (labels op_label ops)) \<and> resolved ops)"

definition wf_prog :: "aprog \<Rightarrow> bool" where
  "wf_prog ops = (list_all (wf_op ops) ops \<and> resolved ops)"

text \<open>An abstract state and a machine agree under the allocation of a thread: its address registers
  point to its variables, its data registers and the memory hold the same values, and every lock
  word is 0 or 1.\<close>

definition agree :: "thread \<Rightarrow> astate \<Rightarrow> mach \<Rightarrow> bool" where
  "agree b s m = ((\<forall>v i. map_of (b_addr b) v = Some i \<longrightarrow> m_reg m i = Ptr v) \<and>
     (\<forall>r i. map_of (b_reg b) r = Some i \<longrightarrow> m_reg m i = Num (a_reg s r)) \<and>
     m_mem m = a_mem s \<and> (\<forall>v\<in>set (lock_vars (b_ops b)). a_mem s v \<in> {0, 1}))"

lemma after_resolved: "l \<in> set (labels lab is) \<Longrightarrow> \<exists>rest. after lab l is = Some rest"
  by (induction "is") (auto split: option.splits if_splits)

lemma after_suffix: "after lab l is = Some rest \<Longrightarrow> \<exists>pre i. is = pre @ i # rest \<and> lab i = Some l \<and> l \<notin> set (labels lab pre)"
proof (induction "is")
  case (Cons i "is")
  show ?case
  proof (cases "lab i = Some l")
    case True
    with Cons.prems have "i # is = [] @ i # rest" by simp
    with True show ?thesis by (metis empty_iff labels_simps(1) list.set(1))
  next
    case False
    with Cons obtain pre j where "is = pre @ j # rest" "lab j = Some l" "l \<notin> set (labels lab pre)" by auto
    moreover then have "i # is = (i # pre) @ j # rest" "l \<notin> set (labels lab (i # pre))"
      using False by (auto split: option.splits)
    ultimately show ?thesis by blast
  qed
qed simp

lemma resolved_append: "resolved (xs @ ys) \<Longrightarrow> resolved ys"
  by (induction xs) auto

text \<open>A well-formed program never stops at an unknown label.\<close>

lemma aexec_total: "resolved ops \<Longrightarrow> \<exists>s'. aexec ops s = Some s'"
proof (induction ops s rule: aexec.induct)
  case (2 op ops s)
  show ?case
  proof (cases "target op")
    case None
    with 2 show ?thesis by simp
  next
    case (Some l)
    with 2(4) obtain rest where r: "after op_label l ops = Some rest" using after_resolved by fastforce
    have "resolved rest" using after_suffix [OF r] 2(4) resolved_append by (metis append_Cons append_assoc resolved.simps(2) append_Nil)
    with 2 Some r show ?thesis by simp
  qed
qed simp

section \<open>The interface of a backend\<close>

text \<open>The code of a program, operation by operation, with the running number of the lock.\<close>

fun compile :: "(thread \<Rightarrow> nat \<Rightarrow> aop \<Rightarrow> 'i list) \<Rightarrow> thread \<Rightarrow> nat \<Rightarrow> aprog \<Rightarrow> 'i list" where
  "compile gen b n [] = []"
| "compile gen b n (op # ops) =
     (let n' = (if is_lock op then n + 1 else n) in gen b n' op @ compile gen b n' ops)"

locale asm_backend =
  fixes new :: "aprog \<Rightarrow> nat \<Rightarrow> thread"
    and gen :: "thread \<Rightarrow> nat \<Rightarrow> aop \<Rightarrow> 'i list"
    and step :: "'i stepper"
    and lab :: "'i \<Rightarrow> string option"
    and fits :: "aprog \<Rightarrow> bool"
  assumes plain:
      "fits ops \<Longrightarrow> wf_op ops op \<Longrightarrow> target op = None \<Longrightarrow> op_label op = None \<Longrightarrow> agree (new ops tid) s m \<Longrightarrow>
       distinct (labels lab (gen (new ops tid) k op @ rest)) \<Longrightarrow>
       \<exists>m'. run step lab (gen (new ops tid) k op @ rest) m = run step lab rest m' \<and>
            agree (new ops tid) (aeffect op s) m'"
    and branch:
      "fits ops \<Longrightarrow> wf_op ops op \<Longrightarrow> target op = Some l \<Longrightarrow> agree (new ops tid) s m \<Longrightarrow>
       \<exists>m'. run step lab (gen (new ops tid) k op @ rest) m =
              (if taken op s then jump step lab (lname (new ops tid) l) rest m' else run step lab rest m') \<and>
            agree (new ops tid) s m'"
    and label:
      "\<exists>i. gen b k (Label l) = [i] \<and> lab i = Some (lname b l) \<and> (\<forall>m. step i m = Some (m, None))"
begin

lemma label_compiled:
  "l \<in> set (labels op_label ops) \<Longrightarrow> lname b l \<in> set (labels lab (compile gen b n ops))"
proof (induction ops arbitrary: n)
  case (Cons op ops)
  show ?case
  proof (cases "op = Label l")
    case True
    then show ?thesis using label [of b n l] by (auto simp: Let_def)
  next
    case False
    with Cons.prems have "l \<in> set (labels op_label ops)" by (cases op) (auto split: option.splits)
    then show ?thesis using Cons.IH by (simp add: Let_def)
  qed
qed simp

lemma after_compiled:
  assumes "after op_label l ops = Some rest" "distinct (labels lab (compile gen b n ops))"
  shows "\<exists>n'. after lab (lname b l) (compile gen b n ops) = Some (compile gen b n' rest) \<and>
    distinct (labels lab (compile gen b n' rest))"
  using assms
proof (induction ops arbitrary: n)
  case (Cons op ops)
  let ?n = "if is_lock op then n + 1 else n"
  show ?case
  proof (cases "op_label op = Some l")
    case True
    then have "op = Label l" by (cases op) auto
    with Cons.prems label [of b n l] show ?thesis by (auto intro: exI [of _ n])
  next
    case False
    with Cons.prems have a: "after op_label l ops = Some rest" by simp
    then have "lname b l \<in> set (labels lab (compile gen b ?n ops))"
      using after_suffix [OF a] by (intro label_compiled) auto
    with Cons.prems(2) have "lname b l \<notin> set (labels lab (gen b ?n op))" by (auto simp: Let_def)
    with Cons.IH [OF a, of ?n] Cons.prems(2) show ?thesis by (simp add: Let_def after_append)
  qed
qed simp

text \<open>A thread runs as its program does.\<close>

lemma simulates:
  "aexec ops s = Some s' \<Longrightarrow> fits full \<Longrightarrow> list_all (wf_op full) ops \<Longrightarrow>
   distinct (labels lab (compile gen (new full tid) n ops)) \<Longrightarrow> agree (new full tid) s m \<Longrightarrow>
   \<exists>m'. run step lab (compile gen (new full tid) n ops) m = Some m' \<and> agree (new full tid) s' m'"
proof (induction ops s arbitrary: n m rule: aexec.induct)
  case (2 op ops s)
  let ?b = "new full tid" and ?n = "if is_lock op then n + 1 else n"
  let ?c = "gen ?b ?n op" and ?r = "compile gen ?b ?n ops"
  have w: "wf_op full op" "list_all (wf_op full) ops" using 2(6) by auto
  have d: "distinct (labels lab (?c @ ?r))" using 2(7) by (simp add: Let_def)
  then have dr: "distinct (labels lab ?r)" by simp
  show ?case
  proof (cases "target op")
    case None
    have ex: "aexec ops (aeffect op s) = Some s'" using 2(4) None by simp
    have "\<exists>m'. run step lab (?c @ ?r) m = run step lab ?r m' \<and> agree ?b (aeffect op s) m'"
    proof (cases "op_label op")
      case None
      show ?thesis by (rule plain [OF 2(5) w(1) \<open>target op = None\<close> None 2(8) d])
    next
      case (Some l)
      then have "op = Label l" by (cases op) auto
      with label [of ?b ?n l] 2(8) show ?thesis by auto
    qed
    with 2(1) [OF None ex 2(5) w(2) dr] show ?thesis by (auto simp: Let_def)
  next
    case (Some l)
    obtain m' where m': "agree ?b s m'"
      "run step lab (?c @ ?r) m = (if taken op s then jump step lab (lname ?b l) ?r m' else run step lab ?r m')"
      using branch [OF 2(5) w(1) Some 2(8)] by blast
    show ?thesis
    proof (cases "taken op s")
      case False
      then have "aexec ops s = Some s'" using 2(4) Some by simp
      with 2(3) [OF Some False _ 2(5) w(2) dr m'(1)] m'(2) False show ?thesis by (simp add: Let_def)
    next
      case True
      then obtain rest where r: "after op_label l ops = Some rest" "aexec rest s = Some s'"
        using 2(4) Some by (auto split: option.splits)
      obtain n' where n': "after lab (lname ?b l) ?r = Some (compile gen ?b n' rest)"
        "distinct (labels lab (compile gen ?b n' rest))"
        using after_compiled [OF r(1) dr] by blast
      have "list_all (wf_op full) rest" using after_suffix [OF r(1)] w(2) by auto
      from 2(2) [OF Some True r(1) r(2) 2(5) this n'(2) m'(1)] m'(2) True n'(1) show ?thesis
        by (simp add: jump_def Let_def)
    qed
  qed
qed simp

lemma thread_correct:
  assumes "wf_prog ops" "fits ops" "distinct (labels lab (compile gen (new ops tid) 0 ops))"
    and "agree (new ops tid) s m"
  obtains s' m' where "aexec ops s = Some s'" "run step lab (compile gen (new ops tid) 0 ops) m = Some m'"
    "agree (new ops tid) s' m'"
proof -
  obtain s' where s': "aexec ops s = Some s'" using assms(1) aexec_total by (auto simp: wf_prog_def)
  have "list_all (wf_op ops) ops" using assms(1) by (simp add: wf_prog_def)
  with simulates [OF s' assms(2) _ assms(3,4)] s' that show thesis by blast
qed

end

end
