(* ===== verification/Asm_Correct.thy ===== *)
theory Asm_Correct
  imports Asm_Sem
begin

text \<open>
  The two backends of \<^verbatim>\<open>gen-asm.py\<close> keep the interface of Asm_Sem: the instructions each of them uses,
  how an instruction is printed, that the lines of a thread are the printed instructions, and the
  interpretation of the interface. The theorems then hold for every thread of every test.
\<close>

definition num :: "(string, nat) dict \<Rightarrow> string \<Rightarrow> nat" where
  "num d k = (case map_of d k of None \<Rightarrow> 0 | Some i \<Rightarrow> i)"

lemma num_Some [simp]: "map_of d k = Some i \<Longrightarrow> num d k = i"
  by (simp add: num_def)

section \<open>AArch64\<close>

datatype a64 =
    MOV nat int | STRW nat nat | LDRW nat nat | DMB string | SWPA nat nat nat | STLR_ZR nat
  | CBZ nat string | CBNZ nat string | CMPI nat int | CMPR nat nat | B_NE string | A_label string

fun a64_render :: "a64 \<Rightarrow> string" where
  "a64_render (MOV r n) = ''MOV W'' @ show_nat r @ '',#'' @ show_int n"
| "a64_render (STRW r a) = ''STR W'' @ show_nat r @ '',[X'' @ show_nat a @ '']''"
| "a64_render (LDRW r a) = ''LDR W'' @ show_nat r @ '',[X'' @ show_nat a @ '']''"
| "a64_render (DMB k) = ''DMB '' @ k"
| "a64_render (SWPA s r a) = ''SWPA W'' @ show_nat s @ '',W'' @ show_nat r @ '',[X'' @ show_nat a @ '']''"
| "a64_render (STLR_ZR a) = ''STLR WZR,[X'' @ show_nat a @ '']''"
| "a64_render (CBZ r l) = ''CBZ W'' @ show_nat r @ '','' @ l"
| "a64_render (CBNZ r l) = ''CBNZ W'' @ show_nat r @ '','' @ l"
| "a64_render (CMPI r n) = ''CMP W'' @ show_nat r @ '',#'' @ show_int n"
| "a64_render (CMPR r s) = ''CMP W'' @ show_nat r @ '',W'' @ show_nat s"
| "a64_render (B_NE l) = ''B.NE '' @ l"
| "a64_render (A_label l) = l @ '':''"

fun a64_step :: "a64 stepper" where
  "a64_step (MOV r n) m = Some (setr r (Num n) m, None)"
| "a64_step (STRW r a) m = map_option (\<lambda>m'. (m', None)) (store a (m_reg m r) m)"
| "a64_step (LDRW r a) m = map_option (\<lambda>x. (setr r (Num x) m, None)) (load a m)"
| "a64_step (DMB k) m = Some (m, None)"
| "a64_step (SWPA s r a) m = (case (load a m, store a (m_reg m s) m) of
     (Some x, Some m') \<Rightarrow> Some (setr r (Num x) m', None) | _ \<Rightarrow> None)"
| "a64_step (STLR_ZR a) m = map_option (\<lambda>m'. (m', None)) (store a (Num 0) m)"
| "a64_step (CBZ r l) m = (case m_reg m r of Num x \<Rightarrow> Some (m, if x = 0 then Some l else None) | Ptr _ \<Rightarrow> None)"
| "a64_step (CBNZ r l) m = (case m_reg m r of Num x \<Rightarrow> Some (m, if x \<noteq> 0 then Some l else None) | Ptr _ \<Rightarrow> None)"
| "a64_step (CMPI r n) m = (case m_reg m r of Num x \<Rightarrow> Some (m\<lparr>m_eq := (x = n)\<rparr>, None) | Ptr _ \<Rightarrow> None)"
| "a64_step (CMPR r s) m = (case (m_reg m r, m_reg m s) of
     (Num x, Num y) \<Rightarrow> Some (m\<lparr>m_eq := (x = y)\<rparr>, None) | _ \<Rightarrow> None)"
| "a64_step (B_NE l) m = Some (m, if m_eq m then None else Some l)"
| "a64_step (A_label l) m = Some (m, None)"

fun a64_lab :: "a64 \<Rightarrow> string option" where
  "a64_lab (A_label l) = Some l"
| "a64_lab _ = None"

fun a64_code :: "thread \<Rightarrow> nat \<Rightarrow> aop \<Rightarrow> a64 list" where
  "a64_code b n (St v k) = [MOV 9 k, STRW 9 (num (b_addr b) v)]"
| "a64_code b n (Ld r v) = [LDRW (num (b_reg b) r) (num (b_addr b) v)]"
| "a64_code b n Wmb = [DMB ''ISHST'']"
| "a64_code b n Rmb = [DMB ''ISHLD'']"
| "a64_code b n Mb = [DMB ''ISH'']"
| "a64_code b n (Lock v r) = [MOV 9 1, SWPA 9 (num (b_reg b) r) (num (b_addr b) v)]"
| "a64_code b n (Unlock v) = [STLR_ZR (num (b_addr b) v)]"
| "a64_code b n (Brz r l) = [CBZ (num (b_reg b) r) (lname b l)]"
| "a64_code b n (Brnz r l) = [CBNZ (num (b_reg b) r) (lname b l)]"
| "a64_code b n (Brne r k l) = [CMPI (num (b_reg b) r) k, B_NE (lname b l)]"
| "a64_code b n (Brne_reg r s l) = [CMPR (num (b_reg b) r) (num (b_reg b) s), B_NE (lname b l)]"
| "a64_code b n (Label l) = [A_label (lname b l)]"

text \<open>The nine registers X0 to X8 below the scratch register W9 hold the addresses.\<close>

definition a64_fits :: "aprog \<Rightarrow> bool" where
  "a64_fits ops = (length (vars_of ops) \<le> 9)"

section \<open>What the allocation gives an operation\<close>

lemma wf_op_var: "wf_op ops op \<Longrightarrow> op_var op = Some v \<Longrightarrow> v \<in> set (vars_of ops)"
  unfolding wf_op_def vars_of_def using collect_props [of op_var ops] by auto

lemma wf_op_reg: "wf_op ops op \<Longrightarrow> op_reg op = Some r \<Longrightarrow> r \<in> set (regs_of ops)"
  unfolding wf_op_def regs_of_def using collect_props [of op_reg ops] by auto

lemma wf_op_lock: "wf_op ops (Lock v r) \<Longrightarrow> v \<in> set (lock_vars ops)"
  unfolding wf_op_def lock_vars_def using collect_props [of lock_var ops] by force

lemma vars_distinct: "distinct (vars_of ops)" and regs_distinct: "distinct (regs_of ops)"
  using collect_props by (auto simp: vars_of_def regs_of_def)

text \<open>Writing a scratch or a data register keeps the agreement elsewhere.\<close>

definition apart :: "thread \<Rightarrow> bool" where
  "apart b = (\<forall>v i r j. map_of (b_addr b) v = Some i \<longrightarrow> map_of (b_reg b) r = Some j \<longrightarrow> i \<noteq> j)"

definition scratch :: "nat \<Rightarrow> thread \<Rightarrow> bool" where
  "scratch k b = ((\<forall>v. map_of (b_addr b) v \<noteq> Some k) \<and> (\<forall>r. map_of (b_reg b) r \<noteq> Some k))"

definition inj_regs :: "thread \<Rightarrow> bool" where
  "inj_regs b = (\<forall>r r' i. map_of (b_reg b) r = Some i \<longrightarrow> map_of (b_reg b) r' = Some i \<longrightarrow> r = r')"

lemma agree_scratch: "agree b s m \<Longrightarrow> scratch k b \<Longrightarrow> agree b s (setr k x m)"
  by (auto simp: agree_def scratch_def setr_def)

lemma agree_eq: "agree b s m \<Longrightarrow> agree b s (m\<lparr>m_eq := e\<rparr>)"
  by (simp add: agree_def)

lemma agree_reg:
  assumes "agree b s m" "map_of (b_reg b) r = Some i" "apart b" "inj_regs b"
  shows "agree b (s\<lparr>a_reg := (a_reg s)(r := x)\<rparr>) (setr i (Num x) m)"
  using assms by (fastforce simp: agree_def setr_def apart_def inj_regs_def)

lemma agree_mem:
  assumes "agree b s m" "v \<in> set (lock_vars (b_ops b)) \<longrightarrow> x \<in> {0, 1}"
  shows "agree b (s\<lparr>a_mem := (a_mem s)(v := x)\<rparr>) (m\<lparr>m_mem := (m_mem m)(v := x)\<rparr>)"
  using assms by (auto simp: agree_def)

lemma agree_load: "agree b s m \<Longrightarrow> map_of (b_addr b) v = Some i \<Longrightarrow> load i m = Some (a_mem s v)"
  by (auto simp: agree_def load_def)

lemma agree_store:
  "agree b s m \<Longrightarrow> map_of (b_addr b) v = Some i \<Longrightarrow> store i (Num x) m = Some (m\<lparr>m_mem := (m_mem m)(v := x)\<rparr>)"
  by (auto simp: agree_def store_def)

lemma agree_data: "agree b s m \<Longrightarrow> map_of (b_reg b) r = Some i \<Longrightarrow> m_reg m i = Num (a_reg s r)"
  by (auto simp: agree_def)

lemma a64_alloc:
  assumes "a64_fits ops"
  shows "apart (new_a64 ops tid)" "scratch 9 (new_a64 ops tid)" "inj_regs (new_a64 ops tid)"
  using assms alloc_inj [OF regs_distinct]
  by (auto simp: apart_def scratch_def inj_regs_def new_a64_def a64_fits_def dest!: alloc_range)

lemma new_a64_simps [simp]:
  "b_ops (new_a64 ops tid) = ops" "b_addr (new_a64 ops tid) = alloc 0 (vars_of ops)"
  "b_reg (new_a64 ops tid) = alloc 10 (regs_of ops)" "b_tid (new_a64 ops tid) = tid"
  by (simp_all add: new_a64_def)

lemma wf_op_addr:
  "wf_op ops op \<Longrightarrow> op_var op = Some v \<Longrightarrow> \<exists>i. map_of (alloc n (vars_of ops)) v = Some i"
  by (intro alloc_some wf_op_var)

lemma wf_op_data:
  "wf_op ops op \<Longrightarrow> op_reg op = Some r \<Longrightarrow> \<exists>i. map_of (alloc n (regs_of ops)) r = Some i"
  by (intro alloc_some wf_op_reg)

lemma wf_op_test:
  "wf_op ops op \<Longrightarrow> r \<in> op_tests op \<Longrightarrow> \<exists>i. map_of (alloc n (regs_of ops)) r = Some i"
  by (intro alloc_some) (auto simp: wf_op_def)

lemma setr_same [simp]: "m_reg (setr k x m) k = x"
  by (simp add: setr_def)

lemma a64_plain:
  assumes fit: "a64_fits ops" and wf: "wf_op ops op" and t: "target op = None" "op_label op = None"
    and ag: "agree (new_a64 ops tid) s m"
  shows "\<exists>m'. run a64_step a64_lab (a64_code (new_a64 ops tid) k op @ rest) m = run a64_step a64_lab rest m' \<and>
    agree (new_a64 ops tid) (aeffect op s) m'"
proof -
  let ?b = "new_a64 ops tid"
  note al = a64_alloc [OF fit, of tid]
  have a9: "agree ?b s (setr 9 x m)" for x by (rule agree_scratch [OF ag al(2)])
  show ?thesis
  proof (cases op)
    case (St v n)
    with wf_op_addr [OF wf, of v 0] obtain i where i: "map_of (b_addr ?b) v = Some i" by auto
    have "v \<notin> set (lock_vars (b_ops ?b))" using wf St by (simp add: wf_op_def)
    then show ?thesis
      using agree_mem [OF a9 [of "Num n"], where v = v and x = n] agree_store [OF a9 [of "Num n"] i, of n] i
      by (auto simp: St)
  next
    case (Ld r v)
    with wf_op_addr [OF wf, of v 0] wf_op_data [OF wf, of r 10] obtain i j
      where ij: "map_of (b_addr ?b) v = Some i" "map_of (b_reg ?b) r = Some j" by auto
    then show ?thesis using agree_reg [OF ag ij(2) al(1,3)] agree_load [OF ag ij(1)] by (auto simp: Ld)
  next
    case (Lock v r)
    with wf_op_addr [OF wf, of v 0] wf_op_data [OF wf, of r 10] obtain i j
      where ij: "map_of (b_addr ?b) v = Some i" "map_of (b_reg ?b) r = Some j" by auto
    let ?m = "(setr 9 (Num 1) m)\<lparr>m_mem := (m_mem (setr 9 (Num 1) m))(v := 1)\<rparr>"
    have "agree ?b (s\<lparr>a_mem := (a_mem s)(v := 1)\<rparr>) ?m" by (rule agree_mem [OF a9]) simp
    from agree_reg [OF this ij(2) al(1,3), of "a_mem s v"] show ?thesis
      using agree_load [OF a9 [of "Num 1"] ij(1)] agree_store [OF a9 [of "Num 1"] ij(1), of 1] ij by (auto simp: Lock)
  next
    case (Unlock v)
    with wf_op_addr [OF wf, of v 0] obtain i where i: "map_of (b_addr ?b) v = Some i" by auto
    then show ?thesis using agree_mem [OF ag, of v 0] agree_store [OF ag i, of 0] by (auto simp: Unlock)
  qed (use ag t in auto)
qed

lemma a64_branch:
  assumes wf: "wf_op ops op" and t: "target op = Some l" and ag: "agree (new_a64 ops tid) s m"
  shows "\<exists>m'. run a64_step a64_lab (a64_code (new_a64 ops tid) k op @ rest) m =
      (if taken op s then jump a64_step a64_lab (lname (new_a64 ops tid) l) rest m' else run a64_step a64_lab rest m') \<and>
    agree (new_a64 ops tid) s m'"
proof -
  let ?b = "new_a64 ops tid"
  have r: "\<exists>i. map_of (b_reg ?b) r = Some i \<and> m_reg m i = Num (a_reg s r)" if "r \<in> op_tests op" for r
    using wf_op_test [OF wf that, of 10] agree_data [OF ag, of r] by auto
  show ?thesis
  proof (cases op)
    case (Brz q x)
    with r [of q] t ag show ?thesis by (auto intro!: exI [of _ m])
  next
    case (Brnz q x)
    with r [of q] t ag show ?thesis by (auto intro!: exI [of _ m])
  next
    case (Brne q n x)
    with r [of q] t agree_eq [OF ag] show ?thesis
      by (auto intro!: exI [of _ "m\<lparr>m_eq := (a_reg s q = n)\<rparr>"])
  next
    case (Brne_reg q p x)
    with r [of q] r [of p] t agree_eq [OF ag] show ?thesis
      by (auto intro!: exI [of _ "m\<lparr>m_eq := (a_reg s q = a_reg s p)\<rparr>"])
  qed (use t in auto)
qed

interpretation a64: asm_backend new_a64 a64_code a64_step a64_lab a64_fits
  by unfold_locales (simp_all add: a64_plain a64_branch)

section \<open>PPC\<close>

datatype ppc =
    LI nat int | STW nat nat | LWZ nat nat | LWSYNC | SYNC | ISYNC | LWARX nat nat | STWCX nat nat
  | CMPWI nat int | CMPW nat nat | BEQ string | BNE string | BR string | P_label string

fun ppc_render :: "ppc \<Rightarrow> string" where
  "ppc_render (LI r n) = ''li r'' @ show_nat r @ '','' @ show_int n"
| "ppc_render (STW r a) = ''stw r'' @ show_nat r @ '',0(r'' @ show_nat a @ '')''"
| "ppc_render (LWZ r a) = ''lwz r'' @ show_nat r @ '',0(r'' @ show_nat a @ '')''"
| "ppc_render LWSYNC = ''lwsync''"
| "ppc_render SYNC = ''sync''"
| "ppc_render ISYNC = ''isync''"
| "ppc_render (LWARX r a) = ''lwarx r'' @ show_nat r @ '',r0,r'' @ show_nat a"
| "ppc_render (STWCX r a) = ''stwcx. r'' @ show_nat r @ '',r0,r'' @ show_nat a"
| "ppc_render (CMPWI r n) = ''cmpwi r'' @ show_nat r @ '','' @ show_int n"
| "ppc_render (CMPW r s) = ''cmpw r'' @ show_nat r @ '',r'' @ show_nat s"
| "ppc_render (BEQ l) = ''beq '' @ l"
| "ppc_render (BNE l) = ''bne '' @ l"
| "ppc_render (BR l) = ''b '' @ l"
| "ppc_render (P_label l) = l @ '':''"

text \<open>A thread running alone keeps its reservation, so \<^verbatim>\<open>stwcx.\<close> succeeds and sets the flag.\<close>

fun ppc_exec :: "ppc stepper" where
  "ppc_exec (LI r n) m = Some (setr r (Num n) m, None)"
| "ppc_exec (STW r a) m = map_option (\<lambda>m'. (m', None)) (store a (m_reg m r) m)"
| "ppc_exec (LWZ r a) m = map_option (\<lambda>x. (setr r (Num x) m, None)) (load a m)"
| "ppc_exec (LWARX r a) m = map_option (\<lambda>x. (setr r (Num x) m, None)) (load a m)"
| "ppc_exec (STWCX r a) m = map_option (\<lambda>m'. (m'\<lparr>m_eq := True\<rparr>, None)) (store a (m_reg m r) m)"
| "ppc_exec (CMPWI r n) m = (case m_reg m r of Num x \<Rightarrow> Some (m\<lparr>m_eq := (x = n)\<rparr>, None) | Ptr _ \<Rightarrow> None)"
| "ppc_exec (CMPW r s) m = (case (m_reg m r, m_reg m s) of
     (Num x, Num y) \<Rightarrow> Some (m\<lparr>m_eq := (x = y)\<rparr>, None) | _ \<Rightarrow> None)"
| "ppc_exec (BEQ l) m = Some (m, if m_eq m then Some l else None)"
| "ppc_exec (BNE l) m = Some (m, if m_eq m then None else Some l)"
| "ppc_exec (BR l) m = Some (m, Some l)"
| "ppc_exec _ m = Some (m, None)"

fun ppc_lab :: "ppc \<Rightarrow> string option" where
  "ppc_lab (P_label l) = Some l"
| "ppc_lab _ = None"

fun ppc_code :: "thread \<Rightarrow> nat \<Rightarrow> aop \<Rightarrow> ppc list" where
  "ppc_code b n (St v k) = [LI 10 k, STW 10 (num (b_addr b) v)]"
| "ppc_code b n (Ld r v) = [LWZ (num (b_reg b) r) (num (b_addr b) v)]"
| "ppc_code b n Wmb = [LWSYNC]"
| "ppc_code b n Rmb = [LWSYNC]"
| "ppc_code b n Mb = [SYNC]"
| "ppc_code b n (Lock v r) = (let a = num (b_addr b) v; i = num (b_reg b) r in
     [LI 10 1, LWARX i a, CMPWI i 0, BNE (lfail b n), STWCX 10 a, BNE (lfail b n), ISYNC, BR (lok b n),
      P_label (lfail b n), LI i 1, P_label (lok b n)])"
| "ppc_code b n (Unlock v) = [LWSYNC, LI 10 0, STW 10 (num (b_addr b) v)]"
| "ppc_code b n (Brz r l) = [CMPWI (num (b_reg b) r) 0, BEQ (lname b l)]"
| "ppc_code b n (Brnz r l) = [CMPWI (num (b_reg b) r) 0, BNE (lname b l)]"
| "ppc_code b n (Brne r k l) = [CMPWI (num (b_reg b) r) k, BNE (lname b l)]"
| "ppc_code b n (Brne_reg r s l) = [CMPW (num (b_reg b) r) (num (b_reg b) s), BNE (lname b l)]"
| "ppc_code b n (Label l) = [P_label (lname b l)]"

text \<open>The nine registers r1 to r9 below the scratch register r10 hold the data.\<close>

definition ppc_fits :: "aprog \<Rightarrow> bool" where
  "ppc_fits ops = (length (regs_of ops) \<le> 9)"

lemma new_ppc_simps [simp]:
  "b_ops (new_ppc ops tid) = ops" "b_addr (new_ppc ops tid) = alloc 20 (vars_of ops)"
  "b_reg (new_ppc ops tid) = alloc 1 (regs_of ops)" "b_tid (new_ppc ops tid) = tid"
  by (simp_all add: new_ppc_def)

lemma ppc_alloc:
  assumes "ppc_fits ops"
  shows "apart (new_ppc ops tid)" "scratch 10 (new_ppc ops tid)" "inj_regs (new_ppc ops tid)"
  using assms alloc_inj [OF regs_distinct]
  by (auto simp: apart_def scratch_def inj_regs_def ppc_fits_def dest!: alloc_range)

lemma setr_other [simp]: "i \<noteq> k \<Longrightarrow> m_reg (setr k x m) i = m_reg m i"
  by (simp add: setr_def)

lemma lok_lfail [simp]: "lfail b n \<noteq> lok b n"
  by (simp add: lok_def lfail_def)

lemma ppc_lock:
  assumes fit: "ppc_fits ops" and wf: "wf_op ops (Lock v r)" and ag: "agree (new_ppc ops tid) s m"
  shows "\<exists>m'. run ppc_exec ppc_lab (ppc_code (new_ppc ops tid) k (Lock v r) @ rest) m = run ppc_exec ppc_lab rest m' \<and>
    agree (new_ppc ops tid) (aeffect (Lock v r) s) m'"
proof -
  let ?b = "new_ppc ops tid"
  note al = ppc_alloc [OF fit, of tid]
  from wf_op_addr [OF wf, of v 20] wf_op_data [OF wf, of r 1] obtain i j
    where ij: "map_of (b_addr ?b) v = Some i" "map_of (b_reg ?b) r = Some j" by auto
  have j10: "j \<noteq> 10" using al(2) ij(2) by (auto simp: scratch_def)
  have ij': "i \<noteq> j" using al(1) ij by (auto simp: apart_def)
  have x01: "a_mem s v \<in> {0, 1}" using ag wf_op_lock [OF wf] by (simp add: agree_def)
  let ?m0 = "setr 10 (Num 1) m"
  let ?m1 = "setr j (Num (a_mem s v)) ?m0"
  have a0: "agree ?b s ?m0" by (rule agree_scratch [OF ag al(2)])
  have ld: "load i ?m0 = Some (a_mem s v)" by (rule agree_load [OF a0 ij(1)])
  have a1: "agree ?b (s\<lparr>a_reg := (a_reg s)(r := a_mem s v)\<rparr>) ?m1" by (rule agree_reg [OF a0 ij(2) al(1,3)])
  show ?thesis
  proof (cases "a_mem s v = 0")
    case True
    let ?m2 = "?m1\<lparr>m_eq := True\<rparr>"
    have a2: "agree ?b (s\<lparr>a_reg := (a_reg s)(r := a_mem s v)\<rparr>) ?m2" by (rule agree_eq [OF a1])
    have st: "store i (Num 1) ?m2 = Some (?m2\<lparr>m_mem := (m_mem ?m2)(v := 1)\<rparr>)" by (rule agree_store [OF a2 ij(1)])
    have "agree ?b (s\<lparr>a_reg := (a_reg s)(r := a_mem s v), a_mem := (a_mem s)(v := 1)\<rparr>) (?m2\<lparr>m_mem := (m_mem ?m2)(v := 1)\<rparr>)"
      using agree_mem [OF a2, of v 1] by simp
    then show ?thesis
      using ij ld st True j10 ij'
      by (auto simp: jump_def agree_def intro!: exI [of _ "?m2\<lparr>m_mem := (m_mem ?m2)(v := 1), m_eq := True\<rparr>"])
  next
    case False
    then have one: "a_mem s v = 1" using x01 by simp
    let ?m2 = "setr j (Num 1) (?m1\<lparr>m_eq := False\<rparr>)"
    have "agree ?b (s\<lparr>a_reg := (a_reg s)(r := 1)\<rparr>) ?m2"
      using agree_reg [OF agree_eq [OF a1] ij(2) al(1,3), of 1] by simp
    moreover have "s\<lparr>a_mem := (a_mem s)(v := 1), a_reg := (a_reg s)(r := 1)\<rparr> = s\<lparr>a_reg := (a_reg s)(r := 1)\<rparr>"
      using one by (cases s) (auto simp: fun_upd_idem)
    ultimately show ?thesis
      using ij ld one j10 by (auto simp: jump_def intro!: exI [of _ ?m2])
  qed
qed

lemma ppc_plain:
  assumes fit: "ppc_fits ops" and wf: "wf_op ops op" and t: "target op = None" "op_label op = None"
    and ag: "agree (new_ppc ops tid) s m"
  shows "\<exists>m'. run ppc_exec ppc_lab (ppc_code (new_ppc ops tid) k op @ rest) m = run ppc_exec ppc_lab rest m' \<and>
    agree (new_ppc ops tid) (aeffect op s) m'"
proof -
  let ?b = "new_ppc ops tid"
  note al = ppc_alloc [OF fit, of tid]
  have a10: "agree ?b s (setr 10 x m)" for x by (rule agree_scratch [OF ag al(2)])
  show ?thesis
  proof (cases op)
    case (St v n)
    with wf_op_addr [OF wf, of v 20] obtain i where i: "map_of (b_addr ?b) v = Some i" by auto
    have "v \<notin> set (lock_vars (b_ops ?b))" using wf St by (simp add: wf_op_def)
    then show ?thesis
      using agree_mem [OF a10 [of "Num n"], where v = v and x = n] agree_store [OF a10 [of "Num n"] i, of n] i
      by (auto simp: St)
  next
    case (Ld r v)
    with wf_op_addr [OF wf, of v 20] wf_op_data [OF wf, of r 1] obtain i j
      where ij: "map_of (b_addr ?b) v = Some i" "map_of (b_reg ?b) r = Some j" by auto
    then show ?thesis using agree_reg [OF ag ij(2) al(1,3)] agree_load [OF ag ij(1)] by (auto simp: Ld)
  next
    case (Lock v r)
    show ?thesis unfolding Lock by (rule ppc_lock [OF fit wf [unfolded Lock] ag])
  next
    case (Unlock v)
    with wf_op_addr [OF wf, of v 20] obtain i where i: "map_of (b_addr ?b) v = Some i" by auto
    then show ?thesis
      using agree_mem [OF a10 [of "Num 0"], where v = v and x = 0] agree_store [OF a10 [of "Num 0"] i, of 0]
      by (auto simp: Unlock)
  qed (use ag t in auto)
qed

lemma ppc_branch:
  assumes wf: "wf_op ops op" and t: "target op = Some l" and ag: "agree (new_ppc ops tid) s m"
  shows "\<exists>m'. run ppc_exec ppc_lab (ppc_code (new_ppc ops tid) k op @ rest) m =
      (if taken op s then jump ppc_exec ppc_lab (lname (new_ppc ops tid) l) rest m' else run ppc_exec ppc_lab rest m') \<and>
    agree (new_ppc ops tid) s m'"
proof -
  let ?b = "new_ppc ops tid"
  have r: "\<exists>i. map_of (b_reg ?b) r = Some i \<and> m_reg m i = Num (a_reg s r)" if "r \<in> op_tests op" for r
    using wf_op_test [OF wf that, of 1] agree_data [OF ag, of r] by auto
  show ?thesis
  proof (cases op)
    case (Brz q x)
    with r [of q] t agree_eq [OF ag] show ?thesis by (auto intro!: exI [of _ "m\<lparr>m_eq := (a_reg s q = 0)\<rparr>"])
  next
    case (Brnz q x)
    with r [of q] t agree_eq [OF ag] show ?thesis by (auto intro!: exI [of _ "m\<lparr>m_eq := (a_reg s q = 0)\<rparr>"])
  next
    case (Brne q n x)
    with r [of q] t agree_eq [OF ag] show ?thesis by (auto intro!: exI [of _ "m\<lparr>m_eq := (a_reg s q = n)\<rparr>"])
  next
    case (Brne_reg q p x)
    with r [of q] r [of p] t agree_eq [OF ag] show ?thesis
      by (auto intro!: exI [of _ "m\<lparr>m_eq := (a_reg s q = a_reg s p)\<rparr>"])
  qed (use t in auto)
qed

interpretation ppc: asm_backend new_ppc ppc_code ppc_exec ppc_lab ppc_fits
  by unfold_locales (simp_all add: ppc_plain ppc_branch)

section \<open>The lines of a thread are the printed instructions\<close>

text \<open>The names an operation looks up are in the tables of its thread.\<close>

definition known :: "thread \<Rightarrow> aop \<Rightarrow> bool" where
  "known b op = ((\<forall>v. op_var op = Some v \<longrightarrow> (\<exists>i. map_of (b_addr b) v = Some i)) \<and>
     (\<forall>r. op_reg op = Some r \<or> r \<in> op_tests op \<longrightarrow> (\<exists>i. map_of (b_reg b) r = Some i)))"

lemma known_addr: "known b op \<Longrightarrow> op_var op = Some v \<Longrightarrow> addr b v = Inr (show_nat (num (b_addr b) v))"
  by (auto simp: known_def addr_def dget_def num_def split: option.splits)

lemma known_reg:
  "known b op \<Longrightarrow> op_reg op = Some r \<or> r \<in> op_tests op \<Longrightarrow> reg b r = Inr (show_nat (num (b_reg b) r))"
  by (auto simp: known_def reg_def dget_def num_def split: option.splits)

lemma known_new: "wf_op ops op \<Longrightarrow> known (new_a64 ops tid) op \<and> known (new_ppc ops tid) op"
  using wf_op_addr [of ops op] wf_op_data [of ops op] wf_op_test [of ops op] by (auto simp: known_def)

lemma show_small: "show_nat 9 = ''9''" "show_nat 10 = ''10''" "show_int 0 = ''0''" "show_int 1 = ''1''"
  by code_simp+

lemma a64_op_render: "known b op \<Longrightarrow> a64_op b op = Inr (map a64_render (a64_code b n op))"
  by (cases op) (use known_addr [of b op] known_reg [of b op] in \<open>simp_all add: show_small\<close>)

lemma ppc_op_render: "known b op \<Longrightarrow> ppc_op b n op = Inr (map ppc_render (ppc_code b n op))"
  by (cases op) (use known_addr [of b op] known_reg [of b op] in \<open>simp_all add: show_small Let_def\<close>)

lemma a64_lines_render:
  assumes "list_all (known b) ops"
  shows "mapE (a64_op b) ops = Inr lss \<Longrightarrow> concat lss = map a64_render (compile a64_code b n ops)"
    "\<exists>lss. mapE (a64_op b) ops = Inr lss"
proof -
  have "mapE (a64_op b) ops = Inr lss \<Longrightarrow> concat lss = map a64_render (compile a64_code b n ops)" for lss n
    using assms
  proof (induction ops arbitrary: lss n)
    case (Cons op ops)
    then show ?case by (auto simp: Let_def a64_op_render [of b op "if is_lock op then n + 1 else n"])
  qed simp
  then show "mapE (a64_op b) ops = Inr lss \<Longrightarrow> concat lss = map a64_render (compile a64_code b n ops)" .
  show "\<exists>lss. mapE (a64_op b) ops = Inr lss"
    using assms by (induction ops) (auto simp: a64_op_render [where n = 0])
qed

lemma a64_lines_compile:
  assumes "wf_prog ops"
  shows "a64_lines (new_a64 ops tid) = Inr (map a64_render (compile a64_code (new_a64 ops tid) 0 ops))"
proof -
  have k: "list_all (known (new_a64 ops tid)) ops"
    using assms known_new by (auto simp: wf_prog_def list_all_iff)
  obtain lss where "mapE (a64_op (new_a64 ops tid)) ops = Inr lss" using a64_lines_render(2) [OF k] by blast
  with a64_lines_render(1) [OF k this, of 0] show ?thesis by (simp add: a64_lines_def)
qed

lemma ppc_lines_fold:
  assumes "list_all (known b) ops"
  shows "\<exists>n'. foldE (ppc_step b) (n, out) ops = Inr (n', out @ map ppc_render (compile ppc_code b n ops))"
  using assms
proof (induction ops arbitrary: n out)
  case (Cons op ops)
  let ?n = "if is_lock op then n + 1 else n"
  have "ppc_step b (n, out) op = Inr (?n, out @ map ppc_render (ppc_code b ?n op))"
    using Cons.prems by (simp add: ppc_step_def Let_def ppc_op_render)
  with Cons.IH [of ?n "out @ map ppc_render (ppc_code b ?n op)"] Cons.prems show ?case by (simp add: Let_def)
qed simp

lemma ppc_lines_compile:
  assumes "wf_prog ops"
  shows "ppc_lines (new_ppc ops tid) = Inr (map ppc_render (compile ppc_code (new_ppc ops tid) 0 ops))"
proof -
  have "list_all (known (new_ppc ops tid)) ops"
    using assms known_new by (auto simp: wf_prog_def list_all_iff)
  from ppc_lines_fold [OF this, of 0 "[]"] show ?thesis by (auto simp: ppc_lines_def)
qed

section \<open>The threads of the tests\<close>

definition threads_of_tests :: "(nat \<times> aprog) list" where
  "threads_of_tests = remdups (concat (map (\<lambda>(name, init, threads, ex, expect). enumerate 0 threads) TESTS))"

definition thread_ok :: "nat \<times> aprog \<Rightarrow> bool" where
  "thread_ok = (\<lambda>(tid, ops). wf_prog ops \<and> a64_fits ops \<and> ppc_fits ops \<and>
     distinct (labels a64_lab (compile a64_code (new_a64 ops tid) 0 ops)) \<and>
     distinct (labels ppc_lab (compile ppc_code (new_ppc ops tid) 0 ops)) \<and>
     set (lock_vars ops) \<subseteq> {''mlock''})"

lemma tests_ok: "list_all thread_ok threads_of_tests"
  by code_simp

lemma tests_thread:
  assumes "(name, init, threads, ex, expect) \<in> set TESTS" "tid < length threads"
  shows "thread_ok (tid, threads ! tid)"
proof -
  have "(tid, threads ! tid) \<in> set threads_of_tests"
    using assms unfolding threads_of_tests_def by (force simp: in_set_enumerate_eq)
  with tests_ok show ?thesis by (simp add: list_all_iff)
qed

end
