(* ===== verification/Asm_Props.thy ===== *)
theory Asm_Props
  imports Asm_Correct
begin

text \<open>
  The properties of \<^verbatim>\<open>gen-asm.py\<close>: the text of every thread of every test runs as the abstract
  program it was generated from, on both architectures, and the table of the litmus file reads
  back as the lines of the threads.
\<close>

section \<open>The state a litmus test starts in\<close>

text \<open>The initial state of a thread: the address registers point to the variables, the others hold 0.\<close>

definition start_mach :: "thread \<Rightarrow> (string \<Rightarrow> int) \<Rightarrow> mach" where
  "start_mach b mem = \<lparr>m_reg = (\<lambda>i. case map_of (map prod.swap (b_addr b)) i of None \<Rightarrow> Num 0 | Some v \<Rightarrow> Ptr v),
     m_mem = mem, m_eq = False\<rparr>"

definition astart :: "(string \<Rightarrow> int) \<Rightarrow> astate" where
  "astart mem = \<lparr>a_reg = (\<lambda>_. 0), a_mem = mem\<rparr>"

text \<open>The final memory and the final values of the registers of a thread.\<close>

definition same_result :: "thread \<Rightarrow> astate \<Rightarrow> mach \<Rightarrow> bool" where
  "same_result b s m = (m_mem m = a_mem s \<and> (\<forall>r i. map_of (b_reg b) r = Some i \<longrightarrow> m_reg m i = Num (a_reg s r)))"

lemma agree_same: "agree b s m \<Longrightarrow> same_result b s m"
  by (simp add: agree_def same_result_def)

lemma swap_alloc:
  assumes "distinct vs"
  shows "map_of (map prod.swap (alloc n vs)) i = Some v \<longleftrightarrow> map_of (alloc n vs) v = Some i"
proof -
  have d: "distinct (map fst (map prod.swap (alloc n vs)))" "distinct (map fst (alloc n vs))"
    using assms by (simp_all add: alloc_dom alloc_def comp_def case_prod_unfold)
  show ?thesis
    unfolding map_of_eq_Some_iff [OF d(1)] map_of_eq_Some_iff [OF d(2)] by force
qed

lemma start_agree:
  assumes "b_addr b = alloc n (vars_of ops)" "b_ops b = ops" "apart b" "set (lock_vars ops) \<subseteq> {''mlock''}"
    and "mem ''mlock'' \<in> {0, 1}"
  shows "agree b (astart mem) (start_mach b mem)"
proof -
  have sw: "map_of (map prod.swap (b_addr b)) i = Some v \<longleftrightarrow> map_of (b_addr b) v = Some i" for i v
    unfolding assms(1) by (rule swap_alloc [OF vars_distinct])
  have "m_reg (start_mach b mem) i = Ptr v" if "map_of (b_addr b) v = Some i" for v i
    using sw [of i v] that by (simp add: start_mach_def)
  moreover have "m_reg (start_mach b mem) i = Num 0" if "map_of (b_reg b) r = Some i" for r i
    using assms(3) sw [of i] that by (auto simp: start_mach_def apart_def split: option.splits)
  ultimately show ?thesis
    using assms(2,4,5) by (auto simp: agree_def astart_def start_mach_def)
qed

text \<open>
  C11: the AArch64 code of every thread of every test is its program. The lines the generator prints
  are the instructions of the compiled program, and run from the initial state they end with the
  memory and the registers the program ends with.
\<close>

theorem a64_test_correct:
  assumes "(name, init, threads, ex, expect) \<in> set TESTS" "tid < length threads" "mem ''mlock'' \<in> {0, 1}"
  shows "\<exists>is s m. a64_lines (new_a64 (threads ! tid) tid) = Inr (map a64_render is) \<and>
    aexec (threads ! tid) (astart mem) = Some s \<and>
    run a64_step a64_lab is (start_mach (new_a64 (threads ! tid) tid) mem) = Some m \<and>
    same_result (new_a64 (threads ! tid) tid) s m"
proof -
  let ?ops = "threads ! tid"
  let ?b = "new_a64 ?ops tid"
  have ok: "wf_prog ?ops" "a64_fits ?ops" "distinct (labels a64_lab (compile a64_code ?b 0 ?ops))"
    "set (lock_vars ?ops) \<subseteq> {''mlock''}"
    using tests_thread [OF assms(1,2)] by (auto simp: thread_ok_def)
  have "agree ?b (astart mem) (start_mach ?b mem)"
    using start_agree [of ?b 0 ?ops mem] a64_alloc(1) [OF ok(2)] ok(4) assms(3) by simp
  with ok(1-3) obtain s m where "aexec ?ops (astart mem) = Some s"
    "run a64_step a64_lab (compile a64_code ?b 0 ?ops) (start_mach ?b mem) = Some m" "agree ?b s m"
    by (rule a64.thread_correct)
  with a64_lines_compile [OF ok(1)] agree_same show ?thesis by blast
qed

text \<open>
  C12: the same for PPC, whose lock is a load-reserve, a test, a store-conditional and its two
  branches: found free it takes the lock, found held it leaves the word and marks the register.
\<close>

theorem ppc_test_correct:
  assumes "(name, init, threads, ex, expect) \<in> set TESTS" "tid < length threads" "mem ''mlock'' \<in> {0, 1}"
  shows "\<exists>is s m. ppc_lines (new_ppc (threads ! tid) tid) = Inr (map ppc_render is) \<and>
    aexec (threads ! tid) (astart mem) = Some s \<and>
    run ppc_exec ppc_lab is (start_mach (new_ppc (threads ! tid) tid) mem) = Some m \<and>
    same_result (new_ppc (threads ! tid) tid) s m"
proof -
  let ?ops = "threads ! tid"
  let ?b = "new_ppc ?ops tid"
  have ok: "wf_prog ?ops" "ppc_fits ?ops" "distinct (labels ppc_lab (compile ppc_code ?b 0 ?ops))"
    "set (lock_vars ?ops) \<subseteq> {''mlock''}"
    using tests_thread [OF assms(1,2)] by (auto simp: thread_ok_def)
  have "agree ?b (astart mem) (start_mach ?b mem)"
    using start_agree [of ?b 20 ?ops mem] ppc_alloc(1) [OF ok(2)] ok(4) assms(3) by simp
  with ok(1-3) obtain s m where "aexec ?ops (astart mem) = Some s"
    "run ppc_exec ppc_lab (compile ppc_code ?b 0 ?ops) (start_mach ?b mem) = Some m" "agree ?b s m"
    by (rule ppc.thread_correct)
  with ppc_lines_compile [OF ok(1)] agree_same show ?thesis by blast
qed

section \<open>Register allocation\<close>

text \<open>
  C13: for every program the allocation of a thread is injective on its variables and on its
  registers; with at most nine variables (AArch64) or nine registers (PPC), addresses, data and the
  scratch register are different registers. With at most nine of both, all of them are in the
  register file of the machine, and none is one that has a meaning of its own: the zero register 31 of AArch64, the
  r0 of PPC that reads as zero in an address. Every thread of every test has that few.
\<close>

theorem allocation_sound:
  assumes "a64_fits ops" "ppc_fits ops"
  shows "inj_on (map_of (b_addr (new_thread a ops tid))) (set (vars_of ops)) \<and>
    inj_on (map_of (b_reg (new_thread a ops tid))) (set (regs_of ops)) \<and>
    apart (new_thread a ops tid) \<and> scratch (case a of AArch64 \<Rightarrow> 9 | PPC \<Rightarrow> 10) (new_thread a ops tid) \<and>
    ran (map_of (b_addr (new_thread a ops tid))) \<union> ran (map_of (b_reg (new_thread a ops tid))) \<subseteq>
      (case a of AArch64 \<Rightarrow> {0..18} | PPC \<Rightarrow> {1..28}) \<and>
    list_all (\<lambda>(tid, ops). a64_fits ops \<and> ppc_fits ops) threads_of_tests"
proof -
  have inj: "inj_on (map_of (alloc n vs)) (set vs)" if d: "distinct vs" for n and vs :: "string list"
  proof (rule inj_onI)
    fix v w assume "v \<in> set vs" "w \<in> set vs" "map_of (alloc n vs) v = map_of (alloc n vs) w"
    then show "v = w" using alloc_some [of v vs n] alloc_inj [OF d] by metis
  qed
  have range: "ran (map_of (alloc n vs)) \<subseteq> {n..<n + length vs}" for n vs
    using alloc_range by (fastforce simp: ran_def)
  have "ran (map_of (b_addr (new_thread a ops tid))) \<union> ran (map_of (b_reg (new_thread a ops tid))) \<subseteq>
      (case a of AArch64 \<Rightarrow> {0..18} | PPC \<Rightarrow> {1..28})"
    using range [of 0 "vars_of ops"] range [of 10 "regs_of ops"] range [of 20 "vars_of ops"] range [of 1 "regs_of ops"] assms
    by (cases a) (fastforce simp: a64_fits_def ppc_fits_def)+
  moreover have "list_all (\<lambda>(tid, ops). a64_fits ops \<and> ppc_fits ops) threads_of_tests"
    using tests_ok by (auto simp: list_all_iff thread_ok_def)
  ultimately show ?thesis
    using inj [OF vars_distinct] inj [OF regs_distinct] a64_alloc [OF assms(1)] ppc_alloc [OF assms(2)]
    by (cases a) simp_all
qed

lemma walker_fits: "a64_fits (walker True True)" "ppc_fits (walker True True)"
  by code_simp+

theorem allocation_sound_witness:
  "apart (new_thread PPC (walker True True) 0) \<and> scratch 10 (new_thread PPC (walker True True) 0)"
  using allocation_sound [OF walker_fits, of PPC 0] by simp

section \<open>The table of the litmus file\<close>

text \<open>Reading a row of the table: the cells between the bars, without the blanks around them.\<close>

definition read_row :: "string \<Rightarrow> string list" where
  "read_row r = map strip (split_on CHR ''|'' (butlast r))"

definition clean :: "string \<Rightarrow> bool" where
  "clean l = (CHR ''|'' \<notin> set l \<and> strip l = l)"

lemma strip_pad: "strip c = c \<Longrightarrow> strip ('' '' @ ljust n c @ '' '') = c"
proof -
  have "is_space CHR '' ''" by code_simp
  then have "strip ('' '' @ c @ replicate (n - length c) CHR '' '' @ '' '') = strip c"
    by (intro strip_surround) (auto split: if_splits)
  then show "strip c = c \<Longrightarrow> strip ('' '' @ ljust n c @ '' '') = c" by (simp add: ljust_def)
qed

lemma join_bars: "ps \<noteq> [] \<Longrightarrow> '' '' @ join '' | '' ps @ '' '' = join ''|'' (map (\<lambda>p. '' '' @ p @ '' '') ps)"
proof (induction ps)
  case (Cons p ps)
  then show ?case by (cases ps) (auto simp: join_Cons)
qed simp

lemma read_row_row:
  assumes "length w = length cs" "cs \<noteq> []" "\<And>c. c \<in> set cs \<Longrightarrow> clean c"
  shows "read_row (row w cs) = cs"
proof -
  let ?ps = "map (\<lambda>(n, c). ljust n c) (zip w cs)"
  have ne: "?ps \<noteq> []" using assms(1,2) by (cases w; cases cs) auto
  have "butlast (row w cs) = '' '' @ join '' | '' ?ps @ '' ''" by (simp add: row_def butlast_append)
  also have "\<dots> = join ''|'' (map (\<lambda>p. '' '' @ p @ '' '') ?ps)" using ne by (rule join_bars)
  finally have "split_on CHR ''|'' (butlast (row w cs)) = split_on CHR ''|'' (join ''|'' (map (\<lambda>p. '' '' @ p @ '' '') ?ps))"
    by simp
  also have "\<dots> = map (\<lambda>p. '' '' @ p @ '' '') ?ps"
  proof (rule split_on_join)
    show "map (\<lambda>p. '' '' @ p @ '' '') ?ps \<noteq> []" using ne by simp
    fix x assume "x \<in> set (map (\<lambda>p. '' '' @ p @ '' '') ?ps)"
    then obtain n c where x: "x = '' '' @ ljust n c @ '' ''" "(n, c) \<in> set (zip w cs)" by auto
    then have "clean c" using assms(3) set_zip_rightD by fast
    then show "CHR ''|'' \<notin> set x" by (auto simp: x(1) ljust_def clean_def)
  qed
  finally have "read_row (row w cs) = map (\<lambda>(n, c). strip ('' '' @ ljust n c @ '' '')) (zip w cs)"
    by (simp add: read_row_def comp_def case_prod_unfold)
  also have "\<dots> = map snd (zip w cs)"
  proof (rule map_cong [OF refl], clarify)
    fix n c assume "(n, c) \<in> set (zip w cs)"
    then have "strip c = c" using assms(3) set_zip_rightD by (fastforce simp: clean_def)
    then show "strip ('' '' @ ljust n c @ '' '') = snd (n, c)" using strip_pad [of c n] by simp
  qed
  finally show ?thesis using assms(1) by simp
qed

lemma cell_clean: "(\<And>l. l \<in> set c \<Longrightarrow> clean l) \<Longrightarrow> clean (cell j c)"
  by (auto simp: cell_def clean_def strip_def strip_by_def lstrip_by_def rstrip_by_def)

text \<open>A line with a visible character at each end and no bar in it.\<close>

lemma cleanI: "l \<noteq> [] \<Longrightarrow> \<not> is_space (hd l) \<Longrightarrow> \<not> is_space (last l) \<Longrightarrow> CHR ''|'' \<notin> set l \<Longrightarrow> clean l"
  by (simp add: clean_def strip_def strip_by_noop)

lemma show_nat_last: "\<not> is_space (last (show_nat n))"
  using show_nat_digits [of "last (show_nat n)" n] is_digit_not_space by simp

lemma show_nat_bar: "CHR ''|'' \<notin> set (show_nat n)"
proof -
  have "\<not> is_digit CHR ''|''" by code_simp
  then show ?thesis using show_nat_digits [of "CHR ''|''" n] by blast
qed

lemma show_int_last: "\<not> is_space (last (show_int i))" "CHR ''|'' \<notin> set (show_int i)" "show_int i \<noteq> []"
  by (auto simp: show_int_def show_nat_last show_nat_bar)

definition good_label :: "string \<Rightarrow> bool" where
  "good_label l = (l \<noteq> [] \<and> \<not> is_space (hd l) \<and> CHR ''|'' \<notin> set l)"

lemma lname_good:
  assumes "good_label l"
  shows "lname b l \<noteq> []" "\<not> is_space (hd (lname b l))" "\<not> is_space (last (lname b l))" "CHR ''|'' \<notin> set (lname b l)"
  using assms by (auto simp: lname_def good_label_def show_nat_last show_nat_bar)

lemma not_space_lits:
  "\<not> is_space CHR '']''" "\<not> is_space CHR '')''" "\<not> is_space CHR '':''" "\<not> is_space CHR ''T''" "\<not> is_space CHR ''D''"
  "\<not> is_space CHR ''H''" "\<not> is_space CHR ''M''" "\<not> is_space CHR ''S''" "\<not> is_space CHR ''L''" "\<not> is_space CHR ''C''"
  "\<not> is_space CHR ''B''" "\<not> is_space CHR ''l''" "\<not> is_space CHR ''s''" "\<not> is_space CHR ''i''" "\<not> is_space CHR ''c''"
  "\<not> is_space CHR ''b''"
  by code_simp+

lemmas clean_facts = lname_good show_nat_last show_nat_bar show_int_last not_space_lits

definition op_labels_ok :: "aop \<Rightarrow> bool" where
  "op_labels_ok op = ((case target op of None \<Rightarrow> True | Some l \<Rightarrow> good_label l) \<and>
     (case op_label op of None \<Rightarrow> True | Some l \<Rightarrow> good_label l))"

lemma a64_clean: "op_labels_ok op \<Longrightarrow> i \<in> set (a64_code b n op) \<Longrightarrow> clean (a64_render i)"
  by (cases op) (auto simp: op_labels_ok_def clean_facts intro!: cleanI)

lemma ppc_clean: "op_labels_ok op \<Longrightarrow> i \<in> set (ppc_code b n op) \<Longrightarrow> clean (ppc_render i)"
  by (cases op) (auto simp: op_labels_ok_def clean_facts lok_def lfail_def Let_def intro!: cleanI)

lemma tests_labels_ok: "list_all (\<lambda>(tid, ops). list_all op_labels_ok ops) threads_of_tests"
  by code_simp

lemma compile_clean:
  assumes "list_all op_labels_ok ops"
  shows "i \<in> set (compile a64_code b n ops) \<Longrightarrow> clean (a64_render i)"
    "j \<in> set (compile ppc_code b n ops) \<Longrightarrow> clean (ppc_render j)"
  using assms by (induction ops arbitrary: n) (auto simp: Let_def dest: a64_clean ppc_clean)

lemma thread_lines_clean:
  assumes t: "(name, init, threads, ex, expect) \<in> set TESTS" and i: "i < length threads"
    and ls: "thread_lines a (new_thread a (threads ! i) i) = Inr ls" and l: "l \<in> set ls"
  shows "clean l"
proof -
  have m: "(i, threads ! i) \<in> set threads_of_tests"
    using t i unfolding threads_of_tests_def by (force simp: in_set_enumerate_eq)
  have wf: "wf_prog (threads ! i)" using tests_thread [OF t i] by (simp add: thread_ok_def)
  have ok: "list_all op_labels_ok (threads ! i)" using tests_labels_ok m by (auto simp: list_all_iff)
  from ls l show ?thesis
    by (cases a) (auto simp: a64_lines_compile [OF wf] ppc_lines_compile [OF wf] dest: compile_clean [OF ok])
qed

text \<open>The rows of the table are lines of the emitted text.\<close>

lemma join_nl_rows: "ys \<noteq> [] \<Longrightarrow> \<exists>pre. join nl (xs @ ys) @ nl = pre @ concat (map (\<lambda>r. r @ nl) ys)"
proof (induction xs)
  case Nil
  then have "join nl ys @ nl = concat (map (\<lambda>r. r @ nl) ys)"
  proof (induction ys)
    case (Cons y ys)
    then show ?case by (cases ys) auto
  qed simp
  then show ?case by (intro exI [of _ "[]"]) simp
next
  case (Cons x xs)
  then obtain pre where "join nl (xs @ ys) @ nl = pre @ concat (map (\<lambda>r. r @ nl) ys)" by auto
  moreover have "join nl ((x # xs) @ ys) = x @ nl @ join nl (xs @ ys)" using Cons.prems by (simp add: join_Cons)
  ultimately show ?case by (intro exI [of _ "x @ nl @ pre"]) simp
qed

lemma emit_parts:
  assumes "emit a name (init, threads, ex, expect) = Inr body"
  obtains cols w pre post where
    "mapE (thread_lines a) (map (\<lambda>(i, ops). new_thread a ops i) (enumerate 0 threads)) = Inr cols"
    "cols \<noteq> []" "length w = length cols"
    "body = pre @ concat (map (\<lambda>r. r @ nl) (header_row w # body_rows (Max (length ` set cols)) w cols)) @ post"
proof -
  let ?bd = "preamble a name expect init (map (\<lambda>(i, ops). new_thread a ops i) (enumerate 0 threads))"
  from assms obtain cols n w cond where
    c: "mapE (thread_lines a) (map (\<lambda>(i, ops). new_thread a ops i) (enumerate 0 threads)) = Inr cols"
    "max_len cols = Inr n" "mapE (\<lambda>c. bindE (max_len c) (\<lambda>k. Inr (k + 1))) cols = Inr w"
    and b: "body = join nl (?bd @ header_row w # body_rows n w cols) @ nl @ cond @ nl"
    unfolding emit_def Let_def by (auto elim!: bindE_elim simp del: bindE_Inr_conv)
  have n: "cols \<noteq> []" "n = Max (length ` set cols)" using c(2) by (auto simp: max_len_def split: if_splits)
  obtain pre where "join nl (?bd @ header_row w # body_rows n w cols) @ nl =
      pre @ concat (map (\<lambda>r. r @ nl) (header_row w # body_rows n w cols))"
    using join_nl_rows [of "header_row w # body_rows n w cols" ?bd] by blast
  then have "body = pre @ concat (map (\<lambda>r. r @ nl) (header_row w # body_rows n w cols)) @ cond @ nl"
    unfolding b by (metis append_assoc)
  with c(1) n mapE_length [OF c(3)] show thesis by (intro that [of cols w pre "cond @ nl"]) auto
qed

text \<open>
  C14: the table of a generated litmus file reads back as the programs of the threads: after the
  header there is one row per instruction of the longest thread, and the cells of row \<open>j\<close>, split at
  the bars and stripped, are the \<open>j\<close>-th lines of the threads (blank past the end of a thread).
\<close>

theorem emit_table:
  assumes "(name, init, threads, ex, expect) \<in> set TESTS" "emit a name (init, threads, ex, expect) = Inr body"
  shows "\<exists>cols head rows pre post.
    mapE (thread_lines a) (map (\<lambda>(i, ops). new_thread a ops i) (enumerate 0 threads)) = Inr cols \<and>
    body = pre @ concat (map (\<lambda>r. r @ nl) (head # rows)) @ post \<and>
    length rows = Max (length ` set cols) \<and>
    (\<forall>j<length rows. read_row (rows ! j) = map (cell j) cols)"
proof -
  from assms(2) obtain cols w pre post where
    cols: "mapE (thread_lines a) (map (\<lambda>(i, ops). new_thread a ops i) (enumerate 0 threads)) = Inr cols"
    and ne: "cols \<noteq> []" and w: "length w = length cols"
    and body: "body = pre @ concat (map (\<lambda>r. r @ nl) (header_row w # body_rows (Max (length ` set cols)) w cols)) @ post"
    by (rule emit_parts)
  have clean: "clean l" if c: "c \<in> set cols" and l: "l \<in> set c" for c l
  proof -
    from mapE_set [OF cols c] obtain i where "i < length threads" "thread_lines a (new_thread a (threads ! i) i) = Inr c"
      by (auto simp: in_set_enumerate_eq)
    then show ?thesis using thread_lines_clean [OF assms(1) _ _ l] by blast
  qed
  have "read_row (row w (map (cell j) cols)) = map (cell j) cols" for j
    by (rule read_row_row) (use ne w clean in \<open>auto intro!: cell_clean\<close>)
  moreover define rows where "rows = body_rows (Max (length ` set cols)) w cols"
  ultimately have "\<forall>j<length rows. read_row (rows ! j) = map (cell j) cols" "length rows = Max (length ` set cols)"
    by (simp_all add: body_rows_def)
  with cols body [folded rows_def] show ?thesis by blast
qed

text \<open>A test that is emitted without error, for the witnesses.\<close>

definition first_test :: test where
  "first_test = (A1_INIT, [holder_a1 True True, unmounter_sections us_default], conds [''0:r0=1'', ''1:r1=1'', ''1:r3=1''], ''Never'')"

lemma first_test_in: "(''MNT-A1-holder-get-before-put'', first_test) \<in> set TESTS"
  by (simp add: TESTS_def first_test_def Let_def)

lemma first_test_emitted: "(case emit AArch64 ''MNT-A1-holder-get-before-put'' first_test of Inl _ \<Rightarrow> False | Inr _ \<Rightarrow> True)"
  by code_simp

theorem emit_table_witness:
  "\<exists>body cols rows. emit AArch64 ''MNT-A1-holder-get-before-put'' first_test = Inr body \<and>
    length rows = Max (length ` set cols) \<and> (\<forall>j<length rows. read_row (rows ! j) = map (cell j) cols)"
proof -
  obtain body where b: "emit AArch64 ''MNT-A1-holder-get-before-put'' first_test = Inr body"
    using first_test_emitted by (cases "emit AArch64 ''MNT-A1-holder-get-before-put'' first_test") auto
  obtain init threads ex expect where t: "first_test = (init, threads, ex, expect)" by (cases first_test) auto
  from emit_table [OF first_test_in [unfolded t] b [unfolded t]] b show ?thesis by blast
qed

theorem a64_test_correct_witness:
  "\<exists>is s m. a64_lines (new_a64 (holder_a1 True True) 0) = Inr (map a64_render is) \<and>
    aexec (holder_a1 True True) (astart (\<lambda>_. 0)) = Some s \<and>
    run a64_step a64_lab is (start_mach (new_a64 (holder_a1 True True) 0) (\<lambda>_. 0)) = Some m \<and>
    same_result (new_a64 (holder_a1 True True) 0) s m"
  using a64_test_correct [OF first_test_in [unfolded first_test_def], of 0 "\<lambda>_. 0"] by simp

theorem ppc_test_correct_witness:
  "\<exists>is s m. ppc_lines (new_ppc (unmounter_sections us_default) 1) = Inr (map ppc_render is) \<and>
    aexec (unmounter_sections us_default) (astart (\<lambda>_. 0)) = Some s \<and>
    run ppc_exec ppc_lab is (start_mach (new_ppc (unmounter_sections us_default) 1) (\<lambda>_. 0)) = Some m \<and>
    same_result (new_ppc (unmounter_sections us_default) 1) s m"
  using ppc_test_correct [OF first_test_in [unfolded first_test_def], of 1 "\<lambda>_. 0"] by simp

end
