(* ===== verification/Memo_Table.thy ===== *)
theory Memo_Table
  imports Py_Re_First Py_Lines Tlc_Cfg
begin

text \<open>
  \<^verbatim>\<open>litmus/update-memo-table.py\<close>: the table of the litmus results in a memo is written anew from the lines
  that \<^verbatim>\<open>collect-results.sh\<close> prints.

  The lemmas: a line in the columns of the shell script is cut into its fields as long as each of them leaves
  two blanks before the next; the table of the memo is replaced and nothing else but the time of its title.
\<close>

section \<open>The rows\<close>

text \<open>\<^verbatim>\<open>r'\s{2,}'\<close>\<close>

definition GAP :: rx where
  "GAP = Seq (Cls is_space) (Plus is_space)"

definition pieces_of :: "string \<Rightarrow> string list" where
  "pieces_of line = (case re_split GAP (strip line) of (p, ms) \<Rightarrow> p # map snd ms)"

definition cell :: "string \<Rightarrow> string" where
  "cell c = (let c = replace '' (full)'' [] (replace ''witnessed (speedcheck)'' ''witnessed'' c) in
     if c = ''running'' then ''still running at hand-off'' else c)"

definition UNOBSERVABLE :: "string list" where
  "UNOBSERVABLE = [''MNT-A1m-nomb-in-sum'', ''MNT-A1m-nowmb'']"

definition x86_cell :: "string \<Rightarrow> string \<Rightarrow> string" where
  "x86_cell test x86 = replace ''Never '' ''Never '' (replace ''Sometimes '' ''Sometimes '' x86) @
     (if test \<in> set UNOBSERVABLE then '' (unobservable on TSO)'' else [])"

definition table_row :: "string list \<Rightarrow> string" where
  "table_row cs = ''| '' @ join '' | '' cs @ '' |''"

definition memo_row :: "string \<Rightarrow> string option" where
  "memo_row line = (let parts = pieces_of line in
     if length parts < 5 then None
     else Some (table_row [parts ! 0, parts ! 1, cell (parts ! 2), cell (parts ! 3), x86_cell (parts ! 0) (join '' '' (drop 4 parts))]))"

definition ORDER :: "string list" where
  "ORDER = [''MNT-A1-holder-get-before-put'', ''MNT-A1m-gets-first'', ''MNT-A1m-nomb-in-sum'', ''MNT-A1m-nowmb'',
     ''MNT-B1-walker-inc-vs-peek'', ''MNT-B1m-walker-nomb'', ''MNT-B1m-peek-no-outer-mb'',
     ''MNT-B2-walker-bail-sees-doomed-lazy'', ''MNT-B2m-walker-flags-unlocked'', ''MNT-C1-kern-unmount-get-before-put'',
     ''MNT-D1-dekker-fastpath-recheck'', ''MNT-D1m-holder-wmb-only'', ''MNT-E1-slowpath-no-outer-mb'', ''MNT-E2-busycheck-no-outer-mb'']"

text \<open>\<^verbatim>\<open>order.index(k) if k in order else 99\<close>\<close>

definition rank_of :: "string \<Rightarrow> nat" where
  "rank_of k = (if k \<in> set ORDER then length (takeWhile (\<lambda>x. x \<noteq> k) ORDER) else 99)"

definition row_key :: "string \<Rightarrow> nat" where
  "row_key r = rank_of (strip (split_on CHR ''|'' r ! 1))"

definition memo_rows :: "string \<Rightarrow> string list" where
  "memo_rows out = sort_key row_key (List.map_filter memo_row (drop 1 (splitlines out)))"

section \<open>The memo\<close>

definition TITLE_START :: string where
  "TITLE_START = ''| test | LKMM | AArch64 (Arm official model)''"

text \<open>\<^verbatim>\<open>s.index(p, start)\<close>\<close>

definition index_from :: "string \<Rightarrow> string \<Rightarrow> nat \<Rightarrow> nat result" where
  "index_from s p start = (case str_find p (drop start s) of
     None \<Rightarrow> Inl (ValueError ''substring not found'') | Some n \<Rightarrow> Inr (start + n))"

definition STAMP :: rx where
  "STAMP = seqs [Lit ''Table at hand-off ('', Plus (\<lambda>c. is_digit c \<or> c = CHR '':''), Lit '' UTC;'']"

definition stamp :: "string \<Rightarrow> string \<Rightarrow> string" where
  "stamp now s = re_sub STAMP (\<lambda>_. ''Table at hand-off ('' @ now @ '' UTC;'') s"

definition put_table :: "string list \<Rightarrow> string \<Rightarrow> string result" where
  "put_table rows s =
     bindE (index_from s TITLE_START 0) (\<lambda>start.
     bindE (index_from s (nl @ nl) start) (\<lambda>e.
     bindE (index_from s nl start) (\<lambda>n1.
     bindE (index_from s nl (n1 + 1)) (\<lambda>n2.
     Inr (take start s @ drop start (take (n2 + 1) s) @ join nl rows @ drop e s)))))"

text \<open>The script: \<open>out\<close> is what \<^verbatim>\<open>collect-results.sh\<close> prints, \<open>now\<close> the time. It gives the memo and what it
  prints, the text of the rows.\<close>

definition update_memo :: "string \<Rightarrow> string \<Rightarrow> string option \<Rightarrow> (string \<times> string) result" where
  "update_memo now out memo =
     (let rows = memo_rows out in
      case memo of
        None \<Rightarrow> Inl (FileNotFoundError ''research-weak-memory-2.md'')
      | Some s \<Rightarrow> bindE (put_table rows s) (\<lambda>s. Inr (stamp now s, join nl rows)))"

section \<open>What collect-results.sh prints\<close>

text \<open>\<^verbatim>\<open>printf "%-40s %-10s %-24s %-24s %s\n"\<close>\<close>

type_synonym outcome = "string \<times> string \<times> string \<times> string \<times> string"

definition columns_line :: "outcome \<Rightarrow> string" where
  "columns_line r = (case r of (t, lk, a, p, x) \<Rightarrow>
     ljust 40 t @ '' '' @ ljust 10 lk @ '' '' @ ljust 24 a @ '' '' @ ljust 24 p @ '' '' @ x)"

definition collected :: "outcome list \<Rightarrow> string" where
  "collected rs = lines_text (map columns_line ((''test'', ''LKMM'', ''AArch64'', ''POWER'', ''x86-klitmus'') # rs))"

definition result_row :: "outcome \<Rightarrow> string" where
  "result_row r = (case r of (t, lk, a, p, x) \<Rightarrow> table_row [t, lk, cell a, cell p, x86_cell t x])"

text \<open>A field: words one blank apart\<close>

fun tight :: "string \<Rightarrow> bool" where
  "tight [] = True"
| "tight [c] = (\<not> is_space c)"
| "tight (c # d # cs) = (\<not> (is_space c \<and> is_space d) \<and> tight (d # cs))"

definition field_ok :: "nat \<Rightarrow> string \<Rightarrow> bool" where
  "field_ok n s = (s \<noteq> [] \<and> tight s \<and> \<not> is_space (hd s) \<and> length s < n \<and> list_all (\<lambda>c. \<not> is_linebreak c) s)"

definition outcome_ok :: "outcome \<Rightarrow> bool" where
  "outcome_ok r = (case r of (t, lk, a, p, x) \<Rightarrow>
     \<not> List.member t CHR ''|'' \<and> field_ok 40 t \<and> field_ok 10 lk \<and> field_ok 24 a \<and> field_ok 24 p \<and> field_ok (length x + 1) x)"

section \<open>Cutting a line into its fields\<close>

lemma tight_last: "tight s \<Longrightarrow> s \<noteq> [] \<Longrightarrow> \<not> is_space (last s)"
  by (induction s rule: tight.induct) auto

lemma mute_GAP: "tight q \<Longrightarrow> mute GAP q rest"
  by (induction q rule: tight.induct) (auto simp: GAP_def)

lemma hits_GAP:
  assumes "list_all is_space s" "2 \<le> length s" "rest = [] \<or> \<not> is_space (hd rest)"
  shows "hits GAP (pre, s @ rest, g) (rev s @ pre, rest, g)"
proof -
  obtain a b t where s: "s = a # b # t" using assms(2) by (cases s; cases "tl s") auto
  have "hits (Cls is_space) (pre, s @ rest, g) (a # pre, (b # t) @ rest, g)" using assms(1) by (simp add: s hits_def)
  moreover have "hits (Plus is_space) (a # pre, (b # t) @ rest, g) (rev (b # t) @ a # pre, rest, g)"
    by (rule hits_plus) (use assms s in auto)
  ultimately show ?thesis unfolding GAP_def using hits_seq s by fastforce
qed

lemma split_gaps:
  assumes "tight p" "list_all (\<lambda>(s, q). list_all is_space s \<and> 2 \<le> length s \<and> tight q \<and> q \<noteq> [] \<and> \<not> is_space (hd q)) ps"
  shows "(case re_split GAP (p @ glued ps) of (p, ms) \<Rightarrow> p # map snd ms) = p # map snd ps"
proof -
  have "\<exists>ms. re_split GAP (p @ glued ps) = (p, ms) \<and> map (\<lambda>(m, t). (m_groups m, t)) ms = map (\<lambda>(s, t). (Map.empty, t)) ps"
  proof (rule split_glued)
    show "mt GAP (pre, [], Map.empty) = []" for pre by (simp add: GAP_def)
    show "mute GAP p (glued ps)" by (rule mute_GAP [OF assms(1)])
    fix s t us rs
    assume e: "ps = rs @ (s, t) # us"
    then have st: "list_all is_space s" "2 \<le> length s" "tight t" "t \<noteq> []" "\<not> is_space (hd t)" using assms(2) by auto
    then have "hits GAP (pre, s @ t @ glued us, Map.empty) (rev s @ pre, t @ glued us, Map.empty)" for pre
      by (intro hits_GAP) auto
    with st mute_GAP [OF st(3)] show "s \<noteq> [] \<and> mute GAP t (glued us) \<and>
      (\<forall>pre. hits GAP (pre, s @ t @ glued us, Map.empty) (rev s @ pre, t @ glued us, Map.empty))" by auto
  qed
  then obtain ms where ms: "re_split GAP (p @ glued ps) = (p, ms)"
    "map (\<lambda>(m, t). (m_groups m, t)) ms = map (\<lambda>(s, t). (Map.empty, t)) ps" by blast
  from arg_cong [OF ms(2), of "map snd"] have "map snd ms = map snd ps" by (simp add: comp_def case_prod_beta)
  with ms(1) show ?thesis by simp
qed

lemma pieces_columns:
  assumes "outcome_ok r"
  shows "pieces_of (columns_line r) = (case r of (t, lk, a, p, x) \<Rightarrow> [t, lk, a, p, x])"
proof -
  obtain t lk a p x where r: "r = (t, lk, a, p, x)" by (metis prod_cases5)
  have ok: "field_ok 40 t" "field_ok 10 lk" "field_ok 24 a" "field_ok 24 p" "field_ok (length x + 1) x"
    using assms by (simp_all add: r outcome_ok_def)
  define g where "g n s = replicate (n - length s) CHR '' '' @ '' ''" for n and s :: string
  let ?ps = "[(g 40 t, lk), (g 10 lk, a), (g 24 a, p), (g 24 p, x)]"
  have line: "columns_line r = t @ glued ?ps" by (simp add: r columns_line_def g_def ljust_def)
  have sp: "is_space CHR '' ''" by (simp add: is_space_def code_def)
  have g: "list_all is_space (g n s) \<and> 2 \<le> length (g n s)" if "field_ok n s" for n s
    using that sp by (auto simp: g_def field_ok_def list_all_iff)
  have f: "tight s \<and> s \<noteq> [] \<and> \<not> is_space (hd s)" if "field_ok n s" for n s using that by (simp add: field_ok_def)
  have "hd (t @ glued ?ps) = hd t" "last (t @ glued ?ps) = last x" using f [OF ok(1)] f [OF ok(5)] by simp_all
  then have "strip (columns_line r) = t @ glued ?ps"
    unfolding line strip_def using f [OF ok(1)] f [OF ok(5)] tight_last [of x] by (intro strip_by_noop) metis
  moreover have "list_all (\<lambda>(s, q). list_all is_space s \<and> 2 \<le> length s \<and> tight q \<and> q \<noteq> [] \<and> \<not> is_space (hd q)) ?ps"
    using g [OF ok(1)] g [OF ok(2)] g [OF ok(3)] g [OF ok(4)] f [OF ok(2)] f [OF ok(3)] f [OF ok(4)] f [OF ok(5)] by simp
  ultimately show ?thesis using split_gaps [of t ?ps] f [OF ok(1)] by (simp add: pieces_of_def r del: glued_simps)
qed

lemma memo_row_columns: "outcome_ok r \<Longrightarrow> memo_row (columns_line r) = Some (result_row r)"
  using pieces_columns [of r] by (cases r) (simp add: memo_row_def result_row_def)

lemma fields_no_break: "outcome_ok r \<Longrightarrow> c \<in> set (columns_line r) \<Longrightarrow> \<not> is_linebreak c"
proof -
  have "\<not> is_linebreak CHR '' ''" by (simp add: is_linebreak_def code_def)
  then show "outcome_ok r \<Longrightarrow> c \<in> set (columns_line r) \<Longrightarrow> \<not> is_linebreak c"
    by (cases r) (auto simp: columns_line_def outcome_ok_def field_ok_def ljust_def list_all_iff)
qed

lemma rows_collected:
  assumes "list_all outcome_ok rs"
  shows "memo_rows (collected rs) = sort_key row_key (map result_row rs)"
proof -
  have head: "outcome_ok (''test'', ''LKMM'', ''AArch64'', ''POWER'', ''x86-klitmus'')" by code_simp
  have "list_all (list_all (\<lambda>c. \<not> is_linebreak c)) (map columns_line rs)" if "list_all outcome_ok rs" for rs
    using that fields_no_break by (auto simp: list_all_iff)
  from splitlines_text [OF this [of "_ # rs"]] head assms
  have "splitlines (collected rs) = columns_line (''test'', ''LKMM'', ''AArch64'', ''POWER'', ''x86-klitmus'') # map columns_line rs"
    unfolding collected_def by simp
  moreover have "List.map_filter memo_row (map columns_line rs) = map result_row rs"
    using assms by (induction rs) (auto simp: List.map_filter_simps memo_row_columns)
  ultimately show ?thesis by (simp add: memo_rows_def)
qed

text \<open>The rows stand in the order of their tests.\<close>

lemma sort_key_map: "sort_key f (map g xs) = map g (sort_key (\<lambda>x. f (g x)) xs)"
proof -
  have ins: "insort_key f (g x) (map g ys) = map g (insort_key (\<lambda>x. f (g x)) x ys)" for x ys
    by (induction ys) auto
  show ?thesis by (induction xs) (simp_all add: sort_key_def ins)
qed

definition row_test :: "string \<Rightarrow> string" where
  "row_test r = strip (split_on CHR ''|'' r ! 1)"

lemma row_test_result:
  assumes ok: "outcome_ok r"
  shows "row_test (result_row r) = fst r"
proof -
  obtain t lk a p x where r: "r = (t, lk, a, p, x)" by (metis prod_cases5)
  have t: "CHR ''|'' \<notin> set t" "t \<noteq> [] \<and> \<not> is_space (hd t) \<and> \<not> is_space (last t)"
    using ok tight_last [of t] by (auto simp: r outcome_ok_def field_ok_def List.member_iff)
  have sp: "\<forall>c\<in>set '' ''. is_space c" by (simp add: is_space_def code_def)
  have "strip ('' '' @ t @ '' '') = strip t" by (rule strip_surround) (use sp in auto)
  also have "\<dots> = t" unfolding strip_def by (rule strip_by_noop) (use t(2) in blast)
  finally have s: "strip (CHR '' '' # t @ '' '') = t" by simp
  have "split_on CHR ''|'' (result_row r) = [] # split_on CHR ''|'' ('' '' @ t @ '' '' @ CHR ''|'' # '' '' @ join '' | '' [lk, cell a, cell p, x86_cell t x] @ '' |'')"
    by (simp add: r result_row_def table_row_def)
  moreover have "split_on CHR ''|'' (('' '' @ t @ '' '') @ CHR ''|'' # u) = ('' '' @ t @ '' '') # split_on CHR ''|'' u" for u
    by (rule split_on_append) (use t(1) in auto)
  ultimately show ?thesis by (simp add: row_test_def r s)
qed

lemma row_key_result: "outcome_ok r \<Longrightarrow> row_key (result_row r) = rank_of (fst r)"
  using row_test_result [of r] by (simp add: row_key_def row_test_def)

lemma memo_rows_collected:
  assumes "list_all outcome_ok rs"
  shows "memo_rows (collected rs) = map result_row (sort_key (\<lambda>r. rank_of (fst r)) rs)"
proof -
  have "sort_key (\<lambda>r. row_key (result_row r)) rs = sort_key (\<lambda>r. rank_of (fst r)) rs"
  proof -
    have ins: "insort_key (\<lambda>r. row_key (result_row r)) r ys = insort_key (\<lambda>r. rank_of (fst r)) r ys"
      if "outcome_ok r" "list_all outcome_ok ys" for r ys
      using that by (induction ys) (simp_all add: row_key_result)
    show ?thesis using assms
    proof (induction rs)
      case (Cons r rs)
      have "list_all outcome_ok (sort_key (\<lambda>r. rank_of (fst r)) rs)" using Cons.prems by (simp add: list_all_iff)
      with Cons ins show ?case by (simp add: sort_key_def)
    qed (simp add: sort_key_def)
  qed
  then show ?thesis by (simp add: rows_collected [OF assms] sort_key_map)
qed

section \<open>Replacing the table\<close>

text \<open>The first empty line behind a paragraph is the one that ends it.\<close>

lemma find_blank:
  "ls \<noteq> [] \<Longrightarrow> list_all (\<lambda>l. l \<noteq> [] \<and> cnl \<notin> set l) ls \<Longrightarrow> str_find (nl @ nl) (join nl ls @ nl @ nl @ after) = Some (length (join nl ls))"
proof (induction ls)
  case (Cons l ls)
  have skip: "str_find (nl @ nl) (a @ u) = map_option (\<lambda>n. length a + n) (str_find (nl @ nl) u)" if "cnl \<notin> set a" for a u
    using that by (cases "str_find (nl @ nl) u"; induction a) auto
  show ?case
  proof (cases "ls = []")
    case True
    have z: "str_find (nl @ nl) (nl @ nl @ after) = Some 0" by simp
    have "str_find (nl @ nl) (l @ nl @ nl @ after) = map_option (\<lambda>n. length l + n) (str_find (nl @ nl) (nl @ nl @ after))"
      by (rule skip) (use Cons.prems in simp)
    with True show ?thesis by (simp only: z option.map join.simps) simp
  next
    case False
    obtain k c ks where ls: "ls = (c # k) # ks" "c \<noteq> cnl"
      using False Cons.prems by (cases ls; cases "hd ls") auto
    let ?u = "join nl ls @ nl @ nl @ after"
    have "\<exists>w. ?u = c # w" by (cases ks) (simp_all add: ls)
    then have "str_find (nl @ nl) (nl @ ?u) = map_option Suc (str_find (nl @ nl) ?u)" using ls(2) by auto
    moreover have "str_find (nl @ nl) (l @ nl @ ?u) = map_option (\<lambda>n. length l + n) (str_find (nl @ nl) (nl @ ?u))"
      by (rule skip) (use Cons.prems in simp)
    moreover have "join nl (l # ls) @ nl @ nl @ after = l @ nl @ ?u" using False by (simp add: join_Cons)
    ultimately show ?thesis using Cons False by (simp add: join_Cons)
  qed
qed simp

definition memo_text :: "string \<Rightarrow> string \<Rightarrow> string \<Rightarrow> string list \<Rightarrow> string \<Rightarrow> string" where
  "memo_text before title rule rows after = before @ (TITLE_START @ title) @ nl @ rule @ nl @ join nl rows @ nl @ nl @ after"

definition memo_ok :: "string \<Rightarrow> string \<Rightarrow> string \<Rightarrow> string list \<Rightarrow> bool" where
  "memo_ok before title rule rows = (whole before \<and> \<not> str_in TITLE_START before \<and> \<not> List.member title cnl \<and> rows \<noteq> [] \<and>
     list_all (\<lambda>l. l \<noteq> [] \<and> \<not> List.member l cnl) (rule # rows))"

lemma put_table_memo:
  assumes "memo_ok before title rule old"
  shows "put_table rows (memo_text before title rule old after) = Inr (memo_text before title rule rows after)"
proof -
  let ?s = "memo_text before title rule old after" and ?b = "length before"
  let ?l1 = "TITLE_START @ title"
  have ok: "whole before" "\<not> str_in TITLE_START before" "cnl \<notin> set title" "old \<noteq> []"
    "list_all (\<lambda>l. l \<noteq> [] \<and> cnl \<notin> set l) (rule # old)"
    using assms by (simp_all add: memo_ok_def List.member_iff)
  have T: "cnl \<notin> set TITLE_START" "TITLE_START \<noteq> []" by code_simp+
  have 1: "index_from ?s TITLE_START 0 = Inr ?b"
    using find_whole [OF ok(1) T(1) ok(2)] T(2) by (simp add: index_from_def memo_text_def)
  have ls: "join nl (?l1 # rule # old) = ?l1 @ nl @ rule @ nl @ join nl old" using ok(4) by (simp add: join_Cons)
  have "list_all (\<lambda>l. l \<noteq> [] \<and> cnl \<notin> set l) (?l1 # rule # old)" using ok(3,5) T by simp
  from find_blank [OF _ this, of after] have 2: "index_from ?s (nl @ nl) ?b = Inr (?b + length (?l1 @ nl @ rule @ nl @ join nl old))"
    unfolding ls by (simp add: index_from_def memo_text_def)
  have "str_find nl (?l1 @ cnl # u) = Some (length ?l1)" for u
    by (rule str_find_char_append) (use ok(3) T(1) in simp)
  then have 3: "index_from ?s nl ?b = Inr (?b + length ?l1)" by (simp add: index_from_def memo_text_def)
  have "str_find nl (rule @ cnl # u) = Some (length rule)" for u
    by (rule str_find_char_append) (use ok(5) in simp)
  then have 4: "index_from ?s nl (?b + length ?l1 + 1) = Inr (?b + length ?l1 + 1 + length rule)"
    by (simp add: index_from_def memo_text_def)
  have "take ?b ?s = before" by (simp add: memo_text_def)
  moreover have "drop ?b (take (?b + length ?l1 + 1 + length rule + 1) ?s) = ?l1 @ nl @ rule @ nl" by (simp add: memo_text_def)
  moreover have "drop (?b + length (?l1 @ nl @ rule @ nl @ join nl old)) ?s = nl @ nl @ after" by (simp add: memo_text_def)
  ultimately show ?thesis unfolding put_table_def 1 bindE_simps 2 3 4 by (simp add: memo_text_def)
qed

text \<open>
  C34: With the output of collect-results.sh the script writes the table of the memo anew, one row for
  each test, in the order of its list with the unknown tests last, the fields as the columns have them; the
  text before and behind the table stays, but for the time in the title.\<close>

theorem memo_table_of_results:
  assumes "memo_ok before title rule old" "list_all outcome_ok rs"
  shows "update_memo now (collected rs) (Some (memo_text before title rule old after)) =
    (let rows = map result_row (sort_key (\<lambda>r. rank_of (fst r)) rs) in
     Inr (stamp now (memo_text before title rule rows after), join nl rows))"
  by (simp add: update_memo_def memo_rows_collected [OF assms(2)] put_table_memo [OF assms(1)] Let_def)

definition two_results :: "outcome list" where
  "two_results =
     [(''MNT-B1-walker-inc-vs-peek'', ''Never'', ''Never'', ''running'', ''-''),
      (''MNT-A1m-nomb-in-sum'', ''Sometimes'', ''Sometimes 1 5 (full)'', ''witnessed (speedcheck)'', ''Never 0/4000000'')]"

theorem memo_table_of_results_witness:
  "update_memo ''11:40'' (collected two_results)
     (Some (memo_text (''Table at hand-off (9:05 UTC; all)'' @ nl) '' | POWER |'' ''|---|'' [''| old |''] ''the end'')) =
   Inr (memo_text (''Table at hand-off (11:40 UTC; all)'' @ nl) '' | POWER |'' ''|---|''
     [''| MNT-A1m-nomb-in-sum | Sometimes | Sometimes 1 5 | witnessed | Never 0/4000000 (unobservable on TSO) |'',
      ''| MNT-B1-walker-inc-vs-peek | Never | Never | still running at hand-off | - |''] ''the end'',
     join nl [''| MNT-A1m-nomb-in-sum | Sometimes | Sometimes 1 5 | witnessed | Never 0/4000000 (unobservable on TSO) |'',
      ''| MNT-B1-walker-inc-vs-peek | Never | Never | still running at hand-off | - |''])"
proof -
  have ok: "memo_ok (''Table at hand-off (9:05 UTC; all)'' @ nl) '' | POWER |'' ''|---|'' [''| old |'']" "list_all outcome_ok two_results"
    by code_simp+
  have rows: "map result_row (sort_key (\<lambda>r. rank_of (fst r)) two_results) =
     [''| MNT-A1m-nomb-in-sum | Sometimes | Sometimes 1 5 | witnessed | Never 0/4000000 (unobservable on TSO) |'',
      ''| MNT-B1-walker-inc-vs-peek | Never | Never | still running at hand-off | - |'']" by code_simp
  show ?thesis unfolding memo_table_of_results [OF ok] rows Let_def by code_simp
qed

end
