(* ===== verification/Pipelines.thy ===== *)
theory Pipelines
  imports Trace_Props Trace_Files Ftrace_Extract Asm_Props Memo_Table "HOL-Library.Multiset"
begin

text \<open>
  Where one program reads what another wrote: the runs that \<^verbatim>\<open>trace/jens/extract.py\<close> cuts out of the image of a virtual
  machine are the dumps that \<^verbatim>\<open>trace2ndjson.py\<close> reads (\<^verbatim>\<open>reconvert-and-batch.sh\<close>), its events are what
  the properties of \<^verbatim>\<open>convert()\<close> ask for, and the tests that \<^verbatim>\<open>gen-asm.py\<close> writes are the rows of the table of
  \<^verbatim>\<open>update-memo-table.py\<close>.
\<close>

section \<open>From the image to the events\<close>









section \<open>From the tests to the memo\<close>

lemma sort_by_test: "map fst (sort_key (\<lambda>r. rank_of (fst r)) rs) = sort_key rank_of (map fst rs)"
  by (rule sort_key_map [symmetric])

definition TEST_NAMES :: "string list" where
  "TEST_NAMES = [''MNT-A1-holder-get-before-put'', ''MNT-A1m-nowmb'', ''MNT-A1m-nomb-in-sum'', ''MNT-A1m-gets-first'',
     ''MNT-C1-kern-unmount-get-before-put'', ''MNT-D1-dekker-fastpath-recheck'', ''MNT-D1m-holder-wmb-only'', ''MNT-B1-walker-inc-vs-peek'',
     ''MNT-B1m-walker-nomb'', ''MNT-B1m-peek-no-outer-mb'', ''MNT-B2-walker-bail-sees-doomed-lazy'', ''MNT-E1-slowpath-no-outer-mb'',
     ''MNT-E2-busycheck-no-outer-mb'', ''MNT-B2r-walker-bail-reduced'', ''MNT-B2m-walker-flags-unlocked'']"

lemma test_names: "dkeys TESTS = TEST_NAMES"
  by (simp add: TESTS_def TEST_NAMES_def Let_def)

definition MEMO_ORDER :: "string list" where
  "MEMO_ORDER = ORDER @ [''MNT-B2r-walker-bail-reduced'']"

lemma memo_order: "map rank_of MEMO_ORDER = [0, 1, 2, 3, 4, 5, 6, 7, 8, 9, 10, 11, 12, 13, 99]" "mset (dkeys TESTS) = mset MEMO_ORDER"
  unfolding test_names by (simp_all add: MEMO_ORDER_def rank_of_def ORDER_def TEST_NAMES_def)

text \<open>
  C35: when the results of the tests that \<^verbatim>\<open>gen-asm.py\<close> writes are collected, in whatever order, the rows of the memo's table
  are these tests, each once, in the memo's order; the reduced test, which that order does not have, comes last.
\<close>

theorem tests_in_memo:
  assumes "list_all outcome_ok rs" "mset (map fst rs) = mset (dkeys TESTS)"
  shows "map row_test (memo_rows (collected rs)) = ORDER @ [''MNT-B2r-walker-bail-reduced'']"
proof -
  have "distinct (map rank_of MEMO_ORDER)" "sorted (map rank_of MEMO_ORDER)" by (simp_all add: memo_order(1))
  moreover have m: "mset (map fst rs) = mset MEMO_ORDER" using assms(2) memo_order(2) by (rule trans)
  ultimately have "sort_key rank_of (map fst rs) = MEMO_ORDER"
    using mset_eq_setD [OF m] by (intro sort_key_inj_key_eq [OF m]) (simp_all add: distinct_map)
  moreover have "list_all outcome_ok (sort_key (\<lambda>r. rank_of (fst r)) rs)" using assms(1) by (simp add: list_all_iff)
  then have "map row_test (map result_row (sort_key (\<lambda>r. rank_of (fst r)) rs)) = map fst (sort_key (\<lambda>r. rank_of (fst r)) rs)"
    by (simp add: list_all_iff row_test_result)
  ultimately show ?thesis by (simp add: memo_rows_collected [OF assms(1)] sort_by_test MEMO_ORDER_def)
qed

theorem tests_in_memo_witness:
  "map row_test (memo_rows (collected (map (\<lambda>t. (t, ''Never'', ''Never'', ''running'', ''Never 0/1000'')) (rev (dkeys TESTS))))) =
    ORDER @ [''MNT-B2r-walker-bail-reduced'']"
proof (rule tests_in_memo)
  show "list_all outcome_ok (map (\<lambda>t. (t, ''Never'', ''Never'', ''running'', ''Never 0/1000'')) (rev (dkeys TESTS)))"
    unfolding test_names TEST_NAMES_def
    by (simp add: outcome_ok_def field_ok_def is_space_def is_linebreak_def code_def List.member_iff)
qed (simp add: comp_def)

end
