(* ===== verification/Cfg_Mount.thy ===== *)
theory Cfg_Mount
  imports Tlc_Cfg
begin

text \<open>
  \<^verbatim>\<open>kernel/mount/tla/gen-cfgs.py\<close>: the configurations of the mount models. The tables are the
  script's; \<open>CONFIGS\<close> is built up by the statements that follow its literal, in their order. One
  function per writing loop gives the lines of a file, \<open>gen\<close> is the whole script. For every loop a
  specification says which configuration an entry stands for.
\<close>

section \<open>The propagation configurations\<close>

text \<open>layout, fixes off, invariants, expectation, overrides\<close>

type_synonym config = "string \<times> string list \<times> string list \<times> string \<times> (string, pyval) dict"

definition FIXES :: "string list" where
  \<open>FIXES =
     [''FIX_TRIM_ANCESTORS'', ''FIX_HANDLE_LOCKED'', ''FIX_REPARENT_LATE'', ''FIX_FIND_MASTER_STOP'',
     ''FIX_TUCK_LOCK'', ''FIX_PUT_MNT_NS_DISCONNECT'', ''FIX_CLONE_UNBINDABLE'',
     ''FIX_SET_GROUP_UNBINDABLE'', ''FIX_BUSY_VICTIMS'']\<close>

definition SAFETY :: "string list" where
  \<open>SAFETY =
     [''TypeOK'', ''AlgebraOK'', ''Structure'', ''IteratorsOK'', ''NsOK'', ''RefsOK'', ''CoverOK'',
     ''SyncUmountNotBusy'', ''BusyMirrorOK'', ''DeadUnderDead'']\<close>

definition WITNESSES :: "string list" where
  \<open>WITNESSES =
     [''NoTuck'', ''NoLockTransfer'', ''NoReparent'', ''NoSlaveOfSlave'', ''NoSkippedMaster'',
     ''NoLockedKept'', ''NoConnected'', ''NoPutNs'', ''NoExpiry'', ''NoTrim'', ''NoCovers'']\<close>

definition LAYOUTS :: "(string, int \<times> int \<times> int \<times> int) dict" where
  \<open>LAYOUTS = [
     (''algebra'', (6, 3, 4, 1)),
     (''small'', (6, 3, 4, 1)),
     (''chain'', (10, 3, 3, 1)),
     (''peers'', (8, 3, 3, 1)),
     (''locked'', (9, 3, 3, 1)),
     (''parentcand'', (6, 2, 1, 1)),
     (''crossbind'', (9, 2, 1, 1)),
     (''propns'', (9, 3, 1, 1))]\<close>

definition CONFIGS_0 :: "(string, config) dict" where
  \<open>CONFIGS_0 = [
     (''algebra_smoke'', (''algebra'', [], SAFETY @ [''ReachOK''], ''pass'', [(''ops'', PInt 3)])),
     (''algebra_fixed'', (''algebra'', [], SAFETY, ''pass'', [])),
     (''algebra_doc'', (''algebra'', [], [''AlgebraOK''], ''violation'', [(''doc'', PBool True)])),
     (''algebra_no_trim'', (''algebra'', [''FIX_TRIM_ANCESTORS''], [''AlgebraOK'', ''Structure''],
     ''violation'', [])),
     (''algebra_no_handle_locked'', (''algebra'', [''FIX_HANDLE_LOCKED''], [''AlgebraOK'', ''CoverOK''],
     ''violation'', [])),
     (''algebra_reparent_early'', (''algebra'', [''FIX_REPARENT_LATE''], [''AlgebraOK'', ''Structure''],
     ''violation'', [])),
     (''algebra_find_master'', (''algebra'', [''FIX_FIND_MASTER_STOP''], [''AlgebraOK''], ''violation'',
     [])),
     (''algebra_tuck_no_lock'', (''algebra'', [''FIX_TUCK_LOCK''], [''CoverOK''], ''violation'', [])),
     (''algebra_put_ns_connected'', (''algebra'', [''FIX_PUT_MNT_NS_DISCONNECT''], SAFETY, ''pass'', []))]\<close>

definition witness_name :: "string \<Rightarrow> string" where
  "witness_name w = lower (drop 2 w)"

definition small_witnesses :: "(string, config) dict \<Rightarrow> (string, config) dict" where
  "small_witnesses c = foldl (\<lambda>c w. AList.update (''small_witness_'' @ witness_name w)
     (''small'', [], [w], ''violation'', []) c) c WITNESSES"

definition copies :: "string list \<Rightarrow> string list \<Rightarrow> (string, config) dict \<Rightarrow> (string, config) dict result" where
  "copies lays names c = foldE (\<lambda>c name. bindE (item c (''algebra_'' @ name)) (\<lambda>(layout, off, invs, expect, over).
     Inr (foldl (\<lambda>c lay. AList.update (lay @ ''_'' @ name) (lay, off, invs, expect, over) c) c lays))) c names"

definition small_findings :: "(string, config) dict" where
  "small_findings = [
     (''small_fixed'', (''small'', [], SAFETY, ''pass'', [])),
     (''small_clone_unbindable'', (''small'', [''FIX_CLONE_UNBINDABLE''], [''AlgebraOK''], ''violation'', [(''doc'', PBool True)])),
     (''locked_set_group_unbindable'', (''locked'', [''FIX_SET_GROUP_UNBINDABLE''], [''Structure''], ''violation'', [])),
     (''locked_busy_victims'', (''locked'', [''FIX_BUSY_VICTIMS''], [''SyncUmountNotBusy''], ''violation'', []))]"

definition fail_configs :: "(string, config) dict \<Rightarrow> (string, config) dict" where
  "fail_configs c = foldl (\<lambda>c lay. AList.update (lay @ ''_fail'')
     (lay, [], SAFETY @ [''UnwindOK''], ''pass'', [(''fails'', PInt 1)]) c) c [''chain'', ''peers'', ''locked'']"

definition scripted :: "(string, config) dict" where
  "scripted = [
     (''small_smoke_fail'', (''small'', [], SAFETY @ [''ReachOK'', ''UnwindOK''], ''pass'', [(''ops'', PInt 3), (''fails'', PInt 1)])),
     (''locked_witness_fail'', (''locked'', [], [''NoFail''], ''violation'', [(''fails'', PInt 1)])),
     (''parentcand_fixed'', (''parentcand'', [], SAFETY, ''pass'', [])),
     (''crossbind_fixed'', (''crossbind'', [], SAFETY, ''pass'', [])),
     (''crossbind_witness_trim'', (''crossbind'', [], [''NoTrim''], ''violation'', [])),
     (''crossbind_no_trim'', (''crossbind'', [''FIX_TRIM_ANCESTORS''], [''AlgebraOK'', ''Structure''], ''violation'', [])),
     (''propns_fixed'', (''propns'', [], SAFETY, ''pass'', [])),
     (''parentcand_busy_victims'', (''parentcand'', [''FIX_BUSY_VICTIMS''], [''SyncUmountNotBusy''], ''violation'', [])),
     (''small_smoke'', (''small'', [], SAFETY @ [''ReachOK''], ''pass'', [(''ops'', PInt 3)]))]"

definition fixed_doc :: "(string, config) dict \<Rightarrow> (string, config) dict" where
  "fixed_doc c = foldl (\<lambda>c lay. dmerge c [
     (lay @ ''_fixed'', (lay, [], SAFETY, ''pass'', [])),
     (lay @ ''_doc'', (lay, [], [''AlgebraOK''], ''violation'', [(''doc'', PBool True)]))]) c [''chain'', ''peers'', ''locked'']"

definition layout_witnesses :: "string \<Rightarrow> string list \<Rightarrow> (string, config) dict \<Rightarrow> (string, config) dict" where
  "layout_witnesses lay ws c = foldl (\<lambda>c w. AList.update (lay @ ''_witness_'' @ witness_name w)
     (lay, [], [w], ''violation'', []) c) c ws"

definition overwritten :: "(string, config) dict" where
  "overwritten = [
     (''chain_tuck_no_lock'', (''chain'', [''FIX_TUCK_LOCK''], [''CoverOK''], ''pass'', [])),
     (''small_tuck_no_lock'', (''small'', [''FIX_TUCK_LOCK''], [''CoverOK''], ''pass'', []))]"

definition CONFIGS :: "(string, config) dict result" where
  "CONFIGS =
     bindE (copies [''small''] [''no_trim'', ''no_handle_locked'', ''reparent_early'', ''find_master'', ''tuck_no_lock'', ''doc'']
              (small_witnesses CONFIGS_0)) (\<lambda>c.
     bindE (copies [''chain'', ''locked''] [''no_trim'', ''no_handle_locked'', ''reparent_early'', ''find_master'', ''tuck_no_lock'']
              (layout_witnesses ''chain'' [''NoSlaveOfSlave'', ''NoSkippedMaster'', ''NoTuck'']
                 (fixed_doc (dmerge (fail_configs (dmerge c small_findings)) scripted)))) (\<lambda>c.
     Inr (dmerge (layout_witnesses ''locked'' [''NoLockedKept'', ''NoConnected'', ''NoCovers'', ''NoLockTransfer''] c) overwritten)))"

definition config_lines :: "string \<Rightarrow> config \<Rightarrow> string list result" where
  \<open>config_lines name = (\<lambda>(layout, off, invs, expect, over).
     bindE (item LAYOUTS layout) (\<lambda>(nmnt, nns, ops, fds).
     let ops = get_or over ''ops'' (PInt ops) in
     Inr ([remark (''generated by gen-cfgs.py: layout '' @ layout @ '', expected: '' @ expect),
           ''SPECIFICATION Spec'', ''CONSTANTS'',
           ''  MntIds = '' @ braces (upto_strs nmnt),
           ''  NsIds = '' @ braces (upto_strs nns),
           ''  Sbs <- SbsDef'', ''  Dentries <- DentriesDef'', ''  DSb <- DSbDef'',
           ''  DParent <- DParentDef'', ''  SbRoot <- SbRootDef'',
           ''  Procs <- ProcsDef'', ''  ProcUser <- ProcUserDef'',
           ''  InitSb = "N"'', ''  RootSb = "R"'', ''  MountSbs <- MountSbsDef'',
           ''  MaxOps = '' @ py_str ops, ''  MaxFds = '' @ show_int fds, ''  Prelude <- PreludeDef'']
          @ switch_lines FIXES off
          @ [asg ''CHECK_DOC'' (if truthy (get_or over ''doc'' (PBool False)) then ''TRUE'' else ''FALSE''),
             asg ''FAILS'' (py_str (get_or over ''fails'' (PInt 0)))]
          @ [''INVARIANTS''] @ map indent invs)))\<close>

section \<open>MntPut: the reference count under lockless use\<close>

text \<open>lazy, migrate, fixes off, invariants, properties, expectation\<close>

type_synonym put_config = "bool \<times> bool \<times> string list \<times> string list \<times> string list \<times> string"

text \<open>lazy, migrate, split, gets first, weak stores, put wmb, GetBudget, MigBudget, properties,
  expectation\<close>

type_synonym split_config =
  "bool \<times> bool \<times> bool \<times> bool \<times> bool \<times> bool \<times> int \<times> int \<times> string list \<times> string"

definition PUT_FIXES :: "string list" where
  \<open>PUT_FIXES =
     [''FIX_MB_LEGIT'', ''FIX_MB_UMOUNT'', ''FIX_MB_PUT'', ''FIX_RCU_DELAY'', ''FIX_PUT_RCU'',
     ''FIX_SYNC_FLAG'', ''FIX_DOOMED_FLAG'']\<close>

definition PUT_SAFETY :: "string list" where
  \<open>PUT_SAFETY =
     [''TypeOK'', ''Ledger'', ''NoUAF'', ''DoomedIsLast'', ''NoNegative'', ''SyncClean'']\<close>

definition PUT_LIVE :: "string list" where
  \<open>PUT_LIVE =
     [''Freed'', ''AllDone'']\<close>

definition PUT_CONFIGS :: "(string, put_config) dict" where
  \<open>PUT_CONFIGS = [
     (''mntput_fixed'', (False, False, [], PUT_SAFETY, PUT_LIVE, ''pass'')),
     (''mntput_fixed_lazy'', (True, False, [], PUT_SAFETY, PUT_LIVE, ''pass'')),
     (''mntput_torn_sum'', (False, True, [], PUT_SAFETY, [],
     ''violation: SyncClean, mnt_get_count() torn by a migrating mntget()/mntput() pair'')),
     (''mntput_torn_sum_lazy'', (True, True, [], PUT_SAFETY, PUT_LIVE, ''pass'')),
     (''mntput_no_mb_legit'', (False, False, [''FIX_MB_LEGIT''], PUT_SAFETY, [], ''violation: SyncClean'')),
     (''mntput_no_mb_legit_lazy'', (True, False, [''FIX_MB_LEGIT''], PUT_SAFETY, [],
     ''violation: DoomedIsLast'')),
     (''mntput_no_mb_umount'', (False, False, [''FIX_MB_UMOUNT''], PUT_SAFETY, [],
     ''violation: SyncClean'')),
     (''mntput_no_mb_put'', (True, False, [''FIX_MB_PUT''], PUT_SAFETY, [], ''violation: DoomedIsLast'')),
     (''mntput_no_rcu_delay'', (True, False, [''FIX_RCU_DELAY''], PUT_SAFETY, PUT_LIVE,
     ''violation: Freed (the mount leaks)'')),
     (''mntput_no_put_rcu'', (True, False, [''FIX_PUT_RCU''], PUT_SAFETY, PUT_LIVE,
     ''violation: Freed (the mount leaks)'')),
     (''mntput_no_sync_flag'', (False, False, [''FIX_SYNC_FLAG''], PUT_SAFETY, [],
     ''violation: SyncClean, cleanup_mnt() from the walker'')),
     (''mntput_no_doomed_flag'', (True, False, [''FIX_DOOMED_FLAG''], PUT_SAFETY, [], ''violation: NoUAF''))]\<close>

definition PUT_SPLIT_CONFIGS :: "(string, split_config) dict" where
  \<open>PUT_SPLIT_CONFIGS = [
     (''mntput_split_sum'', (False, True, True, False, False, True, 1, 2, PUT_LIVE, ''pass'')),
     (''mntput_split_sum_lazy'', (True, True, True, False, False, True, 1, 2, PUT_LIVE, ''pass'')),
     (''mntput_split_sum_busy'', (False, True, True, False, False, True, 2, 3, PUT_LIVE, ''pass'')),
     (''mntput_split_gets_first'', (False, True, True, True, False, True, 1, 2, [],
     ''violation: SyncClean, the split sum reads the gets before the puts'')),
     (''mntput_fixed_weak'', (False, False, False, False, True, False, 1, 2, PUT_LIVE, ''pass'')),
     (''mntput_fixed_weak_lazy'', (True, False, False, False, True, False, 1, 2, PUT_LIVE, ''pass'')),
     (''mntput_torn_sum_weak'', (False, True, False, False, True, False, 1, 2, [],
     ''violation: SyncClean, the torn sum with weakly ordered stores'')),
     (''mntput_split_weak'', (False, True, True, False, True, False, 1, 2, [],
     ''violation: SyncClean, the put overtakes its get without the smp_wmb()'')),
     (''mntput_split_weak_wmb'', (False, True, True, False, True, True, 1, 2, PUT_LIVE, ''pass'')),
     (''mntput_split_weak_wmb_lazy'', (True, True, True, False, True, True, 1, 2, PUT_LIVE, ''pass''))]\<close>

definition put_lines :: "string \<Rightarrow> put_config \<Rightarrow> string list result" where
  \<open>put_lines name = (\<lambda>(lazy, migrate, off, invs, props, expect).
     Inr ([remark (''generated by gen-cfgs.py: MntPut, expected: '' @ expect),
           ''SPECIFICATION Spec'', ''CONSTANTS'',
           ''  TaskList <- TaskListDef'', ''  Walkers = {"W1"}'', ''  Holders = {"H1"}'',
           ''  NCPU = 2'', ''  GetBudget = 1'',
           ''  MIGRATE = '' @ (if migrate then ''TRUE'' else ''FALSE''), ''  MigBudget = 2'',
           ''  LAZY = '' @ (if lazy then ''TRUE'' else ''FALSE'')]
          @ switch_lines PUT_FIXES off
          @ [''  FIX_SPLIT_COUNT = FALSE'', ''  SPLIT_GETS_FIRST = FALSE'', ''  WEAK_STORES = FALSE'',
             ''  FIX_PUT_WMB = FALSE'']
          @ [''INVARIANTS''] @ map indent invs
          @ (if props \<noteq> [] then ''PROPERTIES'' # map indent props else [])))\<close>

definition split_lines :: "string \<Rightarrow> split_config \<Rightarrow> string list result" where
  \<open>split_lines name = (\<lambda>(lazy, migrate, split, gets_first, weak, wmb, getb, migb, props, expect).
     Inr ([remark (''generated by gen-cfgs.py: MntPut, expected: '' @ expect),
           ''SPECIFICATION Spec'', ''CONSTANTS'',
           ''  TaskList <- TaskListDef'', ''  Walkers = {"W1"}'', ''  Holders = {"H1"}'',
           ''  NCPU = 2'', ''  GetBudget = '' @ show_int getb,
           ''  MIGRATE = '' @ tf migrate, ''  MigBudget = '' @ show_int migb, ''  LAZY = '' @ tf lazy]
          @ map (\<lambda>f. asg f ''TRUE'') PUT_FIXES
          @ [''  FIX_SPLIT_COUNT = '' @ tf split, ''  SPLIT_GETS_FIRST = '' @ tf gets_first,
             ''  WEAK_STORES = '' @ tf weak, ''  FIX_PUT_WMB = '' @ tf wmb]
          @ [''INVARIANTS''] @ map indent PUT_SAFETY
          @ (if props \<noteq> [] then ''PROPERTIES'' # map indent props else [])))\<close>

section \<open>LockMount: do_lock_mount() and get_mountpoint() against rmdir and d_invalidate()\<close>

text \<open>fixes off, invariants, properties, expectation\<close>

type_synonym lock_config = "string list \<times> string list \<times> string list \<times> string"

definition LOCK_FIXES :: "string list" where
  \<open>LOCK_FIXES =
     [''FIX_RECHECK'', ''FIX_UNLINKED'', ''FIX_DONT_MOUNT'', ''FIX_LOOKUP_UNLINKED'']\<close>

definition LOCK_SAFETY :: "string list" where
  \<open>LOCK_SAFETY =
     [''TypeOK'', ''HashUnique'', ''MountpointOK'', ''PinsUnderNsem'', ''NoUAF'', ''AttachOK'',
     ''NoOrphans'', ''Bounded'']\<close>

definition LOCK_CONFIGS :: "(string, lock_config) dict" where
  \<open>LOCK_CONFIGS = [
     (''lockmount_fixed'', ([], LOCK_SAFETY, [], ''pass'')),
     (''lockmount_no_recheck'', ([''FIX_RECHECK''], LOCK_SAFETY, [],
     ''violation: NoUAF, the temporary reference is dropped under namespace_sem on a stale answer and the parent is freed before the attach'')),
     (''lockmount_no_unlinked'', ([''FIX_UNLINKED''], LOCK_SAFETY, [],
     ''pass: d_set_mounted() and d_invalidate()'s rounds cover it; the mount on the unlinked directory is detached again'')),
     (''lockmount_no_dont_mount'', ([''FIX_DONT_MOUNT''], LOCK_SAFETY, [],
     ''violation: AttachOK, a mount is attached on a removed directory (DCACHE_CANT_MOUNT)'')),
     (''lockmount_no_lookup_unlinked'', ([''FIX_LOOKUP_UNLINKED''], LOCK_SAFETY, [],
     ''violation: Bounded, d_invalidate() loops forever (1e9c75fb9c47)''))]\<close>

definition lock_lines :: "string \<Rightarrow> lock_config \<Rightarrow> string list result" where
  \<open>lock_lines name = (\<lambda>(off, invs, props, expect).
     Inr ([remark (''generated by gen-cfgs.py: LockMount, expected: '' @ expect),
           ''SPECIFICATION Spec'', ''CONSTANTS'',
           ''  Dentries <- DentriesDef'', ''  DParent <- DParentDef'', ''  NewRoot = "F"'',
           ''  MntIds = {1, 2, 3, 4, 5}'', ''  Roots <- RootsDef'', ''  Mounters = {"M1", "M2"}'',
           ''  MInfo <- MInfoDef'', ''  RmdirTarget = "A"'', ''  InvalTarget = "A"'', ''  UmountTarget = 3'',
           ''  MaxLoops = 6'']
          @ switch_lines LOCK_FIXES off
          @ [''INVARIANTS''] @ map indent invs
          @ (if props \<noteq> [] then ''PROPERTIES'' # map indent props else [])))\<close>

section \<open>MntNs: the lifetime of a mount namespace\<close>

text \<open>fixes off, expectation\<close>

type_synonym ns_config = "string list \<times> string"

definition NS_FIXES :: "string list" where
  \<open>NS_FIXES =
     [''FIX_ACTIVE_CHECK'', ''FIX_TREE_FIRST'', ''FIX_CASCADE'', ''FIX_ACTIVE_FIRST'', ''FIX_EVICT_FIRST'',
     ''FIX_PASSIVE_RCU'', ''FIX_PUT_OUTSIDE_RCU'']\<close>

definition NS_SAFETY :: "string list" where
  \<open>NS_SAFETY =
     [''TypeOK'', ''ActiveRef'', ''OwnerOK'', ''ProtocolOK'', ''Reaped'']\<close>

definition NS_CONFIGS :: "(string, ns_config) dict" where
  \<open>NS_CONFIGS = [
     (''mntns_fixed'', ([], ''pass'')),
     (''mntns_no_active_check'', ([''FIX_ACTIVE_CHECK''],
     ''violation: ProtocolOK, listns() hands out an inactive namespace'')),
     (''mntns_tree_after_rcu'', ([''FIX_TREE_FIRST''],
     ''violation: ProtocolOK, a lookup increments passive after the RCU callback freed the namespace'')),
     (''mntns_no_cascade'', ([''FIX_CASCADE''], ''violation: OwnerOK'')),
     (''mntns_ref_before_active'', ([''FIX_ACTIVE_FIRST''],
     ''violation: ActiveRef or ProtocolOK, the reference goes while the namespace counts as active'')),
     (''mntns_evict_ref_first'', ([''FIX_EVICT_FIRST''], ''violation: ActiveRef or ProtocolOK'')),
     (''mntns_no_passive_rcu'', ([''FIX_PASSIVE_RCU''], ''violation: ProtocolOK, use after free'')),
     (''mntns_put_in_rcu'', ([''FIX_PUT_OUTSIDE_RCU''],
     ''violation: ProtocolOK, the teardown sleeps under rcu_read_lock() (2ec2aff3c8e2)''))]\<close>

definition ns_lines :: "string \<Rightarrow> ns_config \<Rightarrow> string list result" where
  "ns_lines name = (\<lambda>(off, expect).
     Inr ([remark (''generated by gen-cfgs.py: MntNs, expected: '' @ expect), ''SPECIFICATION Spec'', ''CONSTANTS'']
          @ switch_lines NS_FIXES off
          @ [''INVARIANTS''] @ map indent NS_SAFETY))"

section \<open>MntWriters: WRITE_HOLD\<close>

text \<open>mode, fixes off, expectation\<close>

type_synonym wr_config = "string \<times> string list \<times> string"

definition WR_FIXES :: "string list" where
  \<open>WR_FIXES =
     [''FIX_MB_GET'', ''FIX_MB_HOLD'', ''FIX_SBRO'']\<close>

definition WR_SAFETY :: "string list" where
  \<open>WR_SAFETY =
     [''ReadOnlyOK'', ''DecisionOK'', ''Ledger'', ''HoldUnderLock'']\<close>

definition WR_CONFIGS :: "(string, wr_config) dict" where
  \<open>WR_CONFIGS = [
     (''mntwriters_fixed'', (''mnt'', [], ''pass'')),
     (''mntwriters_fixed_sb'', (''sb'', [], ''pass'')),
     (''mntwriters_no_mb_get'', (''mnt'', [''FIX_MB_GET''],
     ''violation: DecisionOK or ReadOnlyOK, the writer's increment is still buffered when the holder sums'')),
     (''mntwriters_no_mb_hold'', (''mnt'', [''FIX_MB_HOLD''],
     ''violation: DecisionOK or ReadOnlyOK, WRITE_HOLD is still buffered when the holder sums'')),
     (''mntwriters_no_sbro'', (''sb'', [''FIX_SBRO''],
     ''violation: ReadOnlyOK, a writer gets in between sb_prepare_remount_readonly() and SB_RDONLY''))]\<close>

definition wr_lines :: "string \<Rightarrow> wr_config \<Rightarrow> string list result" where
  \<open>wr_lines name = (\<lambda>(mode, off, expect).
     Inr ([remark (''generated by gen-cfgs.py: MntWriters, expected: '' @ expect), ''SPECIFICATION Spec'', ''CONSTANTS'',
           ''  Writers = {"W1", "W2"}'', ''  WCpu <- WCpuDef'', ''  NCPU = 2'', ''  HMODE = "'' @ mode @ ''"'']
          @ switch_lines WR_FIXES off
          @ [''INVARIANTS''] @ map indent WR_SAFETY))\<close>

section \<open>MountWalk: the RCU walk against mount, umount and move\<close>

text \<open>layout, change, victim, mounts, fixes off, invariants, expectation\<close>

type_synonym mw_config = "string \<times> string \<times> int \<times> int \<times> string list \<times> string list \<times> string"

definition MW_FIXES :: "string list" where
  \<open>MW_FIXES =
     [''FIX_RECHECK_MISS'', ''FIX_RECHECK_HOP'', ''FIX_RECHECK_DOTDOT'', ''FIX_SCOPED_EAGAIN'',
     ''FIX_RCU_FREE'']\<close>

definition MW_SAFETY :: "string list" where
  \<open>MW_SAFETY =
     [''NoUAF'', ''RcuResultOK'', ''ScopedOK'', ''Bounded'', ''Ledger'']\<close>

definition MW_CONFIGS :: "(string, mw_config) dict" where
  \<open>MW_CONFIGS = [
     (''mountwalk_fixed_mount'', (''mountwalk'', ''none'', 2, 2, [], MW_SAFETY, ''pass'')),
     (''mountwalk_fixed_umount'', (''mountwalk'', ''umount'', 2, 2, [], MW_SAFETY, ''pass'')),
     (''mountwalk_fixed_move'', (''mountwalk'', ''move'', 2, 2, [], MW_SAFETY, ''pass'')),
     (''mountwalk_no_recheck_dotdot'', (''mountwalk'', ''move'', 2, 2, [''FIX_RECHECK_DOTDOT''], MW_SAFETY,
     ''violation: RcuResultOK, the climb through a mount being moved ends on a negative dentry where the walk should have succeeded (aed434ada685)'')),
     (''mountwalk_no_scoped_eagain'', (''mountwalk'', ''move'', 2, 2, [''FIX_SCOPED_EAGAIN''], MW_SAFETY,
     ''pass: the final legitimization catches the escape here; the -EAGAIN exists for rename races and for the sinks'')),
     (''mountwalk_no_rcu_free'', (''mountwalk'', ''umount'', 2, 2, [''FIX_RCU_FREE''], MW_SAFETY,
     ''violation: NoUAF, the walker's mount is freed under it'')),
     (''mountwalk_witness_climb'', (''mountwalk'', ''none'', 2, 2, [], [''NoClimb''], ''violation'')),
     (''mountwalk2_fixed_move'', (''mountwalk2'', ''move'', 3, 2, [], MW_SAFETY, ''pass'')),
     (''mountwalk2_no_recheck_miss'', (''mountwalk2'', ''move'', 3, 2, [''FIX_RECHECK_MISS''], MW_SAFETY,
     ''violation: RcuResultOK, a miss of __lookup_mnt() while an unrelated mount moves lets the walk go beneath the mount on A (b37199e626b3)'')),
     (''mountwalk2_no_recheck_hop'', (''mountwalk2'', ''move'', 2, 2, [''FIX_RECHECK_HOP''], MW_SAFETY,
     ''pass: 20aac6c60981 needs a rename race, which the model does not have'')),
     (''mountwalk2_witness_miss'', (''mountwalk2'', ''move'', 3, 2, [], [''NoMiss''], ''violation'')),
     (''mountwalk2_witness_escape'', (''mountwalk2'', ''umount'', 2, 2, [], [''NoEscape''], ''violation''))]\<close>

definition mw_lines :: "string \<Rightarrow> mw_config \<Rightarrow> string list result" where
  \<open>mw_lines name = (\<lambda>(layout, change, victim, mounts, off, invs, expect).
     Inr ([remark (''generated by gen-cfgs.py: MountWalk ('' @ layout @ ''), expected: '' @ expect),
           ''SPECIFICATION Spec'', ''CONSTANTS'',
           ''  Dentries <- DentriesDef'', ''  DParent <- DParentDef'', ''  DName <- DNameDef'', ''  DSb <- DSbDef'',
           ''  SbRoot <- SbRootDef'', ''  Negative <- NegativeDef'', ''  RootSb = "S"'', ''  NewSb = "F"'',
           ''  MntIds = {1, 2, 3}'', ''  Walkers = {"W1", "W2"}'', ''  WProg <- WProgDef'', ''  WRoot <- WRootDef'',
           ''  WScoped <- WScopedDef'', ''  MaxRestarts = 3'', ''  Mounts = '' @ show_int mounts,
           ''  CHANGE = "'' @ change @ ''"'', ''  Victim = '' @ show_int victim]
          @ switch_lines MW_FIXES off
          @ [''INVARIANTS''] @ map indent invs))\<close>

section \<open>The script\<close>

text \<open>The files of the directory afterwards and the line printed. The count printed leaves out the
  entries of \<open>PUT_SPLIT_CONFIGS\<close>.\<close>

definition gen :: "dir \<Rightarrow> (dir \<times> string) result" where
  "gen d = bindE CONFIGS (\<lambda>configs.
     bindE (write_all config_lines configs d) (\<lambda>d.
     bindE (write_all put_lines PUT_CONFIGS d) (\<lambda>d.
     bindE (write_all split_lines PUT_SPLIT_CONFIGS d) (\<lambda>d.
     bindE (write_all lock_lines LOCK_CONFIGS d) (\<lambda>d.
     bindE (write_all ns_lines NS_CONFIGS d) (\<lambda>d.
     bindE (write_all wr_lines WR_CONFIGS d) (\<lambda>d.
     bindE (write_all mw_lines MW_CONFIGS d) (\<lambda>d.
     Inr (d, show_nat (length configs + length PUT_CONFIGS + length LOCK_CONFIGS + length NS_CONFIGS
                + length WR_CONFIGS + length MW_CONFIGS) @ '' configurations written'')))))))))"

section \<open>The constants of the modules\<close>

text \<open>The constants the modules declare; \<^verbatim>\<open>MC_small\<close> and the other layout modules extend
  \<^verbatim>\<open>MountOps\<close>, which extends \<^verbatim>\<open>Propagation\<close> and \<^verbatim>\<open>MountTree\<close>.\<close>

definition TREE_CONSTANTS :: "string list" where
  "TREE_CONSTANTS =
     [''MntIds'', ''NsIds'', ''Sbs'', ''Dentries'', ''DSb'', ''DParent'', ''SbRoot'']"

definition PROPAGATION_CONSTANTS :: "string list" where
  "PROPAGATION_CONSTANTS =
     [''FIX_TRIM_ANCESTORS'', ''FIX_HANDLE_LOCKED'', ''FIX_REPARENT_LATE'', ''FIX_FIND_MASTER_STOP'',
     ''FIX_TUCK_LOCK'', ''FIX_CLONE_UNBINDABLE'', ''FIX_SET_GROUP_UNBINDABLE'', ''FIX_BUSY_VICTIMS'']"

definition OPS_CONSTANTS :: "string list" where
  "OPS_CONSTANTS =
     [''Procs'', ''ProcUser'', ''InitSb'', ''RootSb'', ''MountSbs'', ''MaxOps'', ''MaxFds'', ''Prelude'',
     ''FIX_PUT_MNT_NS_DISCONNECT'', ''CHECK_DOC'', ''FAILS'']"

definition PUT_CONSTANTS :: "string list" where
  "PUT_CONSTANTS =
     [''TaskList'', ''Walkers'', ''Holders'', ''NCPU'', ''GetBudget'', ''MIGRATE'', ''MigBudget'', ''LAZY'',
     ''FIX_MB_LEGIT'', ''FIX_MB_UMOUNT'', ''FIX_MB_PUT'', ''FIX_RCU_DELAY'', ''FIX_PUT_RCU'',
     ''FIX_SYNC_FLAG'', ''FIX_DOOMED_FLAG'', ''FIX_SPLIT_COUNT'', ''SPLIT_GETS_FIRST'', ''WEAK_STORES'',
     ''FIX_PUT_WMB'']"

definition LOCK_CONSTANTS :: "string list" where
  "LOCK_CONSTANTS =
     [''Dentries'', ''DParent'', ''NewRoot'', ''MntIds'', ''Roots'', ''Mounters'', ''MInfo'',
     ''RmdirTarget'', ''InvalTarget'', ''UmountTarget'', ''FIX_RECHECK'', ''FIX_UNLINKED'',
     ''FIX_DONT_MOUNT'', ''FIX_LOOKUP_UNLINKED'', ''MaxLoops'']"

definition NS_CONSTANTS :: "string list" where
  "NS_CONSTANTS =
     [''FIX_ACTIVE_CHECK'', ''FIX_TREE_FIRST'', ''FIX_CASCADE'', ''FIX_ACTIVE_FIRST'', ''FIX_EVICT_FIRST'',
     ''FIX_PASSIVE_RCU'', ''FIX_PUT_OUTSIDE_RCU'']"

definition WR_CONSTANTS :: "string list" where
  "WR_CONSTANTS =
     [''Writers'', ''WCpu'', ''NCPU'', ''HMODE'', ''FIX_MB_GET'', ''FIX_MB_HOLD'', ''FIX_SBRO'']"

definition MW_CONSTANTS :: "string list" where
  "MW_CONSTANTS =
     [''Dentries'', ''DParent'', ''DName'', ''DSb'', ''SbRoot'', ''Negative'', ''RootSb'', ''NewSb'',
     ''MntIds'', ''Walkers'', ''WProg'', ''WRoot'', ''WScoped'', ''MaxRestarts'', ''Mounts'', ''CHANGE'',
     ''Victim'', ''FIX_RECHECK_MISS'', ''FIX_RECHECK_HOP'', ''FIX_RECHECK_DOTDOT'', ''FIX_SCOPED_EAGAIN'',
     ''FIX_RCU_FREE'']"

definition mount_modules :: "string \<Rightarrow> string list option" where
  "mount_modules m = map_of (map (\<lambda>l. (''MC_'' @ l, TREE_CONSTANTS @ PROPAGATION_CONSTANTS @ OPS_CONSTANTS)) (dkeys LAYOUTS)
     @ [(''MC_mntput'', PUT_CONSTANTS), (''MC_lockmount'', LOCK_CONSTANTS), (''MC_mntns'', NS_CONSTANTS),
        (''MC_mntwriters'', WR_CONSTANTS), (''MC_mountwalk'', MW_CONSTANTS), (''MC_mountwalk2'', MW_CONSTANTS)]) m"

end
