(* ===== verification/Cfg_Mount_Props.thy ===== *)
theory Cfg_Mount_Props
  imports Cfg_Mount
begin

text \<open>
  What \<^verbatim>\<open>kernel/mount/tla/gen-cfgs.py\<close> writes: every entry of its tables becomes a file that reads
  back as the configuration the entry stands for, that assigns exactly the constants of the module
  \<^verbatim>\<open>check.sh\<close> runs it with, and whose expectation the scripts recover.
\<close>

section \<open>The configurations the entries stand for\<close>

definition config_spec :: "string \<Rightarrow> config \<Rightarrow> tlc_cfg" where
  \<open>config_spec name = (\<lambda>(layout, off, invs, expect, over).
     case map_of LAYOUTS layout of None \<Rightarrow> empty_cfg | Some (nmnt, nns, ops, fds) \<Rightarrow>
     \<lparr>cfg_comments = [banner ('': layout '' @ layout) expect],
      cfg_spec = ''Spec'',
      cfg_consts = [(''MntIds'', Val (braces (upto_strs nmnt))), (''NsIds'', Val (braces (upto_strs nns))),
         (''Sbs'', Def ''SbsDef''), (''Dentries'', Def ''DentriesDef''), (''DSb'', Def ''DSbDef''),
         (''DParent'', Def ''DParentDef''), (''SbRoot'', Def ''SbRootDef''), (''Procs'', Def ''ProcsDef''),
         (''ProcUser'', Def ''ProcUserDef''), (''InitSb'', Val ''"N"''), (''RootSb'', Val ''"R"''),
         (''MountSbs'', Def ''MountSbsDef''), (''MaxOps'', Val (py_str (get_or over ''ops'' (PInt ops)))),
         (''MaxFds'', Val (show_int fds)), (''Prelude'', Def ''PreludeDef'')]
         @ switches FIXES off
         @ [(''CHECK_DOC'', Val (tf (truthy (get_or over ''doc'' (PBool False))))),
            (''FAILS'', Val (py_str (get_or over ''fails'' (PInt 0))))],
      cfg_invs = invs, cfg_props = []\<rparr>)\<close>

definition put_consts :: "int \<Rightarrow> bool \<Rightarrow> int \<Rightarrow> bool \<Rightarrow> string list \<Rightarrow> bool \<Rightarrow> bool \<Rightarrow> bool \<Rightarrow> bool \<Rightarrow> (string \<times> cval) list" where
  \<open>put_consts getb migrate migb lazy off split gets_first weak wmb =
     [(''TaskList'', Def ''TaskListDef''), (''Walkers'', Val ''{"W1"}''), (''Holders'', Val ''{"H1"}''),
      (''NCPU'', Val ''2''), (''GetBudget'', Val (show_int getb)), (''MIGRATE'', Val (tf migrate)),
      (''MigBudget'', Val (show_int migb)), (''LAZY'', Val (tf lazy))]
     @ switches PUT_FIXES off
     @ [(''FIX_SPLIT_COUNT'', Val (tf split)), (''SPLIT_GETS_FIRST'', Val (tf gets_first)),
        (''WEAK_STORES'', Val (tf weak)), (''FIX_PUT_WMB'', Val (tf wmb))]\<close>

definition put_spec :: "string \<Rightarrow> put_config \<Rightarrow> tlc_cfg" where
  "put_spec name = (\<lambda>(lazy, migrate, off, invs, props, expect).
     \<lparr>cfg_comments = [banner '': MntPut'' expect], cfg_spec = ''Spec'',
      cfg_consts = put_consts 1 migrate 2 lazy off False False False False,
      cfg_invs = invs, cfg_props = props\<rparr>)"

definition split_spec :: "string \<Rightarrow> split_config \<Rightarrow> tlc_cfg" where
  "split_spec name = (\<lambda>(lazy, migrate, split, gets_first, weak, wmb, getb, migb, props, expect).
     \<lparr>cfg_comments = [banner '': MntPut'' expect], cfg_spec = ''Spec'',
      cfg_consts = put_consts getb migrate migb lazy [] split gets_first weak wmb,
      cfg_invs = PUT_SAFETY, cfg_props = props\<rparr>)"

definition lock_spec :: "string \<Rightarrow> lock_config \<Rightarrow> tlc_cfg" where
  \<open>lock_spec name = (\<lambda>(off, invs, props, expect).
     \<lparr>cfg_comments = [banner '': LockMount'' expect], cfg_spec = ''Spec'',
      cfg_consts = [(''Dentries'', Def ''DentriesDef''), (''DParent'', Def ''DParentDef''), (''NewRoot'', Val ''"F"''),
         (''MntIds'', Val ''{1, 2, 3, 4, 5}''), (''Roots'', Def ''RootsDef''), (''Mounters'', Val ''{"M1", "M2"}''),
         (''MInfo'', Def ''MInfoDef''), (''RmdirTarget'', Val ''"A"''), (''InvalTarget'', Val ''"A"''),
         (''UmountTarget'', Val ''3''), (''MaxLoops'', Val ''6'')] @ switches LOCK_FIXES off,
      cfg_invs = invs, cfg_props = props\<rparr>)\<close>

definition ns_spec :: "string \<Rightarrow> ns_config \<Rightarrow> tlc_cfg" where
  "ns_spec name = (\<lambda>(off, expect).
     \<lparr>cfg_comments = [banner '': MntNs'' expect], cfg_spec = ''Spec'',
      cfg_consts = switches NS_FIXES off, cfg_invs = NS_SAFETY, cfg_props = []\<rparr>)"

definition wr_spec :: "string \<Rightarrow> wr_config \<Rightarrow> tlc_cfg" where
  \<open>wr_spec name = (\<lambda>(mode, off, expect).
     \<lparr>cfg_comments = [banner '': MntWriters'' expect], cfg_spec = ''Spec'',
      cfg_consts = [(''Writers'', Val ''{"W1", "W2"}''), (''WCpu'', Def ''WCpuDef''), (''NCPU'', Val ''2''),
         (''HMODE'', Val (quoted mode))] @ switches WR_FIXES off,
      cfg_invs = WR_SAFETY, cfg_props = []\<rparr>)\<close>

definition mw_spec :: "string \<Rightarrow> mw_config \<Rightarrow> tlc_cfg" where
  \<open>mw_spec name = (\<lambda>(layout, change, victim, mounts, off, invs, expect).
     \<lparr>cfg_comments = [banner ('': MountWalk ('' @ layout @ '')'') expect],
      cfg_spec = ''Spec'',
      cfg_consts = [(''Dentries'', Def ''DentriesDef''), (''DParent'', Def ''DParentDef''), (''DName'', Def ''DNameDef''),
         (''DSb'', Def ''DSbDef''), (''SbRoot'', Def ''SbRootDef''), (''Negative'', Def ''NegativeDef''),
         (''RootSb'', Val ''"S"''), (''NewSb'', Val ''"F"''), (''MntIds'', Val ''{1, 2, 3}''),
         (''Walkers'', Val ''{"W1", "W2"}''), (''WProg'', Def ''WProgDef''), (''WRoot'', Def ''WRootDef''),
         (''WScoped'', Def ''WScopedDef''), (''MaxRestarts'', Val ''3''), (''Mounts'', Val (show_int mounts)),
         (''CHANGE'', Val (quoted change)), (''Victim'', Val (show_int victim))] @ switches MW_FIXES off,
      cfg_invs = invs, cfg_props = []\<rparr>)\<close>

section \<open>Lines\<close>

lemma config_emits:
  "map_of LAYOUTS layout \<noteq> None \<Longrightarrow> invs \<noteq> [] \<Longrightarrow>
   config_lines n (layout, off, invs, expect, over) = Inr (cfg_lines (config_spec n (layout, off, invs, expect, over)))"
  by (auto simp: config_lines_def config_spec_def cfg_simps item_def dget_def Let_def tf_def)

lemma show_1_2: "show_int 1 = ''1''" "show_int 2 = ''2''"
  by code_simp+

lemma put_emits:
  "invs \<noteq> [] \<Longrightarrow> put_lines n (lazy, migrate, off, invs, props, expect) =
     Inr (cfg_lines (put_spec n (lazy, migrate, off, invs, props, expect)))"
  by (simp add: put_lines_def put_spec_def put_consts_def cfg_simps show_1_2) (simp add: tf_def)

lemma split_emits:
  "split_lines n (lazy, migrate, split, gets_first, weak, wmb, getb, migb, props, expect) =
     Inr (cfg_lines (split_spec n (lazy, migrate, split, gets_first, weak, wmb, getb, migb, props, expect)))"
proof -
  have "PUT_SAFETY \<noteq> []" by (simp add: PUT_SAFETY_def)
  then show ?thesis
    unfolding split_lines_def all_on split_spec_def put_consts_def by (simp add: cfg_simps)
qed

lemma lock_emits:
  "invs \<noteq> [] \<Longrightarrow> lock_lines n (off, invs, props, expect) = Inr (cfg_lines (lock_spec n (off, invs, props, expect)))"
  by (simp add: lock_lines_def lock_spec_def cfg_simps)

lemma ns_emits: "ns_lines n e = Inr (cfg_lines (ns_spec n e))"
  by (cases e) (simp add: ns_lines_def ns_spec_def cfg_simps NS_SAFETY_def)

lemma wr_emits: "wr_lines n e = Inr (cfg_lines (wr_spec n e))"
  by (cases e) (simp add: wr_lines_def wr_spec_def cfg_simps WR_SAFETY_def quoted_def)

lemma mw_emits:
  "invs \<noteq> [] \<Longrightarrow> mw_lines n (layout, change, victim, mounts, off, invs, expect) =
     Inr (cfg_lines (mw_spec n (layout, change, victim, mounts, off, invs, expect)))"
  by (simp add: mw_lines_def mw_spec_def cfg_simps quoted_def)

section \<open>Well-formed entries\<close>

lemma fix_names:
  "list_all ident FIXES" "list_all ident PUT_FIXES" "list_all ident LOCK_FIXES" "list_all ident NS_FIXES"
  "list_all ident WR_FIXES" "list_all ident MW_FIXES"
  "list_all ident SAFETY" "list_all ident PUT_SAFETY" "list_all ident NS_SAFETY" "list_all ident WR_SAFETY"
  by code_simp+

lemmas names_ok [simp] = fix_names [THEN switches_ok] fix_names(7-10)

definition config_ok :: "string \<times> config \<Rightarrow> bool" where
  "config_ok = (\<lambda>(n, (layout, off, invs, expect, over)).
     layout_of n = layout \<and> layout \<in> set (dkeys LAYOUTS) \<and> entry_ok FIXES off invs [] expect \<and> over_ok over)"

lemma config_wf:
  assumes "config_ok (n, e)"
  shows "wf_cfg (config_spec n e) \<and> quiet (config_spec n e)"
proof -
  obtain layout off invs expect over where e: "e = (layout, off, invs, expect, over)" by (cases e)
  from assms have ok: "entry_ok FIXES off invs [] expect" "over_ok over" "layout \<in> set (dkeys LAYOUTS)"
    by (simp_all add: e config_ok_def)
  from dkeys_lookup [OF ok(3)] obtain nmnt nns ops fds where
    l: "map_of LAYOUTS layout = Some (nmnt, nns, ops, fds)" by (metis prod_cases4)
  have v: "one_line (py_str (get_or over k v)) \<and> no_colon (py_str (get_or over k v))"
    if "v \<in> {PInt ops, PInt 0}" for k v
    by (rule over_value) (use ok that in auto)
  have "one_line layout" using ok(3) by (auto simp: LAYOUTS_def)
  with ok(1) v show ?thesis
    by (simp add: e config_spec_def l wf_cfg_def quiet_def entry_ok_def ident_eval)
qed

section \<open>The table of the propagation configurations\<close>

definition propagation :: "(string, config) dict" where
  "propagation = (case CONFIGS of Inr c \<Rightarrow> c | Inl _ \<Rightarrow> [])"

definition mutations :: "string list" where
  "mutations = [''no_trim'', ''no_handle_locked'', ''reparent_early'', ''find_master'', ''tuck_no_lock'', ''doc'']"

definition table_inv :: "(string, config) dict \<Rightarrow> bool" where
  "table_inv c \<longleftrightarrow> dict_wf c \<and> list_all config_ok c \<and> set (map ((@) ''algebra_'') mutations) \<subseteq> set (dkeys c)"

lemma table_inv_update: "table_inv c \<Longrightarrow> config_ok (k, v) \<Longrightarrow> table_inv (AList.update k v c)"
  by (auto simp: table_inv_def dict_wf_update list_all_update dkeys_update simp del: set_map)

lemma table_inv_dmerge: "table_inv c \<Longrightarrow> list_all config_ok over \<Longrightarrow> table_inv (dmerge c over)"
  by (auto simp: table_inv_def dmerge_wf list_all_dmerge dkeys_dmerge simp del: set_map)

lemma layouts_plain: "list_all (\<lambda>l. CHR ''_'' \<notin> set l) (dkeys LAYOUTS)"
  by (simp add: LAYOUTS_def)

lemma config_okI:
  "lay \<in> set (dkeys LAYOUTS) \<Longrightarrow> entry_ok FIXES off invs [] expect \<Longrightarrow> over_ok over \<Longrightarrow>
   config_ok (lay @ CHR ''_'' # s, (lay, off, invs, expect, over))"
  using layouts_plain by (auto simp: config_ok_def list_all_iff layout_of_append)

lemma literals_ok:
  "list_all config_ok CONFIGS_0" "list_all config_ok small_findings" "list_all config_ok scripted"
  "list_all config_ok overwritten"
  by code_simp+

lemma expectations_ok: "one_line ''pass''" "clear ''pass''" "one_line ''violation''" "clear ''violation''"
  by code_simp+

lemma entry_ok_witness: "ident w \<Longrightarrow> entry_ok FIXES [] [w] [] ''violation''"
  by (simp add: entry_ok_def expectations_ok)

lemma witnesses_inv:
  assumes "table_inv c" "lay \<in> set (dkeys LAYOUTS)" "list_all ident ws"
  shows "table_inv (layout_witnesses lay ws c)"
  unfolding layout_witnesses_def
proof (rule foldl_invariant [where I = table_inv, OF assms(1)])
  fix c w assume "table_inv c" "w \<in> set ws"
  moreover from this assms(3) have "entry_ok FIXES [] [w] [] ''violation''"
    by (simp add: list_all_iff entry_ok_witness)
  ultimately show "table_inv (AList.update (lay @ ''_witness_'' @ witness_name w) (lay, [], [w], ''violation'', []) c)"
    using config_okI [OF assms(2), of "[]" "[w]" "''violation''" "[]" "''witness_'' @ witness_name w"]
    by (simp add: table_inv_update over_ok_def)
qed

lemma small_witnesses_eq: "small_witnesses c = layout_witnesses ''small'' WITNESSES c"
  by (simp add: small_witnesses_def layout_witnesses_def)

lemma fail_inv: "table_inv c \<Longrightarrow> table_inv (fail_configs c)"
  unfolding fail_configs_def
proof (erule foldl_invariant)
  fix c lay assume c: "table_inv c" and lay: "lay \<in> set [''chain'', ''peers'', ''locked'']"
  have "lay \<in> set (dkeys LAYOUTS)" using lay by (auto simp: LAYOUTS_def)
  from config_okI [OF this, of "[]" "SAFETY @ [''UnwindOK'']" "''pass''" "[(''fails'', PInt 1)]" "''fail''"] c
  show "table_inv (AList.update (lay @ ''_fail'') (lay, [], SAFETY @ [''UnwindOK''], ''pass'', [(''fails'', PInt 1)]) c)"
    by (simp add: table_inv_update entry_ok_def expectations_ok ident_eval over_ok_def)
qed

lemma fixed_doc_inv: "table_inv c \<Longrightarrow> table_inv (fixed_doc c)"
  unfolding fixed_doc_def
proof (erule foldl_invariant)
  fix c lay assume c: "table_inv c" and lay: "lay \<in> set [''chain'', ''peers'', ''locked'']"
  have l: "lay \<in> set (dkeys LAYOUTS)" using lay by (auto simp: LAYOUTS_def)
  have "config_ok (lay @ ''_fixed'', (lay, [], SAFETY, ''pass'', []))"
    using config_okI [OF l, of "[]" SAFETY "''pass''" "[]" "''fixed''"]
    by (simp add: entry_ok_def expectations_ok over_ok_def SAFETY_def [THEN arg_cong [where f = "\<lambda>x. x = []"]])
  moreover have "config_ok (lay @ ''_doc'', (lay, [], [''AlgebraOK''], ''violation'', [(''doc'', PBool True)]))"
    using config_okI [OF l, of "[]" "[''AlgebraOK'']" "''violation''" "[(''doc'', PBool True)]" "''doc''"]
    by (simp add: entry_ok_witness ident_eval over_ok_def)
  ultimately show "table_inv (dmerge c [(lay @ ''_fixed'', (lay, [], SAFETY, ''pass'', [])),
      (lay @ ''_doc'', (lay, [], [''AlgebraOK''], ''violation'', [(''doc'', PBool True)]))])"
    using c by (simp add: table_inv_dmerge)
qed

lemma copies_inv:
  assumes "table_inv c" "set lays \<subseteq> set (dkeys LAYOUTS)" "set names \<subseteq> set mutations"
  shows "\<exists>c'. copies lays names c = Inr c' \<and> table_inv c'"
  unfolding copies_def
proof (rule foldE_total [where I = table_inv, OF assms(1)])
  fix c name assume c: "table_inv c" and name: "name \<in> set names"
  have "''algebra_'' @ name \<in> set (dkeys c)"
    using c name assms(3) by (auto simp: table_inv_def)
  from dkeys_lookup [OF this] obtain layout off invs expect over where
    e: "map_of c (''algebra_'' @ name) = Some (layout, off, invs, expect, over)" by (metis prod_cases5)
  from map_of_SomeD [OF e] c have ok: "entry_ok FIXES off invs [] expect" "over_ok over"
    by (auto simp: table_inv_def list_all_iff config_ok_def)
  have "table_inv (foldl (\<lambda>c lay. AList.update (lay @ ''_'' @ name) (lay, off, invs, expect, over) c) c lays)"
    by (rule foldl_invariant [where I = table_inv, OF c], rule table_inv_update)
       (use config_okI [OF _ ok, of _ name] assms(2) in \<open>simp_all add: subset_iff del: set_map\<close>)
  then show "\<exists>c'. bindE (item c (''algebra_'' @ name)) (\<lambda>(layout, off, invs, expect, over).
      Inr (foldl (\<lambda>c lay. AList.update (lay @ ''_'' @ name) (lay, off, invs, expect, over) c) c lays)) = Inr c'
      \<and> table_inv c'"
    using e by (simp add: item_def dget_def)
qed

lemma table_inv_0: "table_inv CONFIGS_0"
proof -
  have "dict_wf CONFIGS_0" by code_simp
  moreover have "set (map ((@) ''algebra_'') mutations) \<subseteq> set (dkeys CONFIGS_0)" by code_simp
  ultimately show ?thesis by (simp add: table_inv_def literals_ok)
qed

lemma witness_names:
  "list_all ident WITNESSES" "list_all ident [''NoSlaveOfSlave'', ''NoSkippedMaster'', ''NoTuck'']"
  "list_all ident [''NoLockedKept'', ''NoConnected'', ''NoCovers'', ''NoLockTransfer'']"
  by code_simp+

lemma propagation_inv: "CONFIGS = Inr propagation \<and> table_inv propagation"
proof -
  have lays: "set [''small''] \<subseteq> set (dkeys LAYOUTS)" "set [''chain'', ''locked''] \<subseteq> set (dkeys LAYOUTS)"
    by (simp_all add: LAYOUTS_def)
  have muts: "set [''no_trim'', ''no_handle_locked'', ''reparent_early'', ''find_master'', ''tuck_no_lock'', ''doc''] \<subseteq> set mutations"
    "set [''no_trim'', ''no_handle_locked'', ''reparent_early'', ''find_master'', ''tuck_no_lock''] \<subseteq> set mutations"
    by (simp_all add: mutations_def)
  have "table_inv (small_witnesses CONFIGS_0)"
    unfolding small_witnesses_eq by (rule witnesses_inv [OF table_inv_0 _ witness_names(1)]) (use lays in simp)
  from copies_inv [OF this lays(1) muts(1)] obtain c1 where
    c1: "copies [''small''] [''no_trim'', ''no_handle_locked'', ''reparent_early'', ''find_master'', ''tuck_no_lock'', ''doc'']
           (small_witnesses CONFIGS_0) = Inr c1" "table_inv c1" by blast
  let ?c = "layout_witnesses ''chain'' [''NoSlaveOfSlave'', ''NoSkippedMaster'', ''NoTuck'']
      (fixed_doc (dmerge (fail_configs (dmerge c1 small_findings)) scripted))"
  have "table_inv ?c"
    by (rule witnesses_inv [OF _ _ witness_names(2)])
       (use c1(2) lays in \<open>simp_all add: fixed_doc_inv table_inv_dmerge fail_inv literals_ok\<close>)
  from copies_inv [OF this lays(2) muts(2)] obtain c2 where
    c2: "copies [''chain'', ''locked''] [''no_trim'', ''no_handle_locked'', ''reparent_early'', ''find_master'', ''tuck_no_lock''] ?c = Inr c2"
      "table_inv c2" by blast
  let ?d = "dmerge (layout_witnesses ''locked'' [''NoLockedKept'', ''NoConnected'', ''NoCovers'', ''NoLockTransfer''] c2) overwritten"
  have "table_inv ?d"
    by (intro table_inv_dmerge witnesses_inv witness_names literals_ok c2(2)) (use lays in simp)
  moreover have eq: "CONFIGS = Inr ?d" unfolding CONFIGS_def by (simp only: c1(1) c2(1) bindE_simps)
  moreover have "propagation = ?d" unfolding propagation_def eq by (simp only: sum.case)
  ultimately show ?thesis by (simp only:)
qed

section \<open>The other tables\<close>

definition put_ok :: "string \<times> put_config \<Rightarrow> bool" where
  "put_ok = (\<lambda>(n, (lazy, migrate, off, invs, props, expect)).
     layout_of n = ''mntput'' \<and> invs \<noteq> [] \<and> entry_ok PUT_FIXES off invs props expect)"

definition split_ok :: "string \<times> split_config \<Rightarrow> bool" where
  "split_ok = (\<lambda>(n, (lazy, migrate, split, gets_first, weak, wmb, getb, migb, props, expect)).
     layout_of n = ''mntput'' \<and> entry_ok PUT_FIXES [] PUT_SAFETY props expect)"

definition lock_ok :: "string \<times> lock_config \<Rightarrow> bool" where
  "lock_ok = (\<lambda>(n, (off, invs, props, expect)).
     layout_of n = ''lockmount'' \<and> invs \<noteq> [] \<and> entry_ok LOCK_FIXES off invs props expect)"

definition ns_ok :: "string \<times> ns_config \<Rightarrow> bool" where
  "ns_ok = (\<lambda>(n, (off, expect)). layout_of n = ''mntns'' \<and> entry_ok NS_FIXES off NS_SAFETY [] expect)"

definition wr_ok :: "string \<times> wr_config \<Rightarrow> bool" where
  "wr_ok = (\<lambda>(n, (mode, off, expect)). layout_of n = ''mntwriters'' \<and> mode \<in> {''mnt'', ''sb''}
     \<and> entry_ok WR_FIXES off WR_SAFETY [] expect)"

definition mw_ok :: "string \<times> mw_config \<Rightarrow> bool" where
  "mw_ok = (\<lambda>(n, (layout, change, victim, mounts, off, invs, expect)).
     layout_of n = layout \<and> layout \<in> {''mountwalk'', ''mountwalk2''} \<and> change \<in> {''none'', ''umount'', ''move''}
     \<and> entry_ok MW_FIXES off invs [] expect)"

lemma tables_ok:
  "list_all put_ok PUT_CONFIGS" "list_all split_ok PUT_SPLIT_CONFIGS" "list_all lock_ok LOCK_CONFIGS"
  "list_all ns_ok NS_CONFIGS" "list_all wr_ok WR_CONFIGS" "list_all mw_ok MW_CONFIGS"
  by code_simp+

lemma tables_distinct:
  "distinct (dkeys PUT_CONFIGS @ dkeys PUT_SPLIT_CONFIGS)" "distinct (dkeys LOCK_CONFIGS)" "distinct (dkeys NS_CONFIGS)"
  "distinct (dkeys WR_CONFIGS)" "distinct (dkeys MW_CONFIGS)"
  by code_simp+

lemma put_wf: "put_ok (n, e) \<Longrightarrow> wf_cfg (put_spec n e) \<and> quiet (put_spec n e)"
  by (cases e) (simp add: put_ok_def put_spec_def put_consts_def wf_cfg_def quiet_def entry_ok_def ident_eval)

lemma split_wf: "split_ok (n, e) \<Longrightarrow> wf_cfg (split_spec n e) \<and> quiet (split_spec n e)"
  by (auto simp: split_ok_def split_spec_def put_consts_def wf_cfg_def quiet_def entry_ok_def ident_eval)

lemma lock_wf: "lock_ok (n, e) \<Longrightarrow> wf_cfg (lock_spec n e) \<and> quiet (lock_spec n e)"
  by (cases e) (simp add: lock_ok_def lock_spec_def wf_cfg_def quiet_def entry_ok_def ident_eval)

lemma ns_wf: "ns_ok (n, e) \<Longrightarrow> wf_cfg (ns_spec n e) \<and> quiet (ns_spec n e)"
  by (cases e) (simp add: ns_ok_def ns_spec_def wf_cfg_def quiet_def entry_ok_def)

lemma wr_wf: "wr_ok (n, e) \<Longrightarrow> wf_cfg (wr_spec n e) \<and> quiet (wr_spec n e)"
  by (cases e) (auto simp: wr_ok_def wr_spec_def wf_cfg_def quiet_def entry_ok_def ident_eval quoted_def)

lemma mw_wf: "mw_ok (n, e) \<Longrightarrow> wf_cfg (mw_spec n e) \<and> quiet (mw_spec n e)"
  by (cases e) (auto simp: mw_ok_def mw_spec_def wf_cfg_def quiet_def entry_ok_def ident_eval quoted_def)

section \<open>The tables meet the contract\<close>

definition config_expect :: "config \<Rightarrow> string" where
  "config_expect = (\<lambda>(layout, off, invs, expect, over). expect)"

definition put_expect :: "put_config \<Rightarrow> string" where
  "put_expect = (\<lambda>(lazy, migrate, off, invs, props, expect). expect)"

definition split_expect :: "split_config \<Rightarrow> string" where
  "split_expect = (\<lambda>(lazy, migrate, split, gets_first, weak, wmb, getb, migb, props, expect). expect)"

definition lock_expect :: "lock_config \<Rightarrow> string" where
  "lock_expect = (\<lambda>(off, invs, props, expect). expect)"

definition ns_expect :: "ns_config \<Rightarrow> string" where
  "ns_expect = (\<lambda>(off, expect). expect)"

definition wr_expect :: "wr_config \<Rightarrow> string" where
  "wr_expect = (\<lambda>(mode, off, expect). expect)"

definition mw_expect :: "mw_config \<Rightarrow> string" where
  "mw_expect = (\<lambda>(layout, change, victim, mounts, off, invs, expect). expect)"

lemma config_told:
  assumes "config_ok (n, e)"
  shows "clear (config_expect e)" "\<exists>what. cfg_comments (config_spec n e) = [banner what (config_expect e)]"
proof -
  obtain layout off invs expect over where e: "e = (layout, off, invs, expect, over)" by (cases e)
  from assms have ok: "clear expect" "layout \<in> set (dkeys LAYOUTS)"
    by (simp_all add: e config_ok_def entry_ok_def)
  then show "clear (config_expect e)" by (simp add: e config_expect_def)
  from dkeys_lookup [OF ok(2)] obtain l where "map_of LAYOUTS layout = Some l" by blast
  then show "\<exists>what. cfg_comments (config_spec n e) = [banner what (config_expect e)]"
    by (auto simp: e config_spec_def config_expect_def split: prod.split)
qed

interpretation pgc: cfg_runs config_lines config_spec propagation config_expect
proof
  show "dict_wf propagation" using propagation_inv by (simp add: table_inv_def)
  fix n e assume "(n, e) \<in> set propagation"
  then have ok: "config_ok (n, e)" using propagation_inv by (auto simp: table_inv_def list_all_iff)
  then show "wf_cfg (config_spec n e)" by (simp add: config_wf)
  show "config_lines n e = Inr (cfg_lines (config_spec n e))"
    using ok dkeys_lookup [of "fst e" LAYOUTS]
    by (cases e) (auto simp: config_ok_def entry_ok_def intro!: config_emits simp del: set_map)
  show "clear (config_expect e) \<and> quiet (config_spec n e) \<and>
      (\<exists>what rest. cfg_comments (config_spec n e) = banner what (config_expect e) # rest)"
    using config_told [OF ok] config_wf [OF ok] by blast
qed

interpretation putc: cfg_runs put_lines put_spec PUT_CONFIGS put_expect
proof
  show "dict_wf PUT_CONFIGS" using tables_distinct(1) by simp
  fix n e assume "(n, e) \<in> set PUT_CONFIGS"
  from in_table [OF tables_ok(1) this] have ok: "put_ok (n, e)" .
  then show "wf_cfg (put_spec n e)" by (simp add: put_wf)
  from ok show "put_lines n e = Inr (cfg_lines (put_spec n e))" by (cases e) (simp add: put_ok_def put_emits)
  from put_wf [OF ok] ok show "clear (put_expect e) \<and> quiet (put_spec n e) \<and>
      (\<exists>what rest. cfg_comments (put_spec n e) = banner what (put_expect e) # rest)"
    by (cases e) (auto simp: put_ok_def entry_ok_def put_expect_def put_spec_def)
qed

interpretation splitc: cfg_runs split_lines split_spec PUT_SPLIT_CONFIGS split_expect
proof
  show "dict_wf PUT_SPLIT_CONFIGS" using tables_distinct(1) by simp
  fix n e assume "(n, e) \<in> set PUT_SPLIT_CONFIGS"
  from in_table [OF tables_ok(2) this] have ok: "split_ok (n, e)" .
  then show "wf_cfg (split_spec n e)" by (simp add: split_wf)
  show "split_lines n e = Inr (cfg_lines (split_spec n e))"
    by (cases e rule: prod_cases7) (metis split_emits surj_pair)
  from split_wf [OF ok] ok show "clear (split_expect e) \<and> quiet (split_spec n e) \<and>
      (\<exists>what rest. cfg_comments (split_spec n e) = banner what (split_expect e) # rest)"
    by (auto simp: split_ok_def entry_ok_def split_expect_def split_spec_def)
qed

interpretation lockc: cfg_runs lock_lines lock_spec LOCK_CONFIGS lock_expect
proof
  show "dict_wf LOCK_CONFIGS" by (rule tables_distinct)
  fix n e assume "(n, e) \<in> set LOCK_CONFIGS"
  from in_table [OF tables_ok(3) this] have ok: "lock_ok (n, e)" .
  then show "wf_cfg (lock_spec n e)" by (simp add: lock_wf)
  from ok show "lock_lines n e = Inr (cfg_lines (lock_spec n e))" by (cases e) (simp add: lock_ok_def lock_emits)
  from lock_wf [OF ok] ok show "clear (lock_expect e) \<and> quiet (lock_spec n e) \<and>
      (\<exists>what rest. cfg_comments (lock_spec n e) = banner what (lock_expect e) # rest)"
    by (cases e) (auto simp: lock_ok_def entry_ok_def lock_expect_def lock_spec_def)
qed

interpretation nsc: cfg_runs ns_lines ns_spec NS_CONFIGS ns_expect
proof
  show "dict_wf NS_CONFIGS" by (rule tables_distinct)
  fix n e assume "(n, e) \<in> set NS_CONFIGS"
  from in_table [OF tables_ok(4) this] have ok: "ns_ok (n, e)" .
  then show "wf_cfg (ns_spec n e)" by (simp add: ns_wf)
  from ok show "ns_lines n e = Inr (cfg_lines (ns_spec n e))" by (simp add: ns_emits)
  from ns_wf [OF ok] ok show "clear (ns_expect e) \<and> quiet (ns_spec n e) \<and>
      (\<exists>what rest. cfg_comments (ns_spec n e) = banner what (ns_expect e) # rest)"
    by (cases e) (auto simp: ns_ok_def entry_ok_def ns_expect_def ns_spec_def)
qed

interpretation wrc: cfg_runs wr_lines wr_spec WR_CONFIGS wr_expect
proof
  show "dict_wf WR_CONFIGS" by (rule tables_distinct)
  fix n e assume "(n, e) \<in> set WR_CONFIGS"
  from in_table [OF tables_ok(5) this] have ok: "wr_ok (n, e)" .
  then show "wf_cfg (wr_spec n e)" by (simp add: wr_wf)
  from ok show "wr_lines n e = Inr (cfg_lines (wr_spec n e))" by (simp add: wr_emits)
  from wr_wf [OF ok] ok show "clear (wr_expect e) \<and> quiet (wr_spec n e) \<and>
      (\<exists>what rest. cfg_comments (wr_spec n e) = banner what (wr_expect e) # rest)"
    by (cases e) (auto simp: wr_ok_def entry_ok_def wr_expect_def wr_spec_def)
qed

interpretation mwc: cfg_runs mw_lines mw_spec MW_CONFIGS mw_expect
proof
  show "dict_wf MW_CONFIGS" by (rule tables_distinct)
  fix n e assume "(n, e) \<in> set MW_CONFIGS"
  from in_table [OF tables_ok(6) this] have ok: "mw_ok (n, e)" .
  then show "wf_cfg (mw_spec n e)" by (simp add: mw_wf)
  from ok show "mw_lines n e = Inr (cfg_lines (mw_spec n e))" by (cases e) (simp add: mw_ok_def entry_ok_def mw_emits)
  from mw_wf [OF ok] ok show "clear (mw_expect e) \<and> quiet (mw_spec n e) \<and>
      (\<exists>what rest. cfg_comments (mw_spec n e) = banner what (mw_expect e) # rest)"
    by (cases e) (auto simp: mw_ok_def entry_ok_def mw_expect_def mw_spec_def)
qed

section \<open>The whole script\<close>

definition mount_specs :: "(string \<times> tlc_cfg) list" where
  "mount_specs = specs config_spec propagation @ specs put_spec PUT_CONFIGS @ specs split_spec PUT_SPLIT_CONFIGS
     @ specs lock_spec LOCK_CONFIGS @ specs ns_spec NS_CONFIGS @ specs wr_spec WR_CONFIGS @ specs mw_spec MW_CONFIGS"

definition mount_expects :: "(string \<times> string) list" where
  "mount_expects = map (apsnd config_expect) propagation @ map (apsnd put_expect) PUT_CONFIGS
     @ map (apsnd split_expect) PUT_SPLIT_CONFIGS @ map (apsnd lock_expect) LOCK_CONFIGS
     @ map (apsnd ns_expect) NS_CONFIGS @ map (apsnd wr_expect) WR_CONFIGS @ map (apsnd mw_expect) MW_CONFIGS"

lemma mount_gen_eq:
  "gen d = Inr (put_all mount_specs d, show_nat (length mount_specs - 10) @ '' configurations written'')"
proof -
  have n: "length PUT_SPLIT_CONFIGS = 10" by (simp add: PUT_SPLIT_CONFIGS_def)
  have eq: "CONFIGS = Inr propagation" using propagation_inv by simp
  show ?thesis
    unfolding gen_def eq bindE_simps pgc.write_all_eq putc.write_all_eq splitc.write_all_eq lockc.write_all_eq
      nsc.write_all_eq wrc.write_all_eq mwc.write_all_eq
    by (simp add: mount_specs_def put_all_append) (simp add: specs_def n)
qed

lemma names_layouts:
  "\<forall>n\<in>set (dkeys propagation). layout_of n \<in> set (dkeys LAYOUTS)"
  "\<forall>n\<in>set (dkeys PUT_CONFIGS). layout_of n \<in> set [''mntput'']"
  "\<forall>n\<in>set (dkeys PUT_SPLIT_CONFIGS). layout_of n \<in> set [''mntput'']"
  "\<forall>n\<in>set (dkeys LOCK_CONFIGS). layout_of n \<in> set [''lockmount'']"
  "\<forall>n\<in>set (dkeys NS_CONFIGS). layout_of n \<in> set [''mntns'']"
  "\<forall>n\<in>set (dkeys WR_CONFIGS). layout_of n \<in> set [''mntwriters'']"
  "\<forall>n\<in>set (dkeys MW_CONFIGS). layout_of n \<in> set [''mountwalk'', ''mountwalk2'']"
proof -
  have p: "list_all config_ok propagation" using propagation_inv by (simp add: table_inv_def)
  show "\<forall>n\<in>set (dkeys propagation). layout_of n \<in> set (dkeys LAYOUTS)"
    by (rule table_names [OF p]) (auto simp: config_ok_def)
qed (rule table_names [OF tables_ok(1)] table_names [OF tables_ok(2)] table_names [OF tables_ok(3)]
       table_names [OF tables_ok(4)] table_names [OF tables_ok(5)] table_names [OF tables_ok(6)],
     fastforce simp: put_ok_def split_ok_def lock_ok_def ns_ok_def wr_ok_def mw_ok_def)+

lemma mount_names_distinct: "distinct (map fst mount_specs)"
proof -
  let ?ts = "[dkeys LAYOUTS, [''mntput''], [''lockmount''], [''mntns''], [''mntwriters''], [''mountwalk'', ''mountwalk2'']]"
  let ?xss = "[dkeys propagation, dkeys PUT_CONFIGS @ dkeys PUT_SPLIT_CONFIGS, dkeys LOCK_CONFIGS, dkeys NS_CONFIGS,
      dkeys WR_CONFIGS, dkeys MW_CONFIGS]"
  have p: "dict_wf propagation" using propagation_inv by (simp add: table_inv_def)
  have "tagged layout_of ?ts ?xss"
    unfolding tagged.simps set_append ball_Un by (intro conjI p tables_distinct names_layouts TrueI)
  moreover have "distinct (concat ?ts)" by code_simp
  ultimately have "distinct (concat ?xss)" by (rule tagged_distinct)
  then show ?thesis by (simp add: mount_specs_def)
qed

lemma mount_specs_fit: "list_all (\<lambda>(n, c). wf_cfg c) mount_specs"
  by (simp only: mount_specs_def list_all_append pgc.specs_fit putc.specs_fit splitc.specs_fit lockc.specs_fit
      nsc.specs_fit wrc.specs_fit mwc.specs_fit)

lemma assigns_by:
  "map fst (cfg_consts c) = ks' \<Longrightarrow> distinct ks' \<Longrightarrow> set ks' = set ks \<Longrightarrow> assigns c ks"
  by (simp add: assigns_def)

text \<open>The constants assigned do not depend on the entry.\<close>

definition config_names :: "string list" where
  "config_names = [''MntIds'', ''NsIds'', ''Sbs'', ''Dentries'', ''DSb'', ''DParent'', ''SbRoot'', ''Procs'', ''ProcUser'',
     ''InitSb'', ''RootSb'', ''MountSbs'', ''MaxOps'', ''MaxFds'', ''Prelude''] @ FIXES @ [''CHECK_DOC'', ''FAILS'']"

definition put_names :: "string list" where
  "put_names = [''TaskList'', ''Walkers'', ''Holders'', ''NCPU'', ''GetBudget'', ''MIGRATE'', ''MigBudget'', ''LAZY'']
     @ PUT_FIXES @ [''FIX_SPLIT_COUNT'', ''SPLIT_GETS_FIRST'', ''WEAK_STORES'', ''FIX_PUT_WMB'']"

definition lock_names :: "string list" where
  "lock_names = [''Dentries'', ''DParent'', ''NewRoot'', ''MntIds'', ''Roots'', ''Mounters'', ''MInfo'', ''RmdirTarget'',
     ''InvalTarget'', ''UmountTarget'', ''MaxLoops''] @ LOCK_FIXES"

definition wr_names :: "string list" where
  "wr_names = [''Writers'', ''WCpu'', ''NCPU'', ''HMODE''] @ WR_FIXES"

definition mw_names :: "string list" where
  "mw_names = [''Dentries'', ''DParent'', ''DName'', ''DSb'', ''SbRoot'', ''Negative'', ''RootSb'', ''NewSb'', ''MntIds'',
     ''Walkers'', ''WProg'', ''WRoot'', ''WScoped'', ''MaxRestarts'', ''Mounts'', ''CHANGE'', ''Victim''] @ MW_FIXES"

lemma declared:
  "distinct config_names \<and> set config_names = set (TREE_CONSTANTS @ PROPAGATION_CONSTANTS @ OPS_CONSTANTS)"
  "distinct put_names \<and> set put_names = set PUT_CONSTANTS"
  "distinct lock_names \<and> set lock_names = set LOCK_CONSTANTS"
  "distinct NS_FIXES \<and> set NS_FIXES = set NS_CONSTANTS"
  "distinct wr_names \<and> set wr_names = set WR_CONSTANTS"
  "distinct mw_names \<and> set mw_names = set MW_CONSTANTS"
  by code_simp+

lemma modules_found:
  "list_all (\<lambda>l. mount_modules (''MC_'' @ l) = Some (TREE_CONSTANTS @ PROPAGATION_CONSTANTS @ OPS_CONSTANTS)) (dkeys LAYOUTS)"
  "mount_modules ''MC_mntput'' = Some PUT_CONSTANTS" "mount_modules ''MC_lockmount'' = Some LOCK_CONSTANTS"
  "mount_modules ''MC_mntns'' = Some NS_CONSTANTS" "mount_modules ''MC_mntwriters'' = Some WR_CONSTANTS"
  "mount_modules ''MC_mountwalk'' = Some MW_CONSTANTS" "mount_modules ''MC_mountwalk2'' = Some MW_CONSTANTS"
  by code_simp+

definition runnable :: "string \<times> tlc_cfg \<Rightarrow> bool" where
  "runnable = (\<lambda>(n, c). \<exists>ks. mount_modules (check_module n) = Some ks \<and> assigns c ks)"

lemma runnableI:
  "mount_modules (''MC_'' @ layout_of n) = Some ks \<Longrightarrow> map fst (cfg_consts c) = ks' \<Longrightarrow> distinct ks' \<and> set ks' = set ks \<Longrightarrow>
   runnable (n, c)"
  unfolding runnable_def check_module_def assigns_def prod.case by (rule exI [of _ ks]) (simp only: simp_thms)

lemma config_runnable:
  assumes "config_ok (n, e)"
  shows "runnable (n, config_spec n e)"
proof -
  obtain layout off invs expect over where e: "e = (layout, off, invs, expect, over)" by (cases e)
  from assms have l: "layout \<in> set (dkeys LAYOUTS)" "layout_of n = layout" by (simp_all add: e config_ok_def)
  from dkeys_lookup [OF l(1)] obtain v where v: "map_of LAYOUTS layout = Some v" by blast
  have "mount_modules (''MC_'' @ layout_of n) = Some (TREE_CONSTANTS @ PROPAGATION_CONSTANTS @ OPS_CONSTANTS)"
    using bspec [OF modules_found(1) [unfolded list_all_iff] l(1)] by (simp only: l(2))
  moreover have "map fst (cfg_consts (config_spec n e)) = config_names"
    by (cases v) (simp add: e config_spec_def v config_names_def)
  ultimately show ?thesis using declared(1) by (rule runnableI)
qed

lemma put_runnable: "put_ok (n, e) \<Longrightarrow> runnable (n, put_spec n e)"
  by (rule runnableI [OF _ _ declared(2)], use modules_found(2) in \<open>simp add: put_ok_def split: prod.splits\<close>,
      simp add: put_spec_def put_consts_def put_names_def split: prod.splits)

lemma split_runnable: "split_ok (n, e) \<Longrightarrow> runnable (n, split_spec n e)"
  by (rule runnableI [OF _ _ declared(2)], use modules_found(2) in \<open>simp add: split_ok_def split: prod.splits\<close>,
      simp add: split_spec_def put_consts_def put_names_def split: prod.splits)

lemma lock_runnable: "lock_ok (n, e) \<Longrightarrow> runnable (n, lock_spec n e)"
  by (rule runnableI [OF _ _ declared(3)], use modules_found(3) in \<open>simp add: lock_ok_def split: prod.splits\<close>,
      simp add: lock_spec_def lock_names_def split: prod.splits)

lemma ns_runnable: "ns_ok (n, e) \<Longrightarrow> runnable (n, ns_spec n e)"
  by (rule runnableI [OF _ _ declared(4)], use modules_found(4) in \<open>simp add: ns_ok_def split: prod.splits\<close>,
      simp add: ns_spec_def split: prod.splits)

lemma wr_runnable: "wr_ok (n, e) \<Longrightarrow> runnable (n, wr_spec n e)"
  by (rule runnableI [OF _ _ declared(5)], use modules_found(5) in \<open>simp add: wr_ok_def split: prod.splits\<close>,
      simp add: wr_spec_def wr_names_def split: prod.splits)

lemma mw_runnable:
  assumes "mw_ok (n, e)"
  shows "runnable (n, mw_spec n e)"
proof (rule runnableI [OF _ _ declared(6)])
  show "mount_modules (''MC_'' @ layout_of n) = Some MW_CONSTANTS"
    using assms modules_found(6,7) by (auto simp: mw_ok_def)
  show "map fst (cfg_consts (mw_spec n e)) = mw_names"
    by (simp add: mw_spec_def mw_names_def split: prod.splits)
qed

lemma specs_runnable:
  "list_all ok tbl \<Longrightarrow> (\<And>n e. ok (n, e) \<Longrightarrow> runnable (n, sp n e)) \<Longrightarrow> list_all runnable (specs sp tbl)"
  by (auto simp: specs_def list_all_iff)

lemma mount_specs_runnable: "list_all runnable mount_specs"
proof -
  have "list_all config_ok propagation" using propagation_inv by (simp add: table_inv_def)
  then show ?thesis
    unfolding mount_specs_def list_all_append
    by (intro conjI specs_runnable [OF _ config_runnable] specs_runnable [OF tables_ok(1) put_runnable]
        specs_runnable [OF tables_ok(2) split_runnable] specs_runnable [OF tables_ok(3) lock_runnable]
        specs_runnable [OF tables_ok(4) ns_runnable] specs_runnable [OF tables_ok(5) wr_runnable]
        specs_runnable [OF tables_ok(6) mw_runnable])
qed

lemma spec_entry: "(n, e) \<in> set tbl \<Longrightarrow> (n, sp n e) \<in> set (specs sp tbl)"
  by (force simp: specs_def)

lemma mount_expect_entry:
  assumes "(n, ex) \<in> set mount_expects"
  shows "\<exists>c. (n, c) \<in> set mount_specs \<and> sed_expected (file_text (cfg_lines c)) = [ex]"
proof -
  have one: "length (cfg_comments (config_spec n e)) = 1" if "(n, e) \<in> set propagation" for n e
    using config_told(2) [of n e] propagation_inv that by (auto simp: table_inv_def list_all_iff)
  have other: "length (cfg_comments (put_spec n e1)) = 1" "length (cfg_comments (split_spec n e2)) = 1"
    "length (cfg_comments (lock_spec n e3)) = 1" "length (cfg_comments (ns_spec n e4)) = 1"
    "length (cfg_comments (wr_spec n e5)) = 1" "length (cfg_comments (mw_spec n e6)) = 1" for n e1 e2 e3 e4 e5 e6
    by (simp_all add: put_spec_def split_spec_def lock_spec_def ns_spec_def wr_spec_def mw_spec_def split: prod.splits)
  note only = pgc.expectation_only [OF _ one] putc.expectation_only [OF _ other(1)]
    splitc.expectation_only [OF _ other(2)] lockc.expectation_only [OF _ other(3)]
    nsc.expectation_only [OF _ other(4)] wrc.expectation_only [OF _ other(5)] mwc.expectation_only [OF _ other(6)]
  from assms show ?thesis
    unfolding mount_expects_def mount_specs_def set_append
    by (elim UnE; clarsimp; blast intro: only spec_entry)
qed

section \<open>Properties\<close>

lemma mount_cfgs_written: "cfgs_written mount_specs d (put_all mount_specs d)"
  by (rule put_all_written [OF mount_names_distinct mount_specs_fit])

text \<open>A configuration that was written can be run: what TLC reads, and the constants of its module\<close>

lemma mount_cfg_run:
  assumes "(n, c) \<in> set mount_specs"
  shows "load (put_all mount_specs d) n = Some c \<and> (\<exists>ks. mount_modules (check_module n) = Some ks \<and> assigns c ks)"
proof -
  have "load (put_all mount_specs d) n = Some c"
    using mount_cfgs_written [of d] map_of_is_SomeI [OF mount_names_distinct assms] by (simp add: cfgs_written_def)
  moreover have "runnable (n, c)" using mount_specs_runnable assms by (simp add: list_all_iff)
  ultimately show ?thesis by (simp add: runnable_def)
qed

lemma mount_cfg_expectation:
  assumes "(n, ex) \<in> set mount_expects"
  shows "\<exists>t. map_of (put_all mount_specs d) (cfg_file n) = Some t \<and> sed_expected t = [ex]"
proof -
  from mount_expect_entry [OF assms] obtain c where
    c: "(n, c) \<in> set mount_specs" "sed_expected (file_text (cfg_lines c)) = [ex]" by blast
  from put_all_file [OF mount_names_distinct c(1)] c(2) show ?thesis by simp
qed

text \<open>
  C15: The script never fails, in whatever directory it runs: it leaves a directory in which every
  entry of its tables reads back as the configuration the entry stands for (its constants, every
  fix TRUE but the ones it switches off, its invariants and properties) and every other file is
  unchanged. Every configuration can be run: the module that check.sh derives from its name is one of the
  layout modules, and it assigns exactly the constants that module declares, each of them once. And
  what sed prints of its file for the scripts that run TLC is the expectation of its entry, and
  nothing else.\<close>

theorem mount_generated:
  "\<exists>d' out. gen d = Inr (d', out) \<and> cfgs_written mount_specs d d' \<and>
    list_all (\<lambda>(n, c). load d' n = Some c \<and> (\<exists>ks. mount_modules (check_module n) = Some ks \<and> assigns c ks)) mount_specs \<and>
    list_all (\<lambda>(n, ex). \<exists>t. map_of d' (cfg_file n) = Some t \<and> sed_expected t = [ex]) mount_expects"
  using mount_cfgs_written [of d] mount_cfg_run [of _ _ d] mount_cfg_expectation [of _ _ d]
  by (auto simp: mount_gen_eq list_all_iff)

text \<open>
  The number the script prints is ten less than the number of files it writes: the
  configurations of PUT_SPLIT_CONFIGS are written and not counted.\<close>

theorem mount_count_short:
  "\<exists>d'. gen [] = Inr (d', show_nat (length d' - 10) @ '' configurations written'') \<and> 10 < length d' \<and> dict_wf d'"
proof -
  have keys: "dkeys (put_all mount_specs []) = map (\<lambda>(n, c). cfg_file n) mount_specs"
    using put_all_new [OF mount_names_distinct, of "[]"] by simp
  then have "length (put_all mount_specs []) = length mount_specs" by (metis length_map)
  moreover have "length mount_specs \<ge> length PUT_SPLIT_CONFIGS + length LOCK_CONFIGS"
    by (simp add: mount_specs_def specs_def)
  then have "10 < length mount_specs" by (simp add: PUT_SPLIT_CONFIGS_def LOCK_CONFIGS_def)
  moreover have "dict_wf (put_all mount_specs [])" by (rule put_all_wf) simp
  ultimately show ?thesis using mount_gen_eq [of "[]"] by auto
qed

end
