(* ===== verification/Cfg_Defaults.thy ===== *)
theory Cfg_Defaults
  imports Tlc_Cfg
begin

text \<open>
  What the generators under \<^verbatim>\<open>systemd/\<close> share: an entry overrides the defaults
  (\<^verbatim>\<open>c = dict(DEFAULTS, **over)\<close>), the constants are looked up in the merged dictionary and formatted,
  and stale configurations are removed first. The constants written do not depend on the entry, so an
  override under a name that is not a default would be dropped silently, and a name given twice in the
  keyword arguments of \<^verbatim>\<open>dict()\<close> is a \<^verbatim>\<open>TypeError\<close>: \<open>over_known\<close> excludes both.
\<close>

type_synonym pydict = "(string, pyval) dict"

text \<open>overrides, invariants, properties, expectation, description\<close>

type_synonym over_config = "pydict \<times> string list \<times> string list \<times> string \<times> string"

text \<open>\<^verbatim>\<open>for k in ks: lines.append(f"  {k} = {fmt(c[k])}")\<close>\<close>

definition value_lines :: "(pyval \<Rightarrow> string result) \<Rightarrow> pydict \<Rightarrow> string list \<Rightarrow> string list result" where
  "value_lines f c ks = mapE (\<lambda>k. bindE (item c k) (\<lambda>v. bindE (f v) (\<lambda>s. Inr (asg k s)))) ks"

definition vals :: "(pyval \<Rightarrow> string) \<Rightarrow> pydict \<Rightarrow> string list \<Rightarrow> (string \<times> cval) list" where
  "vals f c ks = map (\<lambda>k. (k, Val (f (get_or c k (PBool False))))) ks"

text \<open>A value that fits on a line of the configuration\<close>

fun plain_val :: "pyval \<Rightarrow> bool" where
  "plain_val (PStr s) = (one_line s \<and> no_colon s)"
| "plain_val (PList vs) = False"
| "plain_val _ = True"

definition over_known :: "pydict \<Rightarrow> pydict \<Rightarrow> bool" where
  "over_known defaults over = (distinct (dkeys over)
     \<and> list_all (\<lambda>(k, v). List.member (dkeys defaults) k \<and> plain_val v) over)"

lemma plain_val_text: "plain_val v \<Longrightarrow> one_line (py_str v) \<and> no_colon (py_str v)"
  by (cases v) auto

lemma map_fst_vals [simp]: "map fst (vals f c ks) = ks"
  by (simp add: vals_def comp_def)

lemma merged_value:
  assumes "list_all P d" "list_all P over" "k \<in> set (dkeys d)"
  shows "\<exists>v. map_of (dmerge d over) k = Some v \<and> P (k, v)"
proof -
  have "k \<in> set (dkeys (dmerge d over))" using assms(3) dkeys_dmerge [of d over] by blast
  from dkeys_lookup [OF this] obtain v where v: "map_of (dmerge d over) k = Some v" by blast
  moreover have "list_all P (dmerge d over)" using assms(1,2) by (rule list_all_dmerge)
  ultimately show ?thesis using map_of_SomeD [OF v] by (auto simp: list_all_iff)
qed

lemma over_known_plain: "over_known d over \<Longrightarrow> list_all (\<lambda>(k, v). plain_val v) over"
  by (auto simp: over_known_def list_all_iff)

lemma merged_plain:
  assumes "list_all (\<lambda>(k, v). plain_val v) d" "over_known d over" "k \<in> set (dkeys d)"
  shows "\<exists>v. map_of (dmerge d over) k = Some v \<and> plain_val v"
  using merged_value [OF assms(1) over_known_plain [OF assms(2)] assms(3)] by simp

lemma merged_item:
  assumes "map_of c k = Some v"
  shows "item c k = Inr v" "get_or c k w = v"
  using assms by (simp_all add: item_def get_or_def)

lemma value_lines_eq:
  assumes "\<And>k. k \<in> set ks \<Longrightarrow> \<exists>v. map_of c k = Some v \<and> f v = Inr (g v)"
  shows "value_lines f c ks = Inr (map const_line (vals g c ks))"
  using assms
proof (induction ks)
  case (Cons k ks)
  from Cons.prems [of k] obtain v where "map_of c k = Some v" "f v = Inr (g v)" by auto
  with Cons show ?case by (simp add: value_lines_def vals_def item_def get_or_def)
qed (simp add: value_lines_def vals_def)

lemma vals_ok:
  assumes "list_all ident ks" "\<And>k. k \<in> set ks \<Longrightarrow> one_line (f (get_or c k (PBool False)))"
  shows "list_all const_ok (vals f c ks)"
  using assms by (simp add: vals_def list_all_iff)

lemma vals_quiet:
  assumes "\<And>k. k \<in> set ks \<Longrightarrow> no_colon (f (get_or c k (PBool False)))"
  shows "list_all (\<lambda>(k, v). no_colon (cval_text v)) (vals f c ks)"
  using assms by (simp add: vals_def list_all_iff)

text \<open>An entry whose texts fit into the format\<close>

definition texts_ok :: "string list \<Rightarrow> string list \<Rightarrow> string \<Rightarrow> string \<Rightarrow> bool" where
  "texts_ok js ps ex desc = ((js \<noteq> [] \<or> ps \<noteq> []) \<and> list_all ident js \<and> list_all ident ps \<and> one_line ex \<and> clear ex \<and> one_line desc)"

end
