(* ===== verification/Cfg_Verity.thy ===== *)
theory Cfg_Verity
  imports Cfg_Defaults
begin

text \<open>
  \<^verbatim>\<open>systemd/mountfsd/tla/gen-cfgs.py\<close>: the configurations of the verity sharing model.
\<close>

section \<open>The script\<close>

definition SAFETY :: "string list" where
  \<open>SAFETY =
     [''TypeOK'', ''OpenCountExact'', ''MountedIsActive'', ''NoOpenWhileDeleting'']\<close>

definition LIVENESS :: "string list" where
  \<open>LIVENESS =
     [''EveryWorkerFinishes'', ''NoOrphanDevice'']\<close>

definition DEFAULTS :: "pydict" where
  \<open>DEFAULTS =
     ([(''Workers'', PStr ''{"w1", "w2"}''), (''Attempts'', PInt 2), (''WorkerMayDie'', PBool False),
     (''UDEV_SYNC'', PBool True), (''FIX_CANCEL_DEFERRED'', PBool True), (''FIX_RESTORE_DEFERRED'', PBool
     True)])\<close>

definition CONFIGS :: "(string, over_config) dict" where
  \<open>CONFIGS = [
     (''verity_fixed'', ([], SAFETY, LIVENESS, ''pass'',
     ''two workers, two attempts each: every property'')),
     (''verity_3workers'', (([(''Workers'', PStr ''{"w1", "w2", "w3"}'')]), SAFETY, LIVENESS, ''pass'',
     ''three workers, two attempts each: every property'')),
     (''verity_no_cancel'', (([(''FIX_CANCEL_DEFERRED'', PBool False)]), SAFETY, LIVENESS, ''pass'',
     ''no dm_deferred_remove_cancel() before reusing: the retries absorb the removals'')),
     (''verity_no_udev_sync'', (([(''UDEV_SYNC'', PBool False)]), SAFETY, [''NoOrphanDevice''],
     ''violation'',
     ''activation returns before udev created the symlink: NoOrphanDevice (a worker that activated the device, could not open it and ran out of attempts leaves it without deferred removal, restore_deferred_remove is only set on the reuse path)'')),
     (''verity_no_restore'', (([(''FIX_RESTORE_DEFERRED'', PBool False)]), SAFETY, [''NoOrphanDevice''],
     ''violation'',
     ''no re-arming of deferred removal when an attempt fails: NoOrphanDevice (a device whose removal a failed attempt cancelled stays behind)'')),
     (''verity_worker_dies'', (([(''WorkerMayDie'', PBool True)]), SAFETY, [''NoOrphanDevice''],
     ''violation'',
     ''a worker killed between dm_deferred_remove_cancel() and its cleanup: NoOrphanDevice''))]\<close>

definition fmt :: "pyval \<Rightarrow> string result" where
  "fmt v = (case v of PBool b \<Rightarrow> Inr (if b then ''TRUE'' else ''FALSE'') | _ \<Rightarrow> Inr (py_str v))"

definition KEYS :: "string list" where
  "KEYS = [''Attempts'', ''WorkerMayDie'', ''UDEV_SYNC'', ''FIX_CANCEL_DEFERRED'', ''FIX_RESTORE_DEFERRED'']"

definition config_lines :: "string \<Rightarrow> over_config \<Rightarrow> string list result" where
  "config_lines name = (\<lambda>(over, invs, props, expect, desc). let c = dmerge DEFAULTS over in
     bindE (item c ''Workers'') (\<lambda>workers.
     bindE (value_lines fmt c KEYS) (\<lambda>values.
     Inr ([remark (''generated by gen-cfgs.py, expected: '' @ expect), remark desc,
           ''SPECIFICATION Spec'', ''CONSTANTS'', ''  Workers = '' @ py_str workers]
          @ values
          @ (if invs \<noteq> [] then ''INVARIANTS'' # map indent invs else [])
          @ (if props \<noteq> [] then ''PROPERTIES'' # map indent props else [])))))"

text \<open>The directory afterwards and the lines printed\<close>

definition gen :: "dir \<Rightarrow> (dir \<times> string list) result" where
  "gen d = bindE (write_all config_lines CONFIGS (unlink_stale (dkeys CONFIGS) d)) (\<lambda>d.
     Inr (d, map (\<lambda>(name, (over, invs, props, expect, desc)). name @ '' '' @ expect) CONFIGS))"

text \<open>The constants of \<^verbatim>\<open>VeritySharing.tla\<close>\<close>

definition VERITY_CONSTANTS :: "string list" where
  "VERITY_CONSTANTS =
     [''Workers'', ''Attempts'', ''WorkerMayDie'', ''UDEV_SYNC'', ''FIX_CANCEL_DEFERRED'',
     ''FIX_RESTORE_DEFERRED'']"

section \<open>What it writes\<close>

definition fmt_text :: "pyval \<Rightarrow> string" where
  "fmt_text v = (case v of PBool b \<Rightarrow> tf b | _ \<Rightarrow> py_str v)"

definition verity_spec :: "string \<Rightarrow> over_config \<Rightarrow> tlc_cfg" where
  "verity_spec name = (\<lambda>(over, invs, props, expect, desc). let c = dmerge DEFAULTS over in
     \<lparr>cfg_comments = [banner [] expect, desc], cfg_spec = ''Spec'',
      cfg_consts = (''Workers'', Val (py_str (get_or c ''Workers'' (PBool False)))) # vals fmt_text c KEYS,
      cfg_invs = invs, cfg_props = props\<rparr>)"

definition verity_expect :: "over_config \<Rightarrow> string" where
  "verity_expect = (\<lambda>(over, invs, props, expect, desc). expect)"

definition verity_ok :: "string \<times> over_config \<Rightarrow> bool" where
  "verity_ok = (\<lambda>(n, (over, invs, props, expect, desc)). ident n \<and> over_known DEFAULTS over \<and> texts_ok invs props expect desc)"

definition verity_mods :: "string \<Rightarrow> string list option" where
  "verity_mods n = Some VERITY_CONSTANTS"

lemma verity_facts:
  "list_all (\<lambda>(k, v). plain_val v) DEFAULTS" "set (''Workers'' # KEYS) \<subseteq> set (dkeys DEFAULTS)"
  "list_all ident KEYS" "distinct (map fst CONFIGS)" "list_all verity_ok CONFIGS"
  "distinct (''Workers'' # KEYS) \<and> set (''Workers'' # KEYS) = set VERITY_CONSTANTS"
  by code_simp+

lemma verity_fmt: "fmt v = Inr (fmt_text v)" "plain_val v \<Longrightarrow> one_line (fmt_text v) \<and> no_colon (fmt_text v)"
  using plain_val_text by (cases v; simp add: fmt_def fmt_text_def tf_def)+

lemma verity_entry:
  assumes "verity_ok (n, e)"
  shows "config_lines n e = Inr (cfg_lines (verity_spec n e))"
    and "wf_cfg (verity_spec n e) \<and> quiet (verity_spec n e)"
proof -
  obtain over invs props expect desc where e: "e = (over, invs, props, expect, desc)" by (cases e)
  let ?c = "dmerge DEFAULTS over"
  from assms have ok: "over_known DEFAULTS over" "texts_ok invs props expect desc" by (simp_all add: e verity_ok_def)
  have v: "\<exists>v. map_of ?c k = Some v \<and> plain_val v" if "k \<in> set (''Workers'' # KEYS)" for k
    by (rule merged_plain [OF verity_facts(1) ok(1) subsetD [OF verity_facts(2) that]])
  have vl: "value_lines fmt ?c KEYS = Inr (map const_line (vals fmt_text ?c KEYS))"
    by (rule value_lines_eq) (use v verity_fmt(1) in auto)
  obtain w where w: "map_of ?c ''Workers'' = Some w" "plain_val w" using v [of "''Workers''"] by auto
  show "config_lines n e = Inr (cfg_lines (verity_spec n e))"
    by (simp add: e config_lines_def verity_spec_def vl merged_item [OF w(1)] cfg_simps Let_def)
  have g: "one_line (fmt_text (get_or ?c k (PBool False))) \<and> no_colon (fmt_text (get_or ?c k (PBool False)))"
    if "k \<in> set KEYS" for k
    using v [of k] that verity_fmt(2) by (auto simp: get_or_def)
  show "wf_cfg (verity_spec n e) \<and> quiet (verity_spec n e)"
    using ok(2) plain_val_text [OF w(2)] vals_ok [OF verity_facts(3), of fmt_text ?c] vals_quiet [of KEYS fmt_text ?c] g
    by (simp add: e verity_spec_def wf_cfg_def quiet_def texts_ok_def Let_def merged_item [OF w(1)] ident_eval)
qed

interpretation verity: cfg_suite config_lines verity_spec CONFIGS verity_expect verity_ok verity_mods
proof
  fix n e assume ok: "verity_ok (n, e)"
  show "clear (verity_expect e) \<and> (\<exists>what rest. cfg_comments (verity_spec n e) = banner what (verity_expect e) # rest)"
    using ok by (cases e) (auto simp: verity_ok_def texts_ok_def verity_expect_def verity_spec_def Let_def)
  have "map fst (cfg_consts (verity_spec n e)) = ''Workers'' # KEYS"
    by (cases e) (simp add: verity_spec_def Let_def)
  from assignsI [OF this verity_facts(6)] show "\<exists>ks. verity_mods n = Some ks \<and> assigns (verity_spec n e) ks"
    by (simp add: verity_mods_def)
qed (rule verity_facts(4,5) verity_entry; assumption?)+

text \<open>
  The script never fails. Afterwards the configurations of the directory are exactly the ones of
  the table, whatever was there before, and files that are no configurations are untouched; each
  configuration reads back with its overrides applied, assigns exactly the constants that
  VeritySharing.tla declares, and has the expectation of its entry as the first one that sed finds.\<close>

theorem verity_generated:
  "\<exists>d' out. gen d = Inr (d', out) \<and> load d' = map_of (specs verity_spec CONFIGS)
     \<and> (\<forall>f. suffix ''.cfg'' f \<or> map_of d' f = map_of d f) \<and> delivered CONFIGS verity_spec verity_expect verity_mods d'"
proof -
  let ?cs = "specs verity_spec CONFIGS"
  let ?d = "put_all ?cs (unlink_stale (dkeys CONFIGS) d)"
  have "list_all ident (map fst ?cs)" using verity_facts(5) by (auto simp: verity_ok_def list_all_iff)
  note c = clean_written [OF _ verity.specs_fit this, unfolded dkeys_specs, OF verity_facts(4)]
  have "delivered CONFIGS verity_spec verity_expect verity_mods ?d"
    by (rule verity.delivers) (simp_all add: verity_facts(4))
  with c show ?thesis unfolding gen_def verity.write_all_eq bindE_simps by blast
qed

end
