(* ===== verification/Cfg_Userns.thy ===== *)
theory Cfg_Userns
  imports Cfg_Defaults
begin

text \<open>
  \<^verbatim>\<open>systemd/nsresourced/tla/gen-cfgs.py\<close>: the configurations of the user namespace registry model.
\<close>

section \<open>The script\<close>

definition SAFETY :: "string list" where
  \<open>SAFETY =
     [''TypeOK'', ''LiveRangesDisjoint'', ''ManagedCoversLive'', ''ResourcesOfLiveKept'',
     ''RegistryConsistent'', ''NoStarvationByDead'']\<close>

definition LIVENESS :: "string list" where
  \<open>LIVENESS =
     [''UnusedNamespaceDies'', ''RangeReclaimed'']\<close>

definition DEFAULTS :: "pydict" where
  \<open>DEFAULTS =
     ([(''Clients'', PStr ''{"c1", "c2"}''), (''Role'', PStr ''RoleDef''), (''Inodes'', PStr ''{1, 2}''),
     (''Ranges'', PStr ''{"r1", "r2"}''), (''IdMax'', PInt 4), (''RingCap'', PInt 4), (''RestartBudget'',
     PInt 1), (''FDSTORE_PINS'', PBool False), (''FIX_NSID_VERIFY'', PBool True), (''FIX_REAP_ON_ALLOC'',
     PBool True), (''FIX_STARTUP_SWEEP'', PBool True), (''FIX_RINGBUF_LOCK'', PBool True)])\<close>

definition CONFIGS :: "(string, over_config) dict" where
  \<open>CONFIGS = [
     (''registry_fixed'', ([], SAFETY, LIVENESS, ''pass'',
     ''every fix on, the fd store does not pin (what runs), no ring buffer drop: every property'')),
     (''registry_fdstore_pins'', (([(''FDSTORE_PINS'', PBool True)]), SAFETY, [''UnusedNamespaceDies''],
     ''violation'',
     ''the fd store pins the namespace as the source intends: UnusedNamespaceDies (a namespace no client references stays alive, its range is never returned)'')),
     (''registry_no_nsid'', (([(''FIX_NSID_VERIFY'', PBool False)]), [''LiveRangesDisjoint'',
     ''ManagedCoversLive''], [], ''violation'',
     ''no NS_GET_ID in the registry (before 01e6465b55): a death event for a reused inode releases the new namespace's registration'')),
     (''registry_no_reap'', (([(''FIX_REAP_ON_ALLOC'', PBool False), (''RingCap'', PInt 1),
     (''RestartBudget'', PInt 0), (''Inodes'', PStr ''{1, 2, 3}'')]), [''NoStarvationByDead''], [],
     ''violation'',
     ''no reclaim during allocation (before a77838a950), a dropped death event, an inode that is not reused: NoStarvationByDead (a dead namespace's range starves an allocation)'')),
     (''registry_fixed_3inodes'', (([(''Inodes'', PStr ''{1, 2, 3}'')]), SAFETY, LIVENESS, ''pass'',
     ''every fix on with three inode numbers, so that dead entries are not always cleaned up through inode reuse'')),
     (''registry_ringbuf_drop'', (([(''RingCap'', PInt 1), (''RestartBudget'', PInt 0)]), [''TypeOK''],
     [''RangeReclaimed''], ''violation'',
     ''a dropped death event, no restart: RangeReclaimed (nothing but the next allocation that runs out of ranges reclaims the entry)'')),
     (''registry_no_ringbuf_lock'', (([(''FIX_RINGBUF_LOCK'', PBool False)]), SAFETY, LIVENESS, ''pass'',
     ''the manager releases without the registry lock: nothing the model checks depends on it (its registry updates are atomic)''))]\<close>

definition fmt :: "pyval \<Rightarrow> string result" where
  "fmt v = (case v of PBool b \<Rightarrow> Inr (if b then ''TRUE'' else ''FALSE'') | _ \<Rightarrow> Inr (py_str v))"

definition KEYS :: "string list" where
  "KEYS = [''IdMax'', ''RingCap'', ''RestartBudget'', ''FDSTORE_PINS'', ''FIX_NSID_VERIFY'',
     ''FIX_REAP_ON_ALLOC'', ''FIX_STARTUP_SWEEP'', ''FIX_RINGBUF_LOCK'']"

definition config_lines :: "string \<Rightarrow> over_config \<Rightarrow> string list result" where
  "config_lines name = (\<lambda>(over, invs, props, expect, desc). let c = dmerge DEFAULTS over in
     bindE (item c ''Clients'') (\<lambda>clients. bindE (item c ''Role'') (\<lambda>role.
     bindE (item c ''Inodes'') (\<lambda>inodes. bindE (item c ''Ranges'') (\<lambda>ranges.
     bindE (value_lines fmt c KEYS) (\<lambda>values.
     Inr ([remark (''generated by gen-cfgs.py, expected: '' @ expect), remark desc,
           ''SPECIFICATION Spec'', ''CONSTANTS'',
           ''  Clients = '' @ py_str clients, ''  Role <- '' @ py_str role,
           ''  Inodes = '' @ py_str inodes, ''  Ranges = '' @ py_str ranges]
          @ values
          @ (if invs \<noteq> [] then ''INVARIANTS'' # map indent invs else [])
          @ (if props \<noteq> [] then ''PROPERTIES'' # map indent props else []))))))))"

text \<open>The directory afterwards and the lines printed\<close>

definition gen :: "dir \<Rightarrow> (dir \<times> string list) result" where
  "gen d = bindE (write_all config_lines CONFIGS (unlink_stale (dkeys CONFIGS) d)) (\<lambda>d.
     Inr (d, map (\<lambda>(name, (over, invs, props, expect, desc)). name @ '' '' @ expect) CONFIGS))"

text \<open>The constants of \<^verbatim>\<open>UsernsRegistry.tla\<close>\<close>

definition USERNS_CONSTANTS :: "string list" where
  "USERNS_CONSTANTS =
     [''Clients'', ''Role'', ''Inodes'', ''Ranges'', ''IdMax'', ''RingCap'', ''RestartBudget'',
     ''FDSTORE_PINS'', ''FIX_NSID_VERIFY'', ''FIX_REAP_ON_ALLOC'', ''FIX_STARTUP_SWEEP'',
     ''FIX_RINGBUF_LOCK'']"

section \<open>What it writes\<close>

definition fmt_text :: "pyval \<Rightarrow> string" where
  "fmt_text v = (case v of PBool b \<Rightarrow> tf b | _ \<Rightarrow> py_str v)"

definition userns_spec :: "string \<Rightarrow> over_config \<Rightarrow> tlc_cfg" where
  "userns_spec name = (\<lambda>(over, invs, props, expect, desc). let c = dmerge DEFAULTS over in
     \<lparr>cfg_comments = [banner [] expect, desc], cfg_spec = ''Spec'',
      cfg_consts = [(''Clients'', Val (py_str (get_or c ''Clients'' (PBool False)))), (''Role'', Def (py_str (get_or c ''Role'' (PBool False)))),
         (''Inodes'', Val (py_str (get_or c ''Inodes'' (PBool False)))), (''Ranges'', Val (py_str (get_or c ''Ranges'' (PBool False))))]
         @ vals fmt_text c KEYS,
      cfg_invs = invs, cfg_props = props\<rparr>)"

definition userns_expect :: "over_config \<Rightarrow> string" where
  "userns_expect = (\<lambda>(over, invs, props, expect, desc). expect)"

definition userns_ok :: "string \<times> over_config \<Rightarrow> bool" where
  "userns_ok = (\<lambda>(n, (over, invs, props, expect, desc)). ident n \<and> over_known DEFAULTS over \<and> texts_ok invs props expect desc)"

definition userns_mods :: "string \<Rightarrow> string list option" where
  "userns_mods n = Some USERNS_CONSTANTS"

lemma userns_facts:
  "list_all (\<lambda>(k, v). plain_val v) DEFAULTS" "set ([''Clients'', ''Role'', ''Inodes'', ''Ranges''] @ KEYS) \<subseteq> set (dkeys DEFAULTS)"
  "list_all ident KEYS" "distinct (map fst CONFIGS)" "list_all userns_ok CONFIGS"
  "distinct ([''Clients'', ''Role'', ''Inodes'', ''Ranges''] @ KEYS) \<and> set ([''Clients'', ''Role'', ''Inodes'', ''Ranges''] @ KEYS) = set USERNS_CONSTANTS"
  by code_simp+

lemma userns_fmt: "fmt v = Inr (fmt_text v)" "plain_val v \<Longrightarrow> one_line (fmt_text v) \<and> no_colon (fmt_text v)"
  using plain_val_text by (cases v; simp add: fmt_def fmt_text_def tf_def)+

lemma userns_entry:
  assumes "userns_ok (n, e)"
  shows "config_lines n e = Inr (cfg_lines (userns_spec n e))"
    and "wf_cfg (userns_spec n e) \<and> quiet (userns_spec n e)"
proof -
  obtain over invs props expect desc where e: "e = (over, invs, props, expect, desc)" by (cases e)
  let ?c = "dmerge DEFAULTS over"
  from assms have ok: "over_known DEFAULTS over" "texts_ok invs props expect desc" by (simp_all add: e userns_ok_def)
  have v: "\<exists>v. map_of ?c k = Some v \<and> plain_val v" if "k \<in> set ([''Clients'', ''Role'', ''Inodes'', ''Ranges''] @ KEYS)" for k
    by (rule merged_plain [OF userns_facts(1) ok(1) subsetD [OF userns_facts(2) that]])
  have vl: "value_lines fmt ?c KEYS = Inr (map const_line (vals fmt_text ?c KEYS))"
    by (rule value_lines_eq) (use v userns_fmt(1) in auto)
  obtain v1 v2 v3 v4 where w: "map_of ?c ''Clients'' = Some v1" "map_of ?c ''Role'' = Some v2" "map_of ?c ''Inodes'' = Some v3"
      "map_of ?c ''Ranges'' = Some v4" and p: "plain_val v1" "plain_val v2" "plain_val v3" "plain_val v4"
    using v [of "''Clients''"] v [of "''Role''"] v [of "''Inodes''"] v [of "''Ranges''"] by auto
  show "config_lines n e = Inr (cfg_lines (userns_spec n e))"
    by (simp add: e config_lines_def userns_spec_def vl w [THEN merged_item(1)] w [THEN merged_item(2)] cfg_simps Let_def)
  have g: "one_line (fmt_text (get_or ?c k (PBool False))) \<and> no_colon (fmt_text (get_or ?c k (PBool False)))"
    if "k \<in> set KEYS" for k
    using v [of k] that userns_fmt(2) by (auto simp: get_or_def)
  show "wf_cfg (userns_spec n e) \<and> quiet (userns_spec n e)"
    using ok(2) p [THEN plain_val_text] vals_ok [OF userns_facts(3), of fmt_text ?c] vals_quiet [of KEYS fmt_text ?c] g
    by (simp add: e userns_spec_def wf_cfg_def quiet_def texts_ok_def Let_def w [THEN merged_item(1)] w [THEN merged_item(2)] ident_eval)
qed

interpretation userns: cfg_suite config_lines userns_spec CONFIGS userns_expect userns_ok userns_mods
proof
  fix n e assume ok: "userns_ok (n, e)"
  show "clear (userns_expect e) \<and> (\<exists>what rest. cfg_comments (userns_spec n e) = banner what (userns_expect e) # rest)"
    using ok by (cases e) (auto simp: userns_ok_def texts_ok_def userns_expect_def userns_spec_def Let_def)
  have "map fst (cfg_consts (userns_spec n e)) = [''Clients'', ''Role'', ''Inodes'', ''Ranges''] @ KEYS"
    by (cases e) (simp add: userns_spec_def Let_def)
  from assignsI [OF this userns_facts(6)] show "\<exists>ks. userns_mods n = Some ks \<and> assigns (userns_spec n e) ks"
    by (simp add: userns_mods_def)
qed (rule userns_facts(4,5) userns_entry; assumption?)+

text \<open>
  The script never fails. Afterwards the configurations of the directory are exactly the ones of
  the table, whatever was there before, and files that are no configurations are untouched; each
  configuration reads back with its overrides applied, assigns exactly the constants that
  UsernsRegistry.tla declares, and has the expectation of its entry as the first one that sed finds.\<close>

theorem userns_generated:
  "\<exists>d' out. gen d = Inr (d', out) \<and> load d' = map_of (specs userns_spec CONFIGS)
     \<and> (\<forall>f. suffix ''.cfg'' f \<or> map_of d' f = map_of d f) \<and> delivered CONFIGS userns_spec userns_expect userns_mods d'"
proof -
  let ?cs = "specs userns_spec CONFIGS"
  let ?d = "put_all ?cs (unlink_stale (dkeys CONFIGS) d)"
  have "list_all ident (map fst ?cs)" using userns_facts(5) by (auto simp: userns_ok_def list_all_iff)
  note c = clean_written [OF _ userns.specs_fit this, unfolded dkeys_specs, OF userns_facts(4)]
  have "delivered CONFIGS userns_spec userns_expect userns_mods ?d"
    by (rule userns.delivers) (simp_all add: userns_facts(4))
  with c show ?thesis unfolding gen_def userns.write_all_eq bindE_simps by blast
qed

end
