(* ===== verification/Cfg_Executor.thy ===== *)
theory Cfg_Executor
  imports Cfg_Defaults
begin

text \<open>
  \<^verbatim>\<open>systemd/executor/tla/gen-cfgs.py\<close>: the configurations of the executor model.
\<close>

section \<open>The script\<close>

text \<open>An entry has five components, or four: then it is checked for its properties only, with
  \<open>TypeOK\<close> as the invariant.\<close>

datatype entry =
    Full pydict "string list" "string list" string string
  | LiveOnly pydict "string list" string string

definition SAFETY :: "string list" where
  \<open>SAFETY =
     [''TypeOK'', ''NoLostMessage'', ''HandoffRecorded'', ''NoLateUserLookup'', ''ActiveImpliesExeced'',
     ''JobDoneImpliesExeced'', ''JobFailedImpliesNotExeced'', ''ExecutorSignaledOnlyOnRequest'',
     ''MainPidIsTracked'', ''StopReachesMain'', ''InactiveImpliesNoProcess'',
     ''SessionNotClosedWhilePayloadAlive'']\<close>

definition LIVENESS :: "string list" where
  \<open>LIVENESS =
     [''JobCompletes'', ''SessionEventuallyClosed'']\<close>

definition DEFAULTS :: "pydict" where
  \<open>DEFAULTS =
     ([(''Type'', PStr ''exec''), (''PAM'', PBool False), (''PIDNS'', PBool False), (''User'', PBool True),
     (''RemainAfterExit'', PBool False), (''KillMode'', PStr ''control-group''), (''Prio'', PStr
     ''PrioDefault''), (''StopBudget'', PInt 1), (''TimeoutBudget'', PInt 1), (''PayloadStatuses'', PStr
     ''{0, 1}''), (''PamDropMayFail'', PBool False), (''FIX_COLD_MARK'', PBool True),
     (''FIX_PAM_CLOSES_EXEC_FD'', PBool True), (''FIX_PPID_CHECK'', PBool True), (''BARRIER'', PBool True),
     (''PAM_WAITS_FOR_PARENT'', PBool False), (''FIX_PIDNS_PARENT_CLOSES_EXEC_FD'', PBool False)])\<close>

definition QUIET :: "pydict" where
  \<open>QUIET =
     ([(''StopBudget'', PInt 0), (''TimeoutBudget'', PInt 0)])\<close>

definition CONFIGS :: "(string, entry) dict" where
  \<open>CONFIGS = [
     (''simple_fixed'', Full ([(''Type'', PStr ''simple'')]) SAFETY LIVENESS ''pass''
     ''Type=simple with User=, a stop: every property''),
     (''simple_remain'', Full ([(''Type'', PStr ''simple''), (''RemainAfterExit'', PBool True)]) SAFETY
     LIVENESS ''pass'' ''Type=simple with RemainAfterExit=yes''),
     (''exec_fixed'', Full [] SAFETY LIVENESS ''pass''
     ''Type=exec with User=, a stop and a start timeout: every property''),
     (''exec_remain'', Full ([(''RemainAfterExit'', PBool True)]) SAFETY LIVENESS ''pass''
     ''Type=exec with RemainAfterExit=yes''),
     (''oneshot_fixed'', Full ([(''Type'', PStr ''oneshot''), (''RemainAfterExit'', PBool True)]) SAFETY
     LIVENESS ''pass'' ''Type=oneshot with RemainAfterExit=yes''),
     (''oneshot_noremain'', Full ([(''Type'', PStr ''oneshot'')]) SAFETY LIVENESS ''pass''
     ''Type=oneshot without RemainAfterExit=''),
     (''exec_no_cold'', Full ([(''FIX_COLD_MARK'', PBool False)]) [''ActiveImpliesExeced''] [] ''violation''
     ''no exec_fd_mark_hot(false) after a failed execve(): ActiveImpliesExeced (the EOF of the exit counts as the execve)''),
     (''exec_execfd_late'', Full ([(''Prio'', PStr ''PrioExecFdLate'')]) [''JobFailedImpliesNotExeced''] []
     ''violation''
     ''exec_fd below SIGCHLD: JobFailedImpliesNotExeced (a payload that execve()d and exited 1 fails the start job)''),
     (''exec_execfd_late_lost'', Full ([(''Prio'', PStr ''PrioExecFdLate'')]) [''NoLostMessage''] []
     ''violation'' ''exec_fd below SIGCHLD: NoLostMessage (the reap drops the readable exec_fd)''),
     (''exec_handoff_late'', Full ([(''Prio'', PStr ''PrioHandoffLate'')]) [''HandoffRecorded''] []
     ''violation''
     ''handoff timestamp below SIGCHLD: HandoffRecorded (the process is reaped before its timestamp is read)''),
     (''exec_ul_late'', Full ([(''Prio'', PStr ''PrioUserLookupLate'')]) [''NoLateUserLookup''] []
     ''violation'' ''user lookup below SIGCHLD: NoLateUserLookup (the uid arrives after the unit failed)''),
     (''simple_pidns'', Full ([(''Type'', PStr ''simple''), (''PIDNS'', PBool True)] @ QUIET) SAFETY
     LIVENESS ''pass'' ''Type=simple with PrivatePIDs=yes: the pidref handoff''),
     (''exec_pidns'', Full ([(''PIDNS'', PBool True)] @ QUIET) [''JobFailedImpliesNotExeced''] []
     ''violation''
     ''Type=exec with PrivatePIDs=yes: JobFailedImpliesNotExeced (the parent still holds exec_fd between the errno write and its _exit(); a payload that execve()s and dies in that window fails the start job)''),
     (''exec_pidns_fix'', Full ([(''PIDNS'', PBool True), (''FIX_PIDNS_PARENT_CLOSES_EXEC_FD'', PBool True)]
     @ QUIET) SAFETY LIVENESS ''pass''
     ''Type=exec with PrivatePIDs=yes, the parent drops exec_fd before the child goes on: every property''),
     (''simple_pidns_late'', Full ([(''Type'', PStr ''simple''), (''PIDNS'', PBool True), (''Prio'', PStr
     ''PrioPidrefLate'')] @ QUIET) [''ExecutorSignaledOnlyOnRequest''] [] ''violation''
     ''pidref below SIGCHLD: ExecutorSignaledOnlyOnRequest (the parent's exit stops the service and kills the child)''),
     (''exec_pidns_stop'', Full ([(''PIDNS'', PBool True), (''KillMode'', PStr ''mixed'')])
     [''StopReachesMain''] [] ''violation''
     ''PrivatePIDs=yes with KillMode=mixed, a stop or a timeout between the fork and the parent's exit: StopReachesMain (SIGTERM went to the parent, the manager waits for the child)''),
     (''exec_pidns_stop_cg'', Full ([(''PIDNS'', PBool True), (''FIX_PIDNS_PARENT_CLOSES_EXEC_FD'', PBool
     True)]) SAFETY LIVENESS ''pass''
     ''PrivatePIDs=yes with KillMode=control-group, a stop and a timeout: the cgroup kill reaches the child''),
     (''exec_pam_cg'', Full ([(''PAM'', PBool True)] @ QUIET) SAFETY LIVENESS ''pass''
     ''PAMName= with KillMode=control-group, nothing but the payload ends the service: every property''),
     (''simple_pam_cg'', Full ([(''Type'', PStr ''simple''), (''PAM'', PBool True)] @ QUIET) SAFETY LIVENESS
     ''pass'' ''Type=simple with PAMName=, KillMode=control-group''),
     (''oneshot_pam_cg'', Full ([(''Type'', PStr ''oneshot''), (''PAM'', PBool True), (''RemainAfterExit'',
     PBool True)] @ QUIET) SAFETY LIVENESS ''pass''
     ''Type=oneshot with PAMName=, KillMode=control-group, RemainAfterExit=yes''),
     (''exec_pam_cg_stop'', LiveOnly ([(''PAM'', PBool True), (''TimeoutBudget'', PInt 0)])
     [''SessionEventuallyClosed''] ''violation''
     ''KillMode=control-group and a stop: SessionEventuallyClosed (SIGTERM reaches (sd-pam) while its parent lives, it exits without closing)''),
     (''exec_pam_cg_timeout'', LiveOnly ([(''PAM'', PBool True), (''StopBudget'', PInt 0)])
     [''SessionEventuallyClosed''] ''violation''
     ''KillMode=control-group and a start timeout: SessionEventuallyClosed (the same race)''),
     (''exec_pam_cg_wait'', Full ([(''PAM'', PBool True), (''PAM_WAITS_FOR_PARENT'', PBool True)]) SAFETY
     LIVENESS ''pass''
     ''KillMode=control-group, a stop and a timeout, a (sd-pam) that keeps waiting for its parent after a SIGTERM''),
     (''exec_pam_mixed'', LiveOnly ([(''PAM'', PBool True), (''KillMode'', PStr ''mixed'')] @ QUIET)
     [''SessionEventuallyClosed''] ''violation''
     ''KillMode=mixed, nothing but the payload ends the service: SessionEventuallyClosed (the next kill operation after the main process is gone is the SIGKILL of the cgroup)''),
     (''exec_pam_dropfail_cg'', Full ([(''PAM'', PBool True), (''PamDropMayFail'', PBool True)] @ QUIET)
     SAFETY LIVENESS ''pass''
     ''KillMode=control-group, fully_set_uid_gid() fails in (sd-pam): no PDEATHSIG from an unprivileged parent, the cgroup SIGTERM closes the session''),
     (''exec_pam_noppid'', Full ([(''PAM'', PBool True), (''FIX_PPID_CHECK'', PBool False)] @ QUIET) SAFETY
     LIVENESS ''pass''
     ''no getppid() check in (sd-pam): the barrier and the cgroup SIGTERM cover the window''),
     (''exec_pam_nobarrier'', Full ([(''PAM'', PBool True), (''BARRIER'', PBool False)] @ QUIET)
     [''JobFailedImpliesNotExeced''] [] ''violation''
     ''Type=exec, no barrier in setup_pam(): JobFailedImpliesNotExeced ((sd-pam) still holds exec_fd when the payload execve()s and exits, the EOF comes too late)''),
     (''simple_pam_nobarrier'', Full ([(''Type'', PStr ''simple''), (''PAM'', PBool True), (''BARRIER'',
     PBool False)] @ QUIET) SAFETY LIVENESS ''pass''
     ''Type=simple, no barrier in setup_pam(): nothing depends on it, the getppid() check and the cgroup SIGTERM cover the PDEATHSIG window''),
     (''simple_pam_nobarrier_noppid'', Full ([(''Type'', PStr ''simple''), (''PAM'', PBool True),
     (''BARRIER'', PBool False), (''FIX_PPID_CHECK'', PBool False)] @ QUIET) SAFETY LIVENESS ''pass''
     ''Type=simple, neither barrier nor getppid() check: the cgroup SIGTERM alone covers the window''),
     (''exec_pam_noclosefd'', Full ([(''PAM'', PBool True), (''FIX_PAM_CLOSES_EXEC_FD'', PBool False)] @
     QUIET) [''TypeOK''] [''JobCompletes''] ''violation''
     ''(sd-pam) keeps exec_fd (before 5863f1da42): JobCompletes (no EOF while (sd-pam) lives)''),
     (''exec_pam_pidns'', Full ([(''PAM'', PBool True), (''PIDNS'', PBool True)] @ QUIET)
     [''SessionNotClosedWhilePayloadAlive''] [] ''violation''
     ''PAMName= with PrivatePIDs=yes, refused by unit_verify_contexts(): SessionNotClosedWhilePayloadAlive (the pidref parent's exit fires PDEATHSIG)'')]\<close>

fun unpack :: "entry \<Rightarrow> over_config" where
  "unpack (Full over invs props expect desc) = (over, invs, props, expect, desc)"
| "unpack (LiveOnly over props expect desc) = (over, [''TypeOK''], props, expect, desc)"

definition fmt :: "pyval \<Rightarrow> string result" where
  "fmt v = (case v of PBool b \<Rightarrow> Inr (if b then ''TRUE'' else ''FALSE'') | PInt i \<Rightarrow> Inr (show_int i) | _ \<Rightarrow> Inr (py_str v))"

text \<open>\<^verbatim>\<open>'  {k} = "{c[k]}"'\<close> puts the value into quotes.\<close>

definition in_quotes :: "pyval \<Rightarrow> string result" where
  \<open>in_quotes v = Inr (''"'' @ py_str v @ ''"'')\<close>

definition STRING_KEYS :: "string list" where
  "STRING_KEYS = [''Type'', ''KillMode'']"

definition KEYS :: "string list" where
  "KEYS = [''PAM'', ''PIDNS'', ''User'', ''RemainAfterExit'', ''StopBudget'', ''TimeoutBudget'',
     ''PamDropMayFail'', ''FIX_COLD_MARK'', ''FIX_PAM_CLOSES_EXEC_FD'', ''FIX_PPID_CHECK'',
     ''BARRIER'', ''PAM_WAITS_FOR_PARENT'', ''FIX_PIDNS_PARENT_CLOSES_EXEC_FD'']"

definition config_lines :: "string \<Rightarrow> entry \<Rightarrow> string list result" where
  "config_lines name entry = (case unpack entry of (over, invs, props, expect, desc) \<Rightarrow> let c = dmerge DEFAULTS over in
     bindE (value_lines in_quotes c STRING_KEYS) (\<lambda>strings.
     bindE (value_lines fmt c KEYS) (\<lambda>values.
     bindE (item c ''PayloadStatuses'') (\<lambda>statuses.
     bindE (item c ''Prio'') (\<lambda>prio.
     Inr ([remark (''generated by gen-cfgs.py, expected: '' @ expect), remark desc, ''SPECIFICATION Spec'', ''CONSTANTS'']
          @ strings @ values
          @ [''  PayloadStatuses = '' @ py_str statuses, ''  Prio <- '' @ py_str prio]
          @ (if invs \<noteq> [] then ''INVARIANTS'' # map indent invs else [])
          @ (if props \<noteq> [] then ''PROPERTIES'' # map indent props else [])))))))"

text \<open>The directory afterwards and the lines printed\<close>

definition expect_of :: "entry \<Rightarrow> string" where
  "expect_of entry = (case unpack entry of (over, invs, props, expect, desc) \<Rightarrow> expect)"

definition gen :: "dir \<Rightarrow> (dir \<times> string list) result" where
  "gen d = bindE (write_all config_lines CONFIGS (unlink_stale (dkeys CONFIGS) d)) (\<lambda>d.
     Inr (d, map (\<lambda>(name, entry). name @ '' '' @ expect_of entry) CONFIGS))"

text \<open>The constants of \<^verbatim>\<open>Executor.tla\<close>\<close>

definition EXECUTOR_CONSTANTS :: "string list" where
  "EXECUTOR_CONSTANTS =
     [''Type'', ''PAM'', ''PIDNS'', ''User'', ''RemainAfterExit'', ''KillMode'', ''Prio'', ''StopBudget'',
     ''TimeoutBudget'', ''PayloadStatuses'', ''PamDropMayFail'', ''FIX_COLD_MARK'',
     ''FIX_PAM_CLOSES_EXEC_FD'', ''FIX_PPID_CHECK'', ''BARRIER'', ''PAM_WAITS_FOR_PARENT'',
     ''FIX_PIDNS_PARENT_CLOSES_EXEC_FD'']"

section \<open>What it writes\<close>

definition fmt_text :: "pyval \<Rightarrow> string" where
  "fmt_text v = (case v of PBool b \<Rightarrow> tf b | _ \<Rightarrow> py_str v)"

definition executor_spec :: "string \<Rightarrow> entry \<Rightarrow> tlc_cfg" where
  "executor_spec name entry = (case unpack entry of (over, invs, props, expect, desc) \<Rightarrow> let c = dmerge DEFAULTS over in
     \<lparr>cfg_comments = [banner [] expect, desc], cfg_spec = ''Spec'',
      cfg_consts = vals (\<lambda>v. quoted (py_str v)) c STRING_KEYS @ vals fmt_text c KEYS
         @ [(''PayloadStatuses'', Val (py_str (get_or c ''PayloadStatuses'' (PBool False)))),
            (''Prio'', Def (py_str (get_or c ''Prio'' (PBool False))))],
      cfg_invs = invs, cfg_props = props\<rparr>)"

definition executor_ok :: "string \<times> entry \<Rightarrow> bool" where
  "executor_ok = (\<lambda>(n, entry). case unpack entry of (over, invs, props, expect, desc) \<Rightarrow>
     ident n \<and> over_known DEFAULTS over \<and> texts_ok invs props expect desc)"

definition executor_mods :: "string \<Rightarrow> string list option" where
  "executor_mods n = Some EXECUTOR_CONSTANTS"

definition all_keys :: "string list" where
  "all_keys = STRING_KEYS @ KEYS @ [''PayloadStatuses'', ''Prio'']"

lemma executor_facts:
  "list_all (\<lambda>(k, v). plain_val v) DEFAULTS" "set all_keys \<subseteq> set (dkeys DEFAULTS)"
  "list_all ident STRING_KEYS" "list_all ident KEYS" "distinct (map fst CONFIGS)" "list_all executor_ok CONFIGS"
  "distinct all_keys \<and> set all_keys = set EXECUTOR_CONSTANTS" "list_all ident (map fst CONFIGS)"
  by code_simp+

lemma key_in: "k \<in> set KEYS \<Longrightarrow> k \<in> set all_keys" "k \<in> set STRING_KEYS \<Longrightarrow> k \<in> set all_keys"
  by (simp_all add: all_keys_def)

lemma executor_fmt:
  "fmt v = Inr (fmt_text v)" "in_quotes v = Inr (quoted (py_str v))"
  "plain_val v \<Longrightarrow> one_line (fmt_text v) \<and> no_colon (fmt_text v) \<and> one_line (quoted (py_str v)) \<and> no_colon (quoted (py_str v))"
  using plain_val_text by (cases v; simp add: fmt_def fmt_text_def in_quotes_def quoted_def tf_def)+

lemma executor_entry:
  assumes "executor_ok (n, e)"
  shows "config_lines n e = Inr (cfg_lines (executor_spec n e))"
    and "wf_cfg (executor_spec n e) \<and> quiet (executor_spec n e)"
proof -
  obtain over invs props expect desc where e: "unpack e = (over, invs, props, expect, desc)" by (cases "unpack e")
  let ?c = "dmerge DEFAULTS over"
  from assms have ok: "over_known DEFAULTS over" "texts_ok invs props expect desc" by (simp_all add: e executor_ok_def)
  have v: "\<exists>v. map_of ?c k = Some v \<and> plain_val v" if "k \<in> set all_keys" for k
    by (rule merged_plain [OF executor_facts(1) ok(1) subsetD [OF executor_facts(2) that]])
  have vl: "value_lines fmt ?c KEYS = Inr (map const_line (vals fmt_text ?c KEYS))"
    "value_lines in_quotes ?c STRING_KEYS = Inr (map const_line (vals (\<lambda>v. quoted (py_str v)) ?c STRING_KEYS))"
    by (rule value_lines_eq; insert executor_fmt(1,2); blast dest: v [OF key_in(1)] v [OF key_in(2)])+
  obtain v1 v2 where w: "map_of ?c ''PayloadStatuses'' = Some v1" "map_of ?c ''Prio'' = Some v2"
      and p: "plain_val v1" "plain_val v2"
    using v [of "''PayloadStatuses''"] v [of "''Prio''"] by (auto simp: all_keys_def)
  show "config_lines n e = Inr (cfg_lines (executor_spec n e))"
    by (simp add: e config_lines_def executor_spec_def vl w [THEN merged_item(1)] w [THEN merged_item(2)] cfg_simps Let_def)
  have g: "one_line (fmt_text (get_or ?c k (PBool False))) \<and> no_colon (fmt_text (get_or ?c k (PBool False)))
      \<and> one_line (quoted (py_str (get_or ?c k (PBool False)))) \<and> no_colon (quoted (py_str (get_or ?c k (PBool False))))"
    if "k \<in> set all_keys" for k
    using v [OF that] executor_fmt(3) by (auto simp: get_or_def)
  have "list_all const_ok (vals fmt_text ?c KEYS)" "list_all const_ok (vals (\<lambda>v. quoted (py_str v)) ?c STRING_KEYS)"
    by (rule vals_ok [OF executor_facts(4)] vals_ok [OF executor_facts(3)]; use g in \<open>simp add: all_keys_def\<close>)+
  moreover have "list_all (\<lambda>(k, v). no_colon (cval_text v)) (vals fmt_text ?c KEYS)"
    "list_all (\<lambda>(k, v). no_colon (cval_text v)) (vals (\<lambda>v. quoted (py_str v)) ?c STRING_KEYS)"
    by (rule vals_quiet; use g in \<open>simp add: all_keys_def\<close>)+
  ultimately show "wf_cfg (executor_spec n e) \<and> quiet (executor_spec n e)"
    using ok(2) p [THEN plain_val_text]
    by (simp add: e executor_spec_def wf_cfg_def quiet_def texts_ok_def Let_def w [THEN merged_item(2)] ident_eval)
qed

interpretation executor: cfg_suite config_lines executor_spec CONFIGS expect_of executor_ok executor_mods
proof
  fix n e assume ok: "executor_ok (n, e)"
  show "clear (expect_of e) \<and> (\<exists>what rest. cfg_comments (executor_spec n e) = banner what (expect_of e) # rest)"
    using ok by (cases "unpack e") (auto simp: executor_ok_def texts_ok_def expect_of_def executor_spec_def Let_def)
  have "map fst (cfg_consts (executor_spec n e)) = all_keys"
    by (cases "unpack e") (simp add: executor_spec_def Let_def all_keys_def)
  from assignsI [OF this executor_facts(7)] show "\<exists>ks. executor_mods n = Some ks \<and> assigns (executor_spec n e) ks"
    by (simp add: executor_mods_def)
qed (rule executor_facts(5,6) executor_entry; assumption?)+

text \<open>
  The script never fails. Afterwards the configurations of the directory are exactly the ones of
  the table, whatever was there before, and files that are no configurations are untouched; each
  configuration reads back with its overrides applied (an entry without invariants is checked for
  TypeOK), assigns exactly the constants that Executor.tla declares, and has the expectation of its
  entry as the first one that sed finds.\<close>

theorem executor_generated:
  "\<exists>d' out. gen d = Inr (d', out) \<and> load d' = map_of (specs executor_spec CONFIGS)
     \<and> (\<forall>f. suffix ''.cfg'' f \<or> map_of d' f = map_of d f) \<and> delivered CONFIGS executor_spec expect_of executor_mods d'"
proof -
  let ?cs = "specs executor_spec CONFIGS"
  let ?d = "put_all ?cs (unlink_stale (dkeys CONFIGS) d)"
  have "list_all ident (map fst ?cs)" using executor_facts(8) by simp
  note c = clean_written [OF _ executor.specs_fit this, unfolded dkeys_specs, OF executor_facts(5)]
  have "delivered CONFIGS executor_spec expect_of executor_mods ?d"
    by (rule executor.delivers) (simp_all add: executor_facts(5))
  with c show ?thesis unfolding gen_def executor.write_all_eq bindE_simps by blast
qed

end
