(* ===== verification/Cfg_Fiber.thy ===== *)
theory Cfg_Fiber
  imports Cfg_Defaults
begin

text \<open>
  \<^verbatim>\<open>systemd/fiber/tla/gen-cfgs.py\<close>: the configurations of the fiber model. TLC's configuration files
  take scalars only, so for every configuration the script also writes a module \<^verbatim>\<open>MC_<name>.tla\<close> that
  defines its sequences and sets, which the configuration refers to with \<^verbatim>\<open><-\<close>.
\<close>

section \<open>The tables\<close>

definition SAFETY :: "string list" where
  \<open>SAFETY =
     [''NoCrash'', ''NoSpuriousWakeup'', ''YieldReturnsZeroOrCanceled'', ''NoLostCancel'',
     ''NoVoidDeadline'', ''FinishedImpliesUnwound'']\<close>

definition LIVENESS :: "string list" where
  \<open>LIVENESS =
     [''EventuallyFinished'', ''ExitFinishes'', ''CancelledCompletes'', ''DeadlineLeavesScope'']\<close>

definition ALL_OPS :: "string list" where
  \<open>ALL_OPS =
     [''yield'', ''ext'', ''spawn'', ''spawnfl'', ''awaitf'', ''cancel'', ''exit'', ''tobegin'', ''toend'',
     ''bare'']\<close>

definition FIXES :: "pydict" where
  \<open>FIXES =
     ([(''FixFreePending'', PBool True), (''FixCwuLoop'', PBool True), (''FixExitArmed'', PBool True),
     (''FixRecancel'', PBool True), (''FixStickyError'', PBool True), (''FixNoChildTrampoline'', PBool
     True), (''FixAwaitLoop'', PBool True)])\<close>

definition NOFIX :: pydict where
  "NOFIX = map (\<lambda>(k, v). (k, PBool False)) FIXES"

definition DEFAULTS :: "pydict" where
  \<open>DEFAULTS =
     ([(''FiberOrder'', PList [PStr ''f1'', PStr ''f2'', PStr ''f3'']), (''TopLevel'', PList [PStr ''f1'',
     PStr ''f2'']), (''FloatingTop'', PList []), (''ExtOrder'', PList [PStr ''x1'', PStr ''x2'']),
     (''WaitOrder'', PList [PStr ''w1'', PStr ''w2'', PStr ''w3'']), (''FiberPrioSeq'', PList [PInt 0, PInt
     0, PInt 0]), (''Budget'', PInt 2), (''Ops'', PList (map PStr ALL_OPS)), (''MainMayExit'', PBool True),
     (''MainMayCancel'', PBool False), (''MainCancelMax'', PInt 0), (''ExitOnIdle'', PBool False),
     (''AllowIgnoreErrors'', PBool False), (''ChildMayFail'', PBool False)] @ NOFIX)\<close>

definition ops :: "string list \<Rightarrow> pydict" where
  "ops names = [(''Ops'', PList (map PStr names))]"

definition without :: "string \<Rightarrow> pydict" where
  "without fix = dmerge FIXES [(fix, PBool False)]"

definition CANCELLERS :: "pydict" where
  \<open>CANCELLERS =
     ([(''MainMayCancel'', PBool True), (''ChildMayFail'', PBool True)])\<close>

definition CONFIGS :: "(string, over_config) dict" where
  \<open>CONFIGS = [
     (''asis_smoke'', (ops [''yield'', ''ext''], [''NoCrash'', ''FinishedImpliesUnwound''], [], ''pass'',
     ''two top-level fibers that only yield and sleep, exit from main: nothing to find'')),
     (''asis_cwu_exit_race'', (ops [''spawn'', ''yield''], [''NoCrash''], [], ''violation'',
     ''a parent waiting in cancel_wait_unref() for its cancelled child when sd_event_exit() arrives: the exit source cancels the parent, the child's defer source is never dispatched again, the parent's unref of the still-pending child frees it (assertion)'')),
     (''asis_cwu_cancel_race'', (([(''MainMayCancel'', PBool True)] @ ops [''spawn'', ''yield'']),
     [''NoCrash''], [], ''violation'',
     ''the parent is cancelled while it waits for the child's cancellation: cancel_wait_unref() returns early and unrefs the pending child'')),
     (''asis_cwu_sibling_race'', (ops [''spawn'', ''yield'', ''cancel''], [''NoCrash''], [], ''violation'',
     ''the same, with a sibling fiber doing the cancelling from inside the loop'')),
     (''asis_spurious_child'', (ops [''spawn'', ''ext''], [''NoCrash'', ''NoSpuriousWakeup''], [],
     ''violation'',
     ''a child's completion resumes its creator out of an unrelated sleep/io wait (fiber_resume_trampoline is the default callback of every future created on a fiber)'')),
     (''asis_spurious_child_fails'', (([(''ChildMayFail'', PBool True)] @ ops [''spawn'', ''ext'']),
     [''NoCrash'', ''NoSpuriousWakeup''], [], ''violation'',
     ''the child fails: the parent's sleep returns the child's error'')),
     (''asis_uaf_floating_child'', (([(''TopLevel'', PList [PStr ''f1'']), (''FloatingTop'', PList [PStr
     ''f1''])] @ ops [''spawnfl'', ''yield'']), [''NoCrash''], [], ''violation'',
     ''a floating fiber spawns a floating child and completes: the child's completion resumes the freed parent'')),
     (''asis_stranded_floating_child'', (([(''TopLevel'', PList [PStr ''f1''])] @ ops [''spawnfl'',
     ''ext'']), [''NoCrash'', ''FinishedImpliesUnwound''], [], ''violation'',
     ''a floating child created on a fiber has no exit source and no owner: it is never unwound when the loop exits'')),
     (''asis_void_deadline'', (([(''TopLevel'', PList [PStr ''f1'']), (''Budget'', PInt 4)] @ ops
     [''tobegin'', ''yield'', ''bare'']), [''NoCrash'', ''NoVoidDeadline''], [], ''violation'',
     ''the SD_FIBER_TIMEOUT deadline fires while the fiber is queued after a yield: sd_fiber_resume() drops -ETIME, the next wait in the scope is unbounded'')),
     (''asis_void_deadline_live'', (([(''TopLevel'', PList [PStr ''f1'']), (''Budget'', PInt 4),
     (''MainMayExit'', PBool False)] @ ops [''tobegin'', ''yield'', ''bare'']), [''NoCrash''],
     [''DeadlineLeavesScope''], ''violation'',
     ''the same without an exit from main: the loop blocks forever with the fiber suspended inside the expired scope (a deadlock for TLC)'')),
     (''asis_void_deadline_io'', (([(''TopLevel'', PList [PStr ''f1'']), (''Budget'', PInt 4),
     (''ExtOrder'', PList [PStr ''x1'', PStr ''x2'', PStr ''x3''])] @ ops [''tobegin'', ''ext'', ''yield'',
     ''bare'']), [''NoCrash'', ''NoVoidDeadline''], [], ''violation'',
     ''the deadline fires in the same iteration as the io the fiber waits for, the fiber yields afterwards: -ETIME is dropped'')),
     (''asis_lost_cancel'', (([(''MainMayCancel'', PBool True), (''Budget'', PInt 4)] @ ops [''tobegin'',
     ''spawn'', ''toend'', ''yield'']), [''NoLostCancel''], [], ''violation'',
     ''cancelled while cancel_wait_unref() waits at the end of an SD_FIBER_WITH_TIMEOUT block: the cancellation is swallowed and the fiber carries on'')),
     (''asis_lost_cancel_exit'', (([(''Budget'', PInt 5)] @ ops [''tobegin'', ''spawn'', ''toend'',
     ''yield'', ''bare'']), [''FinishedImpliesUnwound''], [], ''violation'',
     ''the swallowed cancellation came from the exit source: the fiber suspends again and is never unwound'')),
     (''asis_stale_yield'', (([(''TopLevel'', PList [PStr ''f1'']), (''MainMayCancel'', PBool True),
     (''AllowIgnoreErrors'', PBool True), (''Budget'', PInt 3)] @ ops [''tobegin'', ''bare'', ''yield'']),
     [''NoCrash'', ''YieldReturnsZeroOrCanceled''], [], ''violation'',
     ''a resume value stashed before a cancellation is not consumed by the -ECANCELED return and surfaces from a later sd_fiber_yield()'')),
     (''asis_all'', (([(''Budget'', PInt 3)] @ CANCELLERS), SAFETY, [], ''violation'',
     ''every operation and every safety property against the code as it is (TLC stops at the first violation)'')),
     (''fixed_all'', (([(''Budget'', PInt 2)] @ CANCELLERS @ FIXES), SAFETY, [], ''pass'',
     ''every operation, every safety property, every fix, two operations per fiber'')),
     (''fixed_all_live'', (([(''Budget'', PInt 2)] @ FIXES), SAFETY, [''EventuallyFinished'',
     ''ExitFinishes''], ''pass'',
     ''every operation, every fix, the loop finishes and every fiber with it (cancellation by main is fixed_cancel_live's job: with it the liveness graph is three times the size)'')),
     (''fixed_prio'', (([(''Budget'', PInt 3), (''FiberPrioSeq'', PList [PInt 0, PInt 1, PInt 0])] @
     CANCELLERS @ FIXES), SAFETY, [], ''pass'',
     ''distinct priorities, three operations: the second top-level fiber runs after the first and its child'')),
     (''fixed_prio_child_low'', (([(''Budget'', PInt 3), (''FiberPrioSeq'', PList [PInt 0, PInt 0, PInt 1])]
     @ CANCELLERS @ FIXES), SAFETY, [], ''pass'',
     ''children at lower priority than their parents, three operations'')),
     (''fixed_idle'', (([(''Budget'', PInt 2), (''ExitOnIdle'', PBool True), (''MainMayExit'', PBool False),
     (''MainCancelMax'', PInt 2)] @ CANCELLERS @ FIXES), SAFETY, [''EventuallyFinished''], ''pass'',
     ''sd_event_set_exit_on_idle() instead of an explicit exit'')),
     (''fixed_floating'', (([(''Budget'', PInt 2), (''FloatingTop'', PList [PStr ''f1'']),
     (''MainCancelMax'', PInt 2)] @ CANCELLERS @ FIXES), SAFETY, [''EventuallyFinished''], ''pass'',
     ''a floating top-level fiber (run_main_fiber(), varlink method fibers)'')),
     (''fixed_ignore_errors'', (([(''AllowIgnoreErrors'', PBool True), (''Budget'', PInt 2)] @ CANCELLERS @
     FIXES @ ops (filter (\<lambda>op. op \<notin> set [''bare'', ''awaitf'']) ALL_OPS)), SAFETY, [],
     ''pass'',
     ''fibers that ignore errors (including -ECANCELED) and carry on; no bare suspends and no awaits (two fibers ignoring their cancellation and awaiting each other is a plain deadlock)'')),
     (''fixed_four_fibers'', (([(''FiberOrder'', PList [PStr ''f1'', PStr ''f2'', PStr ''f3'', PStr
     ''f4'']), (''FiberPrioSeq'', PList [PInt 0, PInt 0, PInt 0, PInt 0]), (''WaitOrder'', PList [PStr
     ''w1'', PStr ''w2'', PStr ''w3'', PStr ''w4'']), (''Budget'', PInt 2), (''MainMayCancel'', PBool True)]
     @ ops [''spawn'', ''yield'', ''ext'', ''awaitf'', ''cancel''] @ FIXES), SAFETY, [], ''pass'',
     ''two top-level fibers and two child slots (grandchildren): spawning, waiting, cancelling'')),
     (''fixed_deadline'', (([(''FiberOrder'', PList [PStr ''f1'', PStr ''f2'']), (''FiberPrioSeq'', PList
     [PInt 0, PInt 0]), (''TopLevel'', PList [PStr ''f1'']), (''Budget'', PInt 4), (''ExtOrder'', PList
     [PStr ''x1'', PStr ''x2'', PStr ''x3''])] @ ops [''tobegin'', ''ext'', ''yield'', ''bare'', ''toend'',
     ''spawn''] @ FIXES), SAFETY, [], ''pass'',
     ''timeout scopes, four operations, one top-level fiber and one child slot: every deadline is delivered'')),
     (''fixed_deadline_live'', (([(''TopLevel'', PList [PStr ''f1'']), (''Budget'', PInt 3), (''ExtOrder'',
     PList [PStr ''x1'', PStr ''x2''])] @ ops [''tobegin'', ''ext'', ''yield'', ''bare'', ''toend''] @
     FIXES), SAFETY, [''DeadlineLeavesScope'', ''EventuallyFinished''], ''pass'',
     ''timeout scopes, three operations: the fiber leaves every expired scope'')),
     (''fixed_cancel'', (([(''Budget'', PInt 3), (''MainMayCancel'', PBool True)] @ ops [''spawn'',
     ''yield'', ''cancel'', ''awaitf'', ''tobegin'', ''toend'', ''bare''] @ FIXES), SAFETY, [], ''pass'',
     ''cancellation from main, siblings and exit, three operations'')),
     (''fixed_cancel_live'', (([(''Budget'', PInt 3), (''MainMayCancel'', PBool True), (''MainCancelMax'',
     PInt 2)] @ ops [''spawn'', ''yield'', ''cancel'', ''awaitf''] @ FIXES), SAFETY,
     [''CancelledCompletes'', ''EventuallyFinished''], ''pass'',
     ''cancellation from main (at most twice), siblings and exit: every cancelled fiber completes'')),
     (''fixed_children'', (([(''Budget'', PInt 3), (''ChildMayFail'', PBool True)] @ ops [''spawn'',
     ''spawnfl'', ''awaitf'', ''ext'', ''yield''] @ FIXES), SAFETY, [], ''pass'',
     ''owned and floating children that may fail, awaited or not, three operations'')),
     (''fixed_exit'', (([(''Budget'', PInt 3)] @ ops [''spawn'', ''yield'', ''ext'', ''exit'', ''bare''] @
     FIXES), SAFETY, [], ''pass'',
     ''exit requested from a fiber or from main while fibers sleep, wait or hold children, three operations'')),
     (''abl_no_freepending'', (([(''Budget'', PInt 2)] @ CANCELLERS @ without ''FixFreePending''), SAFETY,
     [], ''pass'',
     ''without the sd_future_free() fix: with the other fixes no pending future is ever dropped (the fix matters on error paths the model has no operation for)'')),
     (''abl_no_cwuloop'', (([(''Budget'', PInt 3), (''MainMayCancel'', PBool True)] @ ops [''spawn'',
     ''yield'', ''cancel''] @ without ''FixCwuLoop''), SAFETY, [], ''violation'',
     ''without cancel_wait_unref() waiting for the resolution: the premature wakeup unrefs a live fiber'')),
     (''abl_no_exitarmed'', (([(''Budget'', PInt 3)] @ ops [''spawnfl'', ''spawn'', ''ext'', ''yield''] @
     without ''FixExitArmed''), SAFETY, [], ''violation'',
     ''without an always-armed exit source: fibers created on a fiber are stranded when the loop exits'')),
     (''abl_no_exitarmed_cancel'', (([(''Budget'', PInt 3), (''MainMayCancel'', PBool True)] @ ops
     [''spawn'', ''yield'', ''awaitf''] @ without ''FixExitArmed''), SAFETY, [], ''violation'',
     ''the same with a cancel from main after the exit source fired once'')),
     (''abl_no_recancel'', (([(''Budget'', PInt 4), (''MainMayCancel'', PBool True)] @ ops [''tobegin'',
     ''spawn'', ''toend'', ''yield''] @ without ''FixRecancel''), SAFETY, [], ''violation'',
     ''without redelivering a swallowed cancellation'')),
     (''abl_no_recancel_exit'', (([(''Budget'', PInt 5)] @ ops [''tobegin'', ''spawn'', ''toend'',
     ''yield'', ''bare''] @ without ''FixRecancel''), SAFETY, [], ''violation'',
     ''without redelivering a swallowed cancellation, the exit source fired once: stranded'')),
     (''abl_no_sticky'', (([(''TopLevel'', PList [PStr ''f1'']), (''Budget'', PInt 4)] @ ops [''tobegin'',
     ''yield'', ''bare''] @ without ''FixStickyError''), SAFETY, [], ''violation'',
     ''without keeping an error result for a queued fiber: the deadline is dropped'')),
     (''abl_no_childtramp'', (([(''Budget'', PInt 2)] @ ops [''spawn'', ''ext'', ''awaitf''] @ without
     ''FixNoChildTrampoline''), SAFETY, [], ''pass'',
     ''with children still resuming their creator on completion: the wait loops absorb the spurious wakeups'')),
     (''abl_no_childtramp_floating'', (([(''TopLevel'', PList [PStr ''f1'']), (''FloatingTop'', PList [PStr
     ''f1''])] @ ops [''spawnfl'', ''yield''] @ without ''FixNoChildTrampoline''), SAFETY, [],
     ''violation'',
     ''with children still resuming their creator: a floating child resumes its freed floating parent'')),
     (''abl_no_awaitloop'', (([(''Budget'', PInt 2)] @ CANCELLERS @ without ''FixAwaitLoop''), SAFETY, [],
     ''pass'',
     ''without re-suspending on unrelated wakeups: with no child trampoline nothing unrelated wakes a fiber up''))]\<close>

section \<open>Formatting\<close>

fun fmt :: "pyval \<Rightarrow> string result" where
  "fmt (PBool b) = Inr (if b then ''TRUE'' else ''FALSE'')"
| "fmt (PInt i) = Inr (show_int i)"
| "fmt (PStr s) = Inr (dq @ s @ dq)"
| "fmt (PList vs) = Inl (TypeError (py_repr (PList vs)))"

text \<open>Iterating over a value: the elements of a list, the characters of a string\<close>

fun elements :: "pyval \<Rightarrow> pyval list result" where
  "elements (PList vs) = Inr vs"
| "elements (PStr s) = Inr (map (\<lambda>c. PStr [c]) s)"
| "elements v = Inl (TypeError (py_repr v))"

definition fmt_seq :: "pyval \<Rightarrow> string result" where
  "fmt_seq v = bindE (elements v) (\<lambda>xs. bindE (mapE fmt xs) (\<lambda>ts. Inr (''<<'' @ join '', '' ts @ ''>>'')))"

definition fmt_set :: "pyval \<Rightarrow> string result" where
  "fmt_set v = bindE (elements v) (\<lambda>xs. bindE (mapE fmt xs) (\<lambda>ts. Inr (''{'' @ join '', '' ts @ ''}'')))"

section \<open>The files\<close>

definition SEQ_KEYS :: "string list" where
  "SEQ_KEYS = [''FiberOrder'', ''FiberPrioSeq'', ''ExtOrder'', ''WaitOrder'']"

definition SET_KEYS :: "string list" where
  "SET_KEYS = [''TopLevel'', ''FloatingTop'', ''Ops'']"

definition KEYS :: "string list" where
  "KEYS = [''Budget'', ''MainMayExit'', ''MainMayCancel'', ''MainCancelMax'', ''ExitOnIdle'', ''AllowIgnoreErrors'',
     ''ChildMayFail''] @ dkeys FIXES"

definition mc_defs :: "(pyval \<Rightarrow> string result) \<Rightarrow> pydict \<Rightarrow> string list \<Rightarrow> string list result" where
  "mc_defs f c ks = mapE (\<lambda>k. bindE (item c k) (\<lambda>v. bindE (f v) (\<lambda>s. Inr (''MC_'' @ k @ '' == '' @ s)))) ks"

definition mc_lines :: "string \<Rightarrow> over_config \<Rightarrow> string list result" where
  "mc_lines name = (\<lambda>(over, invs, props, expect, desc). let c = dmerge DEFAULTS over in
     bindE (mc_defs fmt_seq c SEQ_KEYS) (\<lambda>seqs.
     bindE (mc_defs fmt_set c SET_KEYS) (\<lambda>sets.
     Inr ([''---- MODULE MC_'' @ name @ '' ----'', remark (''generated by gen-cfgs.py, expected: '' @ expect),
           ''EXTENDS Fiber''] @ seqs @ sets @ [''===='']))))"

definition config_lines :: "string \<Rightarrow> over_config \<Rightarrow> string list result" where
  "config_lines name = (\<lambda>(over, invs, props, expect, desc). let c = dmerge DEFAULTS over in
     bindE (value_lines fmt c KEYS) (\<lambda>values.
     Inr ([remark (''generated by gen-cfgs.py, expected: '' @ expect), remark desc, ''SPECIFICATION Spec'', ''CONSTANTS'']
          @ map (\<lambda>k. ''  '' @ k @ '' <- MC_'' @ k) (SEQ_KEYS @ SET_KEYS)
          @ values
          @ (if invs \<noteq> [] then ''INVARIANTS'' # map indent invs else [])
          @ (if props \<noteq> [] then ''PROPERTIES'' # map indent props else []))))"

definition mc_file :: "string \<Rightarrow> string" where
  "mc_file name = ''MC_'' @ name @ ''.tla''"

definition write_one :: "dir \<Rightarrow> string \<times> over_config \<Rightarrow> dir result" where
  "write_one = (\<lambda>d (name, entry). bindE (mc_lines name entry) (\<lambda>mc.
     let d = AList.update (mc_file name) (file_text mc) d in
     bindE (config_lines name entry) (\<lambda>ls. Inr (write_cfg name ls d))))"

text \<open>Files that were generated for configurations that are gone\<close>

definition stale_name :: "string \<Rightarrow> string" where
  "stale_name old = (if prefix ''MC_'' (stem old) then drop 3 (stem old) else stem old)"

definition globbed :: "string \<Rightarrow> bool" where
  "globbed f = (suffix ''.cfg'' f \<or> (prefix ''MC_'' f \<and> suffix ''.tla'' (drop 3 f)))"

definition remove_stale :: "dir \<Rightarrow> dir" where
  "remove_stale d = foldl (\<lambda>d old. if stale_name old \<notin> set (dkeys CONFIGS) then AList.delete old d else d) d
     (filter (suffix ''.cfg'') (dkeys d) @ filter (\<lambda>f. prefix ''MC_'' f \<and> suffix ''.tla'' (drop 3 f)) (dkeys d))"

definition gen :: "dir \<Rightarrow> (dir \<times> string list) result" where
  "gen d = bindE (foldE write_one (remove_stale d) CONFIGS) (\<lambda>d.
     Inr (d, map (\<lambda>(name, (over, invs, props, expect, desc)). name @ '' '' @ expect) CONFIGS))"

text \<open>The constants of \<^verbatim>\<open>Fiber.tla\<close>\<close>

definition FIBER_CONSTANTS :: "string list" where
  "FIBER_CONSTANTS =
     [''FiberOrder'', ''TopLevel'', ''FloatingTop'', ''ExtOrder'', ''WaitOrder'', ''FiberPrioSeq'',
     ''Budget'', ''Ops'', ''MainMayExit'', ''MainMayCancel'', ''MainCancelMax'', ''ExitOnIdle'',
     ''AllowIgnoreErrors'', ''ChildMayFail'', ''FixFreePending'', ''FixCwuLoop'', ''FixExitArmed'',
     ''FixRecancel'', ''FixStickyError'', ''FixNoChildTrampoline'', ''FixAwaitLoop'']"

end
