(* ===== verification/Cfg_Fiber_Props.thy ===== *)
theory Cfg_Fiber_Props
  imports Cfg_Fiber
begin

text \<open>
  What \<^verbatim>\<open>systemd/fiber/tla/gen-cfgs.py\<close> writes and removes, the modules its configurations refer to,
  and which fixes its three families of configurations switch on.
\<close>

section \<open>Specification\<close>

definition fmt_text :: "pyval \<Rightarrow> string" where
  "fmt_text v = (case v of PBool b \<Rightarrow> tf b | PStr s \<Rightarrow> quoted s | _ \<Rightarrow> py_str v)"

definition items :: "pyval \<Rightarrow> string list" where
  "items v = (case v of PList vs \<Rightarrow> map fmt_text vs | _ \<Rightarrow> [])"

definition seq_text :: "pyval \<Rightarrow> string" where
  "seq_text v = ''<<'' @ join '', '' (items v) @ ''>>''"

definition set_text :: "pyval \<Rightarrow> string" where
  "set_text v = braces (items v)"

definition fiber_spec :: "string \<Rightarrow> over_config \<Rightarrow> tlc_cfg" where
  "fiber_spec name = (\<lambda>(over, invs, props, expect, desc).
     \<lparr>cfg_comments = [banner [] expect, desc], cfg_spec = ''Spec'',
      cfg_consts = map (\<lambda>k. (k, Def (''MC_'' @ k))) (SEQ_KEYS @ SET_KEYS) @ vals fmt_text (dmerge DEFAULTS over) KEYS,
      cfg_invs = invs, cfg_props = props\<rparr>)"

definition mc_line :: "string \<times> string \<Rightarrow> string" where
  "mc_line = (\<lambda>(k, s). ''MC_'' @ k @ '' == '' @ s)"

definition fiber_defs :: "over_config \<Rightarrow> (string \<times> string) list" where
  "fiber_defs = (\<lambda>(over, invs, props, expect, desc). let c = dmerge DEFAULTS over in
     map (\<lambda>k. (k, seq_text (get_or c k (PBool False)))) SEQ_KEYS @ map (\<lambda>k. (k, set_text (get_or c k (PBool False)))) SET_KEYS)"

definition fiber_module :: "string \<Rightarrow> over_config \<Rightarrow> string list" where
  "fiber_module name e = (case e of (over, invs, props, expect, desc) \<Rightarrow>
     [''---- MODULE MC_'' @ name @ '' ----'', remark (banner [] expect), ''EXTENDS Fiber''] @ map mc_line (fiber_defs e) @ [''===='']) "

definition fiber_expect :: "over_config \<Rightarrow> string" where
  "fiber_expect = (\<lambda>(over, invs, props, expect, desc). expect)"

text \<open>A list of scalars for the sequences and sets, a scalar for every other constant\<close>

definition fiber_val :: "string \<times> pyval \<Rightarrow> bool" where
  "fiber_val = (\<lambda>(k, v). if List.member (SEQ_KEYS @ SET_KEYS) k
     then (case v of PList vs \<Rightarrow> list_all plain_val vs | _ \<Rightarrow> False) else plain_val v)"

definition fiber_ok :: "string \<times> over_config \<Rightarrow> bool" where
  "fiber_ok = (\<lambda>(n, (over, invs, props, expect, desc)). ident n \<and> \<not> prefix ''MC_'' n \<and> distinct (dkeys over)
     \<and> list_all (\<lambda>(k, v). List.member (dkeys DEFAULTS) k \<and> fiber_val (k, v)) over \<and> texts_ok invs props expect desc)"

definition fiber_mods :: "string \<Rightarrow> string list option" where
  "fiber_mods n = Some FIBER_CONSTANTS"

lemma fiber_facts:
  "list_all fiber_val DEFAULTS" "set (SEQ_KEYS @ SET_KEYS @ KEYS) \<subseteq> set (dkeys DEFAULTS)"
  "list_all ident (SEQ_KEYS @ SET_KEYS)" "list_all ident KEYS" "distinct (map fst CONFIGS)" "list_all fiber_ok CONFIGS"
  "distinct (SEQ_KEYS @ SET_KEYS @ KEYS) \<and> set (SEQ_KEYS @ SET_KEYS @ KEYS) = set FIBER_CONSTANTS"
  "list_all ident (map fst CONFIGS)" "list_all (\<lambda>n. \<not> prefix ''MC_'' n) (map fst CONFIGS)"
  by code_simp+

section \<open>The text of a configuration and of its module\<close>

lemma fmt_scalar:
  assumes "plain_val v"
  shows "fmt v = Inr (fmt_text v)" "one_line (fmt_text v)" "no_colon (fmt_text v)"
  using assms by (cases v; simp add: fmt_text_def quoted_def tf_def)+

lemma mapE_scalar: "list_all plain_val vs \<Longrightarrow> mapE fmt vs = Inr (map fmt_text vs)"
  by (induction vs) (simp_all add: fmt_scalar)

lemma fmt_list:
  assumes "case v of PList vs \<Rightarrow> list_all plain_val vs | _ \<Rightarrow> False"
  shows "fmt_seq v = Inr (seq_text v)" "fmt_set v = Inr (set_text v)"
  using assms
  by (cases v; simp add: fmt_seq_def fmt_set_def seq_text_def set_text_def items_def braces_def mapE_scalar)+

lemma mc_defs_eq:
  assumes "\<And>k. k \<in> set ks \<Longrightarrow> \<exists>v. map_of c k = Some v \<and> f v = Inr (g v)"
  shows "mc_defs f c ks = Inr (map mc_line (map (\<lambda>k. (k, g (get_or c k (PBool False)))) ks))"
  using assms
proof (induction ks)
  case (Cons k ks)
  from Cons.prems [of k] obtain v where "map_of c k = Some v" "f v = Inr (g v)" by auto
  with Cons show ?case by (simp add: mc_defs_def mc_line_def item_def get_or_def)
qed (simp add: mc_defs_def)

lemma fiber_value:
  assumes "fiber_ok (n, (over, invs, props, expect, desc))" "k \<in> set (SEQ_KEYS @ SET_KEYS @ KEYS)"
  shows "\<exists>v. map_of (dmerge DEFAULTS over) k = Some v \<and> fiber_val (k, v)"
proof (rule merged_value [OF fiber_facts(1) _ subsetD [OF fiber_facts(2) assms(2)]])
  show "list_all fiber_val over" using assms(1) by (auto simp: fiber_ok_def list_all_iff)
qed

lemma fiber_scalar:
  assumes "fiber_ok (n, (over, invs, props, expect, desc))" "k \<in> set KEYS"
  shows "\<exists>v. map_of (dmerge DEFAULTS over) k = Some v \<and> plain_val v"
proof -
  have "\<not> k \<in> set (SEQ_KEYS @ SET_KEYS)" using fiber_facts(7) assms(2) by auto
  with fiber_value [OF assms(1), of k] assms(2) show ?thesis by (auto simp: fiber_val_def)
qed

lemma fiber_list:
  assumes "fiber_ok (n, (over, invs, props, expect, desc))" "k \<in> set (SEQ_KEYS @ SET_KEYS)"
  shows "\<exists>v. map_of (dmerge DEFAULTS over) k = Some v \<and> (case v of PList vs \<Rightarrow> list_all plain_val vs | _ \<Rightarrow> False)"
proof -
  have "k \<in> set (SEQ_KEYS @ SET_KEYS @ KEYS)" using assms(2) by auto
  from fiber_value [OF assms(1) this] assms(2) show ?thesis by (auto simp: fiber_val_def)
qed

lemma fiber_texts:
  assumes "fiber_ok (n, (over, invs, props, expect, desc))"
  shows "k \<in> set SEQ_KEYS \<Longrightarrow> \<exists>v. map_of (dmerge DEFAULTS over) k = Some v \<and> fmt_seq v = Inr (seq_text v)"
    and "k \<in> set SET_KEYS \<Longrightarrow> \<exists>v. map_of (dmerge DEFAULTS over) k = Some v \<and> fmt_set v = Inr (set_text v)"
proof -
  have "\<exists>v. map_of (dmerge DEFAULTS over) k = Some v \<and> fmt_seq v = Inr (seq_text v) \<and> fmt_set v = Inr (set_text v)"
    if k: "k \<in> set (SEQ_KEYS @ SET_KEYS)"
  proof -
    from fiber_list [OF assms k] obtain v where
      "map_of (dmerge DEFAULTS over) k = Some v" "case v of PList vs \<Rightarrow> list_all plain_val vs | _ \<Rightarrow> False" by blast
    with fmt_list [of v] show ?thesis by blast
  qed
  then show "k \<in> set SEQ_KEYS \<Longrightarrow> \<exists>v. map_of (dmerge DEFAULTS over) k = Some v \<and> fmt_seq v = Inr (seq_text v)"
    and "k \<in> set SET_KEYS \<Longrightarrow> \<exists>v. map_of (dmerge DEFAULTS over) k = Some v \<and> fmt_set v = Inr (set_text v)"
    by auto
qed

lemma fiber_entry:
  assumes "fiber_ok (n, e)"
  shows "config_lines n e = Inr (cfg_lines (fiber_spec n e))" "mc_lines n e = Inr (fiber_module n e)"
    and "wf_cfg (fiber_spec n e) \<and> quiet (fiber_spec n e)"
proof -
  obtain over invs props expect desc where e: "e = (over, invs, props, expect, desc)" by (cases e)
  let ?c = "dmerge DEFAULTS over"
  note ok = assms [unfolded e]
  have vl: "value_lines fmt ?c KEYS = Inr (map const_line (vals fmt_text ?c KEYS))"
    by (rule value_lines_eq) (use fiber_scalar [OF ok] fmt_scalar(1) in blast)
  show "config_lines n e = Inr (cfg_lines (fiber_spec n e))"
    by (simp add: e config_lines_def fiber_spec_def vl cfg_simps Let_def comp_def)
  have "mc_defs fmt_seq ?c SEQ_KEYS = Inr (map mc_line (map (\<lambda>k. (k, seq_text (get_or ?c k (PBool False)))) SEQ_KEYS))"
    by (rule mc_defs_eq) (rule fiber_texts(1) [OF ok])
  moreover have "mc_defs fmt_set ?c SET_KEYS = Inr (map mc_line (map (\<lambda>k. (k, set_text (get_or ?c k (PBool False)))) SET_KEYS))"
    by (rule mc_defs_eq) (rule fiber_texts(2) [OF ok])
  ultimately show "mc_lines n e = Inr (fiber_module n e)"
    by (simp add: e mc_lines_def fiber_module_def fiber_defs_def Let_def banner_def)
  have g: "one_line (fmt_text (get_or ?c k (PBool False))) \<and> no_colon (fmt_text (get_or ?c k (PBool False)))"
    if "k \<in> set KEYS" for k
    using fiber_scalar [OF ok that] fmt_scalar(2,3) by (auto simp: get_or_def)
  have "list_all const_ok (map (\<lambda>k. (k, Def (''MC_'' @ k))) (SEQ_KEYS @ SET_KEYS))"
    "list_all (\<lambda>(k, v). no_colon (cval_text v)) (map (\<lambda>k. (k, Def (''MC_'' @ k))) (SEQ_KEYS @ SET_KEYS))"
    by code_simp+
  then show "wf_cfg (fiber_spec n e) \<and> quiet (fiber_spec n e)"
    using ok vals_ok [OF fiber_facts(4), of fmt_text ?c] vals_quiet [of KEYS fmt_text ?c] g
    by (simp add: e fiber_ok_def fiber_spec_def wf_cfg_def quiet_def texts_ok_def)
qed

interpretation fiber: cfg_suite config_lines fiber_spec CONFIGS fiber_expect fiber_ok fiber_mods
proof
  fix n e assume ok: "fiber_ok (n, e)"
  show "clear (fiber_expect e) \<and> (\<exists>what rest. cfg_comments (fiber_spec n e) = banner what (fiber_expect e) # rest)"
    using ok by (cases e) (auto simp: fiber_ok_def texts_ok_def fiber_expect_def fiber_spec_def)
  have "map fst (cfg_consts (fiber_spec n e)) = SEQ_KEYS @ SET_KEYS @ KEYS"
    by (cases e) (simp add: fiber_spec_def comp_def)
  from assignsI [OF this fiber_facts(7)] show "\<exists>ks. fiber_mods n = Some ks \<and> assigns (fiber_spec n e) ks"
    by (simp add: fiber_mods_def)
qed (rule fiber_facts(5,6) fiber_entry; assumption?)+

section \<open>The whole run\<close>

definition put_one :: "dir \<Rightarrow> string \<times> over_config \<Rightarrow> dir" where
  "put_one = (\<lambda>d (n, e). write_cfg n (cfg_lines (fiber_spec n e)) (AList.update (mc_file n) (file_text (fiber_module n e)) d))"

lemma write_one_loop: "list_all fiber_ok xs \<Longrightarrow> foldE write_one d xs = Inr (foldl put_one d xs)"
  by (induction xs arbitrary: d) (auto simp: write_one_def put_one_def fiber_entry Let_def)

lemma mc_not_cfg: "mc_file m \<noteq> cfg_file n" "cfg_file n \<noteq> mc_file m"
proof -
  show "mc_file m \<noteq> cfg_file n"
  proof
    assume "mc_file m = cfg_file n"
    then have "last (mc_file m) = last (cfg_file n)" by simp
    then show False by (simp add: mc_file_def cfg_file_def)
  qed
  then show "cfg_file n \<noteq> mc_file m" by metis
qed

lemma mc_file_inj [simp]: "mc_file m = mc_file n \<longleftrightarrow> m = n"
  by (simp add: mc_file_def)

lemma put_one_cfg:
  "(\<And>n. map_of d (cfg_file n) = map_of d2 (cfg_file n)) \<Longrightarrow>
   map_of (foldl put_one d xs) (cfg_file m) = map_of (put_all (specs fiber_spec xs) d2) (cfg_file m)"
proof (induction xs arbitrary: d d2)
  case (Cons x xs)
  obtain n e where x: "x = (n, e)" by (cases x)
  have "map_of (foldl put_one (put_one d x) xs) (cfg_file m) =
      map_of (put_all (specs fiber_spec xs) (write_cfg n (cfg_lines (fiber_spec n e)) d2)) (cfg_file m)"
    by (rule Cons.IH) (simp add: x put_one_def write_cfg_def map_of_update_dict mc_not_cfg Cons.prems)
  then show ?case by (simp add: x put_all_def specs_def)
qed (simp add: put_all_def specs_def)

lemma put_one_mc:
  "distinct (map fst xs) \<Longrightarrow> map_of (foldl put_one d xs) (mc_file m) =
     (case map_of xs m of Some e \<Rightarrow> Some (file_text (fiber_module m e)) | None \<Rightarrow> map_of d (mc_file m))"
proof (induction xs arbitrary: d)
  case (Cons x xs)
  obtain n e where x: "x = (n, e)" by (cases x)
  have "map_of (put_one d x) (mc_file m) = (if m = n then Some (file_text (fiber_module n e)) else map_of d (mc_file m))"
    by (simp add: x put_one_def write_cfg_def map_of_update_dict mc_not_cfg)
  moreover have "map_of xs n = None" using Cons.prems by (simp add: x map_of_eq_None_iff)
  ultimately show ?case using Cons by (cases "m = n") (simp_all add: x split: option.splits)
qed simp

lemma put_one_other:
  "(\<And>n. f \<noteq> cfg_file n) \<Longrightarrow> (\<And>n. f \<noteq> mc_file n) \<Longrightarrow> map_of (foldl put_one d xs) f = map_of d f"
proof (induction xs arbitrary: d)
  case (Cons x xs)
  then show ?case by (cases x) (simp add: put_one_def write_cfg_def map_of_update_dict)
qed simp

lemma map_of_remove_stale:
  "map_of (remove_stale d) f = (if globbed f \<and> stale_name f \<notin> set (dkeys CONFIGS) then None else map_of d f)"
proof -
  have "map_of d f = None" if "f \<notin> set (dkeys d)" using that by (simp add: map_of_eq_None_iff)
  then show ?thesis unfolding remove_stale_def map_of_delete_loop globbed_def by (auto simp del: set_map)
qed

lemma stale_names:
  "globbed (cfg_file n)" "globbed (mc_file n)" "stale_name (mc_file n) = n"
  "stale_name (cfg_file n) = (if n = [] then ''.cfg'' else if prefix ''MC_'' n then drop 3 n else n)"
proof -
  have "stem (mc_file n) = ''MC_'' @ n" by (simp add: stem_def mc_file_def Let_def)
  then show "stale_name (mc_file n) = n" by (simp add: stale_name_def)
  show "globbed (mc_file n)" by (simp add: globbed_def mc_file_def suffix_def)
  show "stale_name (cfg_file n) = (if n = [] then ''.cfg'' else if prefix ''MC_'' n then drop 3 n else n)"
    by (simp add: stale_name_def stem_cfg_file)
qed (simp add: globbed_def)

lemma fiber_no_odd_name: "''.cfg'' \<notin> set (dkeys CONFIGS)" "[] \<notin> set (dkeys CONFIGS)"
  using fiber_facts(8) by (auto simp: list_all_iff ident_eval ident_def simp del: set_map)

lemma map_of_specs: "map_of (specs sp tbl) n = map_option (sp n) (map_of tbl n)"
  by (induction tbl) (auto simp: specs_def)

definition fiber_dir :: "dir \<Rightarrow> dir" where
  "fiber_dir d = foldl put_one (remove_stale d) CONFIGS"

lemma fiber_gen_eq: "\<exists>out. gen d = Inr (fiber_dir d, out)"
  by (simp add: gen_def write_one_loop [OF fiber_facts(6)] fiber_dir_def)

lemma fiber_dir_cfg:
  "map_of (fiber_dir d) (cfg_file n) = map_of (put_all (specs fiber_spec CONFIGS) (remove_stale d)) (cfg_file n)"
  unfolding fiber_dir_def by (rule put_one_cfg) (rule refl)

lemma fiber_dir_load:
  "load (fiber_dir d) n = (case map_of CONFIGS n of Some e \<Rightarrow> Some (fiber_spec n e)
     | None \<Rightarrow> if prefix ''MC_'' n \<and> drop 3 n \<in> set (dkeys CONFIGS) then load d n else None)"
proof -
  let ?cs = "specs fiber_spec CONFIGS"
  have w: "load (put_all ?cs (remove_stale d)) = load (remove_stale d) ++ map_of ?cs"
    using fiber.written [of "remove_stale d"] by (simp only: cfgs_written_def)
  have m: "map_of ?cs n = map_option (fiber_spec n) (map_of CONFIGS n)"
    by (rule map_of_specs)
  have "load (fiber_dir d) n = load (put_all ?cs (remove_stale d)) n" by (simp add: load_def fiber_dir_cfg)
  also have "\<dots> = (case map_of CONFIGS n of Some e \<Rightarrow> Some (fiber_spec n e) | None \<Rightarrow> load (remove_stale d) n)"
    by (simp add: w map_add_def m split: option.split)
  also have "\<dots> = (case map_of CONFIGS n of Some e \<Rightarrow> Some (fiber_spec n e)
     | None \<Rightarrow> if prefix ''MC_'' n \<and> drop 3 n \<in> set (dkeys CONFIGS) then load d n else None)"
  proof (cases "map_of CONFIGS n")
    case None
    then have "n \<notin> set (dkeys CONFIGS)" by (simp add: map_of_eq_None_iff)
    with None fiber_no_odd_name show ?thesis
      by (auto simp: load_def map_of_remove_stale stale_names simp del: set_map)
  qed simp
  finally show ?thesis .
qed

section \<open>Properties\<close>

text \<open>
  C17: The script never fails. Afterwards every configuration of the table reads back as its entry
  says, with the constants of Fiber.tla and the expectation of the entry, and has its module
  MC_<name>.tla; configurations and modules of names that are gone are removed, with one exception
  (a file MC_<name>.cfg for a configuration <name> is kept), and every other file is untouched.\<close>

theorem fiber_generated:
  "\<exists>d' out. gen d = Inr (d', out) \<and> delivered CONFIGS fiber_spec fiber_expect fiber_mods d'
     \<and> (\<forall>n. load d' n = (case map_of CONFIGS n of Some e \<Rightarrow> Some (fiber_spec n e)
           | None \<Rightarrow> if prefix ''MC_'' n \<and> drop 3 n \<in> set (dkeys CONFIGS) then load d n else None))
     \<and> (\<forall>n. map_of d' (mc_file n) = map_option (\<lambda>e. file_text (fiber_module n e)) (map_of CONFIGS n))
     \<and> (\<forall>f. globbed f \<or> map_of d' f = map_of d f)"
proof -
  have "delivered CONFIGS fiber_spec fiber_expect fiber_mods (put_all (specs fiber_spec CONFIGS) (remove_stale d))"
    by (rule fiber.delivers) (simp_all add: fiber_facts(5))
  then have "delivered CONFIGS fiber_spec fiber_expect fiber_mods (fiber_dir d)"
    by (simp only: delivered_def fiber_dir_cfg)
  moreover have "map_of (fiber_dir d) (mc_file n) = map_option (\<lambda>e. file_text (fiber_module n e)) (map_of CONFIGS n)" for n
    unfolding fiber_dir_def put_one_mc [OF fiber_facts(5)] map_of_remove_stale stale_names(3)
  proof (cases "map_of CONFIGS n")
    case None
    then have "n \<notin> set (dkeys CONFIGS)" by (simp only: map_of_eq_None_iff set_map not_False_eq_True)
    then show "(case map_of CONFIGS n of None \<Rightarrow> if globbed (mc_file n) \<and> n \<notin> set (dkeys CONFIGS) then None else map_of d (mc_file n)
        | Some e \<Rightarrow> Some (file_text (fiber_module n e))) = map_option (\<lambda>e. file_text (fiber_module n e)) (map_of CONFIGS n)"
      by (simp only: None stale_names(2) option.case option.map if_True HOL.simp_thms)
  next
    case (Some e)
    show "(case map_of CONFIGS n of None \<Rightarrow> if globbed (mc_file n) \<and> n \<notin> set (dkeys CONFIGS) then None else map_of d (mc_file n)
        | Some e \<Rightarrow> Some (file_text (fiber_module n e))) = map_option (\<lambda>e. file_text (fiber_module n e)) (map_of CONFIGS n)"
      by (simp only: Some option.case option.map)
  qed
  moreover have "globbed f \<or> map_of (fiber_dir d) f = map_of d f" for f
  proof (cases "globbed f")
    case False
    then have "f \<noteq> cfg_file n" "f \<noteq> mc_file n" for n using stale_names(1,2) by blast+
    from put_one_other [OF this] False show ?thesis by (simp add: fiber_dir_def map_of_remove_stale)
  qed simp
  ultimately show ?thesis using fiber_gen_eq [of d] fiber_dir_load by blast
qed

text \<open>The fixes a configuration leaves off\<close>

definition fixes_off :: "tlc_cfg \<Rightarrow> string list" where
  "fixes_off c = filter (\<lambda>f. map_of (cfg_consts c) f = Some (Val ''FALSE'')) (dkeys FIXES)"

definition off_by :: "pydict \<Rightarrow> string list" where
  "off_by over = filter (\<lambda>f. (case map_of (rev over) f of Some v \<Rightarrow> v = PBool False | None \<Rightarrow> True)) (dkeys FIXES)"

lemma fmt_text_False: "fmt_text v = ''FALSE'' \<longleftrightarrow> v = PBool False"
proof (cases v)
  case (PInt i)
  have "CHR ''F'' \<notin> set (show_int i)" using show_int_chars [of "CHR ''F''" i] by (auto simp: is_digit_def code_def)
  then have "show_int i \<noteq> ''FALSE''" by (metis list.set_intros(1))
  with PInt show ?thesis by (simp add: fmt_text_def)
qed (auto simp: fmt_text_def tf_def quoted_def)

lemma fixes_off_spec: "fixes_off (fiber_spec n (over, invs, props, expect, desc)) = off_by over"
proof -
  let ?c = "dmerge DEFAULTS over"
  have keys: "f \<in> set KEYS \<and> f \<notin> set (SEQ_KEYS @ SET_KEYS)" if "f \<in> set (dkeys FIXES)" for f
  proof -
    have "f \<in> set KEYS" using that by (simp add: KEYS_def)
    with fiber_facts(7) show ?thesis by auto
  qed
  have dflt: "list_all (\<lambda>f. map_of DEFAULTS f = Some (PBool False)) (dkeys FIXES)" by code_simp
  have "map_of (cfg_consts (fiber_spec n (over, invs, props, expect, desc))) f = Some (Val (fmt_text (get_or ?c f (PBool False))))"
    if f: "f \<in> set (dkeys FIXES)" for f
  proof -
    have "map_of (map (\<lambda>k. (k, Def (''MC_'' @ k))) (SEQ_KEYS @ SET_KEYS)) f = None"
      using keys [OF f] by (simp add: map_of_eq_None_iff image_image del: map_append)
    moreover have "map_of (vals fmt_text ?c KEYS) f = Some (Val (fmt_text (get_or ?c f (PBool False))))"
      using keys [OF f] by (simp add: vals_def map_of_map_restrict)
    ultimately show ?thesis by (simp add: fiber_spec_def map_add_def del: map_append)
  qed
  moreover have "get_or ?c f (PBool False) = PBool False \<longleftrightarrow> (case map_of (rev over) f of Some v \<Rightarrow> v = PBool False | None \<Rightarrow> True)"
    if "f \<in> set (dkeys FIXES)" for f
    using dflt that by (auto simp: get_or_def dmerge_lookup map_add_def list_all_iff split: option.splits)
  ultimately show ?thesis
    unfolding fixes_off_def off_by_def by (intro filter_cong refl) (simp add: fmt_text_False del: set_map)
qed

lemma families_table:
  "list_all (\<lambda>(n, (over, invs, props, expect, desc)).
     (if layout_of n = ''asis'' then off_by over = dkeys FIXES
      else if layout_of n = ''fixed'' then off_by over = []
      else layout_of n = ''abl'' \<and> length (off_by over) = 1)) CONFIGS"
  "set (dkeys FIXES) = set (concat (map (\<lambda>(n, (over, invs, props, expect, desc)). if layout_of n = ''abl'' then off_by over else []) CONFIGS))"
  by code_simp+

text \<open>
  C18: The three families of configurations are what their names say: every fix is off in an "asis"
  configuration (the code as it is), every fix is on in a "fixed" one, and all fixes but one are on in
  an "abl" one (an ablation), and each fix has an ablation.\<close>

theorem fiber_families:
  "list_all (\<lambda>(n, e).
     (if layout_of n = ''asis'' then fixes_off (fiber_spec n e) = dkeys FIXES
      else if layout_of n = ''fixed'' then fixes_off (fiber_spec n e) = []
      else layout_of n = ''abl'' \<and> length (fixes_off (fiber_spec n e)) = 1)) CONFIGS
   \<and> set (dkeys FIXES) = set (concat (map (\<lambda>(n, e). if layout_of n = ''abl'' then fixes_off (fiber_spec n e) else []) CONFIGS))"
proof
  show "list_all (\<lambda>(n, e).
     (if layout_of n = ''asis'' then fixes_off (fiber_spec n e) = dkeys FIXES
      else if layout_of n = ''fixed'' then fixes_off (fiber_spec n e) = []
      else layout_of n = ''abl'' \<and> length (fixes_off (fiber_spec n e)) = 1)) CONFIGS"
    using families_table(1) by (rule list.pred_mono_strong) (auto simp: fixes_off_spec)
  have eq: "(\<lambda>(n, e). if layout_of n = ''abl'' then fixes_off (fiber_spec n e) else []) =
      (\<lambda>(n, (over, invs, props, expect, desc)). if layout_of n = ''abl'' then off_by over else [])"
    by (auto simp: fun_eq_iff fixes_off_spec)
  show "set (dkeys FIXES) = set (concat (map (\<lambda>(n, e). if layout_of n = ''abl'' then fixes_off (fiber_spec n e) else []) CONFIGS))"
    unfolding eq by (rule families_table(2))
qed

text \<open>
  Every sequence and set that a configuration refers to is defined by its module, in one line
  that holds the value of the merged overrides, and the module defines nothing else.\<close>

theorem fiber_references:
  "(map fst (fiber_defs e) = map fst (filter (\<lambda>(k, v). v = Def (''MC_'' @ k)) (cfg_consts (fiber_spec n e))))
     \<and> distinct (map fst (fiber_defs e))
     \<and> filter (prefix ''MC_'') (fiber_module n e) = map mc_line (fiber_defs e)"
proof -
  obtain over invs props expect desc where e: "e = (over, invs, props, expect, desc)" by (cases e)
  have "filter (\<lambda>(k, v). v = Def (''MC_'' @ k)) (vals f c ks) = []" for f c ks
    by (induction ks) (simp_all add: vals_def)
  moreover have "distinct (SEQ_KEYS @ SET_KEYS)" using fiber_facts(7) by (auto simp: distinct_append)
  moreover have "prefix ''MC_'' (mc_line (k, s))" for k s by (simp add: mc_line_def)
  ultimately show ?thesis
    by (simp add: e fiber_defs_def fiber_spec_def fiber_module_def Let_def comp_def remark_def filter_map)
qed

end
