(* ===== verification/Cfg_Vacate.thy ===== *)
theory Cfg_Vacate
  imports Tlc_Cfg
begin

text \<open>
  \<^verbatim>\<open>kernel/work.mount.knullfs.4/tla/gen-cfgs.py\<close>: the configurations of the RCU walk against
  \<^verbatim>\<open>vacate_mount()\<close> and of the vacant-mount protocol.

  The script for \<^verbatim>\<open>work.mount.knullfs.7.order\<close> repeats both loops over tables of its own; the lines
  of the second one are therefore a function of the table of the other constants.
\<close>

section \<open>The walk\<close>

text \<open>layout, change, victim, mounts, fixes flipped from the default, weak, invariants, expectation\<close>

type_synonym mw_config = "string \<times> string \<times> int \<times> int \<times> string list \<times> bool \<times> string list \<times> string"

definition MW_FIXES :: "string list" where
  \<open>MW_FIXES =
     [''FIX_RECHECK_MISS'', ''FIX_RECHECK_HOP'', ''FIX_RECHECK_DOTDOT'', ''FIX_SCOPED_EAGAIN'',
     ''FIX_RCU_FREE'', ''FIX_VACANT_CONNECTED'', ''FIX_DOTDOT_MSEQ'']\<close>

definition MW_DEFAULT_OFF :: "string list" where
  \<open>MW_DEFAULT_OFF =
     [''FIX_DOTDOT_MSEQ'']\<close>

definition MW_SAFETY :: "string list" where
  \<open>MW_SAFETY =
     [''NoUAF'', ''RcuResultOK'', ''ScopedOK'', ''Bounded'', ''Ledger'']\<close>

definition MW_SAFETY_VAC :: "string list" where
  \<open>MW_SAFETY_VAC =
     MW_SAFETY @ [''NoVacantEscape'']\<close>

definition MW_NEWROOT :: "(string, string) dict" where
  \<open>MW_NEWROOT =
     [(''mountwalk'', ''F''), (''mountwalk3'', ''Fp'')]\<close>

definition MW_CONFIGS :: "(string, mw_config) dict" where
  \<open>MW_CONFIGS = [
     (''mountwalk3_fixed_vacate'', (''mountwalk3'', ''vacate'', 2, 1, [], False, MW_SAFETY_VAC, ''pass'')),
     (''mountwalk3_no_vacant_connected'', (''mountwalk3'', ''vacate'', 2, 1, [''FIX_VACANT_CONNECTED''],
     False, MW_SAFETY,
     ''violation: RcuResultOK, a walker that crossed into the bind before vacate_mount() climbs past the bind's root after it and returns -ENOENT from the filesystem underneath, where the walk succeeds at every instant'')),
     (''mountwalk3_dotdot_mseq'', (''mountwalk3'', ''vacate'', 2, 1, [''FIX_VACANT_CONNECTED'',
     ''FIX_DOTDOT_MSEQ''], False, MW_SAFETY_VAC,
     ''pass: an m_seq recheck after path_connected() closes it as well'')),
     (''mountwalk3_witness_vacant'', (''mountwalk3'', ''vacate'', 2, 1, [''FIX_VACANT_CONNECTED''], False,
     [''NoVacantEscape''], ''violation'')),
     (''mountwalk3_fixed_umount'', (''mountwalk3'', ''umount'', 2, 1, [], False, MW_SAFETY_VAC, ''pass'')),
     (''mountwalk3_fixed_move'', (''mountwalk3'', ''move'', 2, 1, [], False, MW_SAFETY_VAC, ''pass'')),
     (''mountwalk_vacate_fullmount'', (''mountwalk'', ''vacate'', 2, 2, [''FIX_VACANT_CONNECTED''], False,
     MW_SAFETY_VAC,
     ''pass: a mount of a whole filesystem has nothing above its root, so the stale root cannot be climbed past even without the fix'')),
     (''mountwalk3_weak_vacate'', (''mountwalk3'', ''vacate'', 2, 1, [], True, MW_SAFETY_VAC, ''pass'')),
     (''mountwalk3_weak_no_vacant_connected'', (''mountwalk3'', ''vacate'', 2, 1,
     [''FIX_VACANT_CONNECTED''], True, MW_SAFETY, ''violation: RcuResultOK'')),
     (''mountwalk3_weak_dotdot_mseq'', (''mountwalk3'', ''vacate'', 2, 1, [''FIX_VACANT_CONNECTED'',
     ''FIX_DOTDOT_MSEQ''], True, MW_SAFETY_VAC,
     ''pass: the recheck's smp_rmb() orders the loads before the seqcount'')),
     (''mountwalk_weak_vacate_fullmount'', (''mountwalk'', ''vacate'', 2, 2, [''FIX_VACANT_CONNECTED''],
     True, MW_SAFETY_VAC, ''pass''))]\<close>

definition flip_lines :: "string list \<Rightarrow> string list" where
  "flip_lines flip = map (\<lambda>f. let on = (f \<notin> set MW_DEFAULT_OFF) \<noteq> (f \<in> set flip) in
     asg f (if on then ''TRUE'' else ''FALSE'')) MW_FIXES"

definition mw_lines :: "string \<Rightarrow> mw_config \<Rightarrow> string list result" where
  \<open>mw_lines name = (\<lambda>(layout, change, victim, mounts, flip, weak, invs, expect).
     bindE (item MW_NEWROOT layout) (\<lambda>newroot.
     Inr ([remark (''generated by gen-cfgs.py: MountWalk ('' @ layout @ ''), expected: '' @ expect),
           ''SPECIFICATION Spec'', ''CONSTANTS'',
           ''  Dentries <- DentriesDef'', ''  DParent <- DParentDef'', ''  DName <- DNameDef'', ''  DSb <- DSbDef'',
           ''  SbRoot <- SbRootDef'', ''  Negative <- NegativeDef'', ''  RootSb = "S"'', ''  NewSb = "F"'',
           ''  NewRoot = "'' @ newroot @ ''"'', ''  NullSb = "N"'', ''  MntIds = {1, 2, 3}'',
           ''  Walkers = {"W1", "W2"}'', ''  WProg <- WProgDef'', ''  WRoot <- WRootDef'', ''  WScoped <- WScopedDef'',
           ''  MaxRestarts = 3'', ''  Mounts = '' @ show_int mounts, ''  CHANGE = "'' @ change @ ''"'',
           ''  Victim = '' @ show_int victim]
          @ flip_lines flip
          @ [''  WEAK_VACATE = '' @ (if weak then ''TRUE'' else ''FALSE'')]
          @ [''INVARIANTS''] @ map indent invs)))\<close>

section \<open>The vacant-mount protocol\<close>

text \<open>pins, holders, walk budget, detach targets, holder order, fixes off, other constants,
  invariants, expectation\<close>

type_synonym vac_config = "bool \<times> string list \<times> int \<times> int list \<times> string \<times> string list \<times> (string, string) dict
     \<times> string list \<times> string"

definition VAC_FIXES :: "string list" where
  \<open>VAC_FIXES =
     [''FIX_OWN_REF'', ''FIX_PUT_VACANT_ONLY'', ''FIX_TREE_ORDER'', ''FIX_DETACH_PUTS_VACANT'',
     ''FIX_DISOWNED'', ''FIX_HANDOFF_LOCKED'', ''FIX_LAST_UNDER_LOCK'', ''FIX_CONN_SB'', ''FIX_MARK_GATE'']\<close>

definition VAC_SAFETY :: "string list" where
  \<open>VAC_SAFETY =
     [''TypeOK'', ''NoNegative'', ''NoWarn'', ''ExactlyOnce'', ''NoDangling'', ''HashedHasRef'',
     ''DoomedIsLast'', ''OwnRefOnRing'', ''VacantCount'', ''VacantOK'', ''KnullfsOK'', ''NoVacantOnRing'',
     ''NoReveal'', ''NoHang'', ''NoNegativeWatch'', ''NoTeardownHang'', ''WatchedBalanced'', ''Reaped'']\<close>

definition VAC_OTHER :: "(string \<times> string) list" where
  \<open>VAC_OTHER =
     [(''VACATE_MODE'', ''"vacate"''), (''DETACH_PUTS_ALL'', ''FALSE''), (''RELEASE_PUTS'', ''FALSE''),
     (''Marks'', ''FALSE''), (''U_INLINE'', ''FALSE''), (''NOREF'', ''FALSE''), (''NOREF_MARK'', ''TRUE''),
     (''NOREF_TRUST_MARK'', ''TRUE''), (''NOREF_SUM'', ''TRUE''), (''NOREF_HASHED_DOOMS'', ''FALSE''),
     (''NOREF_DETACH_FREES'', ''TRUE'')]\<close>

definition NR :: "(string, string) dict" where
  \<open>NR =
     [(''NOREF'', ''TRUE'')]\<close>

definition NOREF_SAFETY :: "string list" where
  \<open>NOREF_SAFETY =
     VAC_SAFETY @ [''HeldCoversRefs'', ''NoOwnerPut'']\<close>

definition VAC_CONFIGS :: "(string, vac_config) dict" where
  \<open>VAC_CONFIGS = [
     (''mntvacant_fixed'', (True, [''H1'', ''H2''], 1, [2, 3], ''any'', [], [], VAC_SAFETY, ''pass'')),
     (''mntvacant_fixed_nopins'', (False, [''H1'', ''H2''], 1, [2, 3], ''any'', [], [], VAC_SAFETY,
     ''pass'')),
     (''mntvacant_fixed_walk2'', (True, [''H1'', ''H2''], 2, [2, 3], ''any'', [], [], VAC_SAFETY, ''pass'')),
     (''mntvacant_fixed_noholder'', (True, [], 0, [2, 3], ''any'', [], [], VAC_SAFETY, ''pass'')),
     (''mntvacant_fixed_2walkers'', (True, [''H1''], 1, [2], ''any'', [], [(''Walkers'', ''{"W1", "W2"}'')],
     VAC_SAFETY, ''pass'')),
     (''mntvacant_fixed_inline'', (True, [''H1'', ''H2''], 1, [2, 3], ''any'', [], [(''U_INLINE'',
     ''TRUE'')], VAC_SAFETY, ''pass'')),
     (''mntvacant_count_two'', (True, [''H1'', ''H2''], 1, [2, 3], ''any'', [], [(''RELEASE_PUTS'',
     ''TRUE'')], VAC_SAFETY, ''pass'')),
     (''mntvacant_upstream'', (True, [''H1''], 1, [2, 3], ''any'', [''FIX_OWN_REF''], [], VAC_SAFETY,
     ''violation: Reaped, M's filesystem pins P, P owns M'')),
     (''mntvacant_upstream_nopins'', (False, [''H1'', ''H2''], 1, [2, 3], ''any'', [''FIX_OWN_REF''], [],
     VAC_SAFETY, ''pass'')),
     (''mntvacant_doom'', (False, [''H1''], 1, [], ''any'', [], [(''VACATE_MODE'', ''"doom"'')], VAC_SAFETY,
     ''violation: NoWarn (doomed_attached), HashedHasRef, NoHang or NoDangling'')),
     (''mntvacant_unhash'', (False, [''H1''], 1, [], ''any'', [], [(''VACATE_MODE'', ''"unhash"'')],
     [''NoReveal''],
     ''violation: NoReveal, a walk through the held parent lands in what the mount covered'')),
     (''mntvacant_put_all'', (False, [''H1'', ''H2''], 1, [2, 3], ''any'', [''FIX_PUT_VACANT_ONLY''], [],
     VAC_SAFETY,
     ''violation: OwnRefOnRing, a child still holding its own reference is put by its parent's final put and vacated on the unmounted list; NoNegative later'')),
     (''mntvacant_detach_no_put'', (True, [''H1''], 1, [2, 3], ''any'', [''FIX_DETACH_PUTS_VACANT''], [],
     VAC_SAFETY,
     ''violation: VacantCount, the parent's reference stays on a vacant mount nobody will put; Reaped later'')),
     (''mntvacant_detach_put_all'', (True, [''H1''], 1, [2, 3], ''any'', [], [(''DETACH_PUTS_ALL'',
     ''TRUE'')], VAC_SAFETY,
     ''violation: OwnRefOnRing, a mount still holding its own reference is put by __detach_mounts(); NoNegative later'')),
     (''mntvacant_ring_carrier'', (True, [''H1''], 1, [2, 3], ''any'', [''FIX_DISOWNED''], [], VAC_SAFETY,
     ''violation: NoVacantOnRing'')),
     (''mntvacant_ring_carrier_lost'', (True, [''H1''], 1, [2, 3], ''any'', [''FIX_DISOWNED''], [],
     [''ExactlyOnce'', ''Reaped''],
     ''violation: Reaped, the release the carrier clobbered never runs and the filesystem it would have released keeps its pin'')),
     (''mntvacant_handoff_unlocked'', (True, [''H1'', ''H2''], 1, [2, 3], ''any'', [''FIX_HANDOFF_LOCKED''],
     [], VAC_SAFETY,
     ''violation: ExactlyOnce or NoWarn, both sides free or one uses the mount after the other freed it'')),
     (''mntvacant_last_unlocked'', (True, [''H1'', ''H2''], 1, [2, 3], ''any'', [''FIX_LAST_UNDER_LOCK''],
     [], VAC_SAFETY,
     ''violation: NoWarn (release_pending_at_free) or Reaped, the filesystem the mount carried is never released'')),
     (''mntvacant_tree_order'', (False, [], 0, [], ''any'', [], [], VAC_SAFETY @ [''NoVacate''], ''pass'')),
     (''mntvacant_lifo'', (False, [], 0, [], ''any'', [''FIX_TREE_ORDER''], [], VAC_SAFETY @
     [''NoNeedlessVacate''], ''violation: NoNeedlessVacate, children are put before their parent'')),
     (''mntvacant_holder_early'', (False, [''H1''], 0, [], ''early'', [], [], VAC_SAFETY @ [''NoVacate''],
     ''pass'')),
     (''mntvacant_holder_early_walk'', (False, [''H1''], 1, [], ''early'', [], [], [''NoVacate''],
     ''violation: NoVacate, a walker that legitimized the dead parent keeps it alive while its child is put'')),
     (''mntvacant_holder_late'', (False, [''H1''], 1, [], ''late'', [], [], VAC_SAFETY @ [''NoVacate''],
     ''violation: NoVacate'')),
     (''mntvacant_marks'', (True, [''H1'', ''H2''], 1, [2, 3], ''any'', [], [(''Marks'', ''TRUE'')],
     VAC_SAFETY, ''pass'')),
     (''mntvacant_marks_no_conn_sb'', (True, [''H1'', ''H2''], 1, [2, 3], ''any'', [''FIX_CONN_SB''],
     [(''Marks'', ''TRUE'')], VAC_SAFETY,
     ''violation: NoNegativeWatch or NoTeardownHang, the mark of a vacated mount is taken back from knullfs and its old superblock waits in fsnotify_sb_delete() for good'')),
     (''mntvacant_marks_no_gate'', (True, [''H1'', ''H2''], 1, [2, 3], ''any'', [''FIX_MARK_GATE''],
     [(''Marks'', ''TRUE'')], VAC_SAFETY,
     ''violation: NoWarn (free_marks) or WatchedBalanced, a mark placed on a vacant mount after its release is never cleared'')),
     (''mntvacant_witness_vacate'', (True, [''H1'', ''H2''], 1, [2, 3], ''any'', [], [], [''NoVacate''],
     ''violation'')),
     (''mntvacant_witness_walker_vacate'', (True, [''H1'', ''H2''], 1, [2, 3], ''any'', [], [],
     [''NoWalkerVacate''], ''violation'')),
     (''mntvacant_witness_pin_doom'', (True, [''H1'', ''H2''], 1, [2, 3], ''any'', [], [], [''NoPinDoom''],
     ''violation'')),
     (''mntvacant_witness_put_first'', (True, [''H1'', ''H2''], 1, [2, 3], ''any'', [], [],
     [''NoPutFirst''], ''violation'')),
     (''mntvacant_witness_release_first'', (True, [''H1'', ''H2''], 1, [2, 3], ''any'', [], [],
     [''NoReleaseFirst''], ''violation'')),
     (''mntvacant_witness_detach_put'', (True, [''H1'', ''H2''], 1, [2, 3], ''any'', [], [],
     [''NoDetachPut''], ''violation'')),
     (''mntvacant_witness_null_seen'', (True, [''H1'', ''H2''], 1, [2, 3], ''any'', [], [],
     [''NoNullSeen''],
     ''violation: NoNullSeen, a walk through the held parent lands on the knullfs directory that stands in for the vacated mount'')),
     (''mntvacant_witness_mark_refused'', (True, [''H1'', ''H2''], 1, [2, 3], ''any'', [], [(''Marks'',
     ''TRUE'')], [''NoMarkRefused''],
     ''violation: NoMarkRefused, fanotify refuses a mount mark on the stand-in'')),
     (''mntvacant_witness_rcu_teardown'', (True, [''H1'', ''H2''], 1, [2, 3], ''any'', [], [],
     [''NoRcuTeardown''], ''violation'')),
     (''mntvacant_witness_rcu_teardown_upstream'', (False, [''H1''], 1, [2, 3], ''any'', [''FIX_OWN_REF''],
     [], [''NoRcuTeardown''], ''violation'')),
     (''mntvacant_noref'', (True, [''H1'', ''H2''], 1, [2, 3], ''any'', [], NR, NOREF_SAFETY, ''pass'')),
     (''mntvacant_noref_nopins'', (False, [''H1'', ''H2''], 1, [2, 3], ''any'', [], NR, NOREF_SAFETY,
     ''pass'')),
     (''mntvacant_noref_noholder'', (True, [], 0, [2, 3], ''any'', [], NR, NOREF_SAFETY, ''pass'')),
     (''mntvacant_noref_walk2'', (True, [''H1'', ''H2''], 2, [2, 3], ''any'', [], NR, NOREF_SAFETY,
     ''pass'')),
     (''mntvacant_noref_2walkers'', (True, [''H1''], 1, [2], ''any'', [], dmerge NR [(''Walkers'',
     ''{"W1", "W2"}'')], NOREF_SAFETY, ''pass'')),
     (''mntvacant_noref_inline'', (True, [''H1'', ''H2''], 1, [2, 3], ''any'', [], dmerge NR [(''U_INLINE'',
     ''TRUE'')], NOREF_SAFETY, ''pass'')),
     (''mntvacant_noref_marks'', (True, [''H1'', ''H2''], 1, [2, 3], ''any'', [], dmerge NR [(''Marks'',
     ''TRUE'')], NOREF_SAFETY, ''pass'')),
     (''mntvacant_noref_sum_only'', (True, [''H1'', ''H2''], 1, [2, 3], ''any'', [], dmerge NR
     [(''NOREF_MARK'', ''FALSE''), (''NOREF_TRUST_MARK'', ''FALSE'')], VAC_SAFETY @ [''NoOwnerPut''],
     ''pass'')),
     (''mntvacant_noref_no_mark'', (True, [''H1'', ''H2''], 1, [2, 3], ''any'', [], dmerge NR
     [(''NOREF_MARK'', ''FALSE'')], NOREF_SAFETY,
     ''violation: NoDangling or NoWarn, the parent frees a stand-in a walk still holds'')),
     (''mntvacant_noref_no_sum'', (True, [''H1'', ''H2''], 1, [2, 3], ''any'', [], dmerge NR
     [(''NOREF_SUM'', ''FALSE'')], NOREF_SAFETY,
     ''violation: Reaped, a marked stand-in nobody holds anymore is disowned but never freed'')),
     (''mntvacant_noref_hashed_dooms'', (True, [''H1'', ''H2''], 1, [2, 3], ''any'', [], dmerge NR
     [(''NOREF_HASHED_DOOMS'', ''TRUE'')], NOREF_SAFETY,
     ''violation: HashedHasRef, NoHang or NoDangling, a doomed stand-in stays in the hash'')),
     (''mntvacant_noref_detach_leak'', (True, [''H1'', ''H2''], 1, [2, 3], ''any'', [], dmerge NR
     [(''NOREF_DETACH_FREES'', ''FALSE'')], NOREF_SAFETY, ''violation: Reaped'')),
     (''mntvacant_noref_witness_dead_free'', (True, [''H1'', ''H2''], 1, [2, 3], ''any'', [], NR,
     [''NoDeadFree''], ''violation'')),
     (''mntvacant_noref_witness_hashed_zero'', (True, [''H1'', ''H2''], 1, [2, 3], ''any'', [], NR,
     [''NoHashedZero''], ''violation'')),
     (''mntvacant_noref_witness_put_first'', (True, [''H1'', ''H2''], 1, [2, 3], ''any'', [], NR,
     [''NoPutFirst''], ''violation'')),
     (''mntvacant_noref_witness_release_first'', (True, [''H1'', ''H2''], 1, [2, 3], ''any'', [], NR,
     [''NoReleaseFirst''], ''violation''))]\<close>

definition vac_lines_with :: "(string \<times> string) list \<Rightarrow> string \<Rightarrow> vac_config \<Rightarrow> string list result" where
  \<open>vac_lines_with other_table name = (\<lambda>(pins, holders, budget, targets, order, off, other, invs, expect).
     Inr ([remark (''generated by gen-cfgs.py: MntVacant, expected: '' @ expect), ''SPECIFICATION Spec'', ''CONSTANTS'',
           ''  MntIds = {1, 2, 3}'', ''  Parent <- ParentDef'', ''  SbIds = {"p", "m", "g"}'', ''  Sb <- SbDef'',
           ''  NullSb = "n"'', ''  Pin <- '' @ (if pins then ''PinDef'' else ''NoPinDef''),
           ''  Holders = {'' @ join '', '' (map (\<lambda>h. ''"'' @ h @ ''"'') holders) @ ''}'', ''  HolderMnt <- HolderMntDef'',
           ''  Walkers = '' @ get_or other ''Walkers'' ''{"W1"}'', ''  WalkBudget = '' @ show_int budget,
           ''  DetachTargets = {'' @ join '', '' (map show_int targets) @ ''}'',
           ''  HOLDER_ORDER = "'' @ order @ ''"'']
          @ switch_lines VAC_FIXES off
          @ map (\<lambda>(c, default). asg c (get_or other c default)) other_table
          @ [''INVARIANTS''] @ map indent invs))\<close>

definition vac_lines :: "string \<Rightarrow> vac_config \<Rightarrow> string list result" where
  "vac_lines = vac_lines_with VAC_OTHER"

section \<open>The script\<close>

definition gen :: "dir \<Rightarrow> (dir \<times> string) result" where
  "gen d = bindE (write_all mw_lines MW_CONFIGS d) (\<lambda>d.
     bindE (write_all vac_lines VAC_CONFIGS d) (\<lambda>d.
     Inr (d, show_nat (length MW_CONFIGS + length VAC_CONFIGS) @ '' configurations written'')))"

text \<open>The constants of \<^verbatim>\<open>MountWalk.tla\<close> and \<^verbatim>\<open>MntVacant.tla\<close>, which the layout modules extend\<close>

definition WALK_CONSTANTS :: "string list" where
  "WALK_CONSTANTS =
     [''Dentries'', ''DParent'', ''DName'', ''DSb'', ''SbRoot'', ''Negative'', ''RootSb'', ''NewSb'',
     ''NewRoot'', ''NullSb'', ''MntIds'', ''Walkers'', ''WProg'', ''WRoot'', ''WScoped'', ''MaxRestarts'',
     ''Mounts'', ''CHANGE'', ''Victim'', ''FIX_RECHECK_MISS'', ''FIX_RECHECK_HOP'', ''FIX_RECHECK_DOTDOT'',
     ''FIX_SCOPED_EAGAIN'', ''FIX_RCU_FREE'', ''FIX_VACANT_CONNECTED'', ''FIX_DOTDOT_MSEQ'',
     ''WEAK_VACATE'']"

definition VACANT_CONSTANTS :: "string list" where
  "VACANT_CONSTANTS =
     [''MntIds'', ''Parent'', ''SbIds'', ''Sb'', ''NullSb'', ''Pin'', ''Holders'', ''HolderMnt'',
     ''Walkers'', ''WalkBudget'', ''DetachTargets'', ''HOLDER_ORDER'', ''Marks'', ''U_INLINE'',
     ''FIX_OWN_REF'', ''VACATE_MODE'', ''FIX_PUT_VACANT_ONLY'', ''FIX_TREE_ORDER'',
     ''FIX_DETACH_PUTS_VACANT'', ''DETACH_PUTS_ALL'', ''FIX_DISOWNED'', ''FIX_HANDOFF_LOCKED'',
     ''FIX_LAST_UNDER_LOCK'', ''FIX_CONN_SB'', ''FIX_MARK_GATE'', ''RELEASE_PUTS'', ''NOREF'',
     ''NOREF_MARK'', ''NOREF_TRUST_MARK'', ''NOREF_SUM'', ''NOREF_HASHED_DOOMS'', ''NOREF_DETACH_FREES'']"

section \<open>The configurations the entries stand for\<close>

definition flips :: "string list \<Rightarrow> (string \<times> cval) list" where
  "flips flip = map (\<lambda>f. (f, Val (tf ((f \<notin> set MW_DEFAULT_OFF) \<noteq> (f \<in> set flip))))) MW_FIXES"

definition walk_spec :: "string \<Rightarrow> mw_config \<Rightarrow> tlc_cfg" where
  \<open>walk_spec name = (\<lambda>(layout, change, victim, mounts, flip, weak, invs, expect).
     \<lparr>cfg_comments = [banner ('': MountWalk ('' @ layout @ '')'') expect], cfg_spec = ''Spec'',
      cfg_consts = [(''Dentries'', Def ''DentriesDef''), (''DParent'', Def ''DParentDef''), (''DName'', Def ''DNameDef''),
         (''DSb'', Def ''DSbDef''), (''SbRoot'', Def ''SbRootDef''), (''Negative'', Def ''NegativeDef''),
         (''RootSb'', Val ''"S"''), (''NewSb'', Val ''"F"''), (''NewRoot'', Val (quoted (get_or MW_NEWROOT layout []))),
         (''NullSb'', Val ''"N"''), (''MntIds'', Val ''{1, 2, 3}''), (''Walkers'', Val ''{"W1", "W2"}''),
         (''WProg'', Def ''WProgDef''), (''WRoot'', Def ''WRootDef''), (''WScoped'', Def ''WScopedDef''),
         (''MaxRestarts'', Val ''3''), (''Mounts'', Val (show_int mounts)), (''CHANGE'', Val (quoted change)),
         (''Victim'', Val (show_int victim))] @ flips flip @ [(''WEAK_VACATE'', Val (tf weak))],
      cfg_invs = invs, cfg_props = []\<rparr>)\<close>

definition others :: "(string \<times> string) list \<Rightarrow> (string, string) dict \<Rightarrow> (string \<times> cval) list" where
  "others other_table other = map (\<lambda>(c, default). (c, Val (get_or other c default))) other_table"

definition vac_spec :: "(string \<times> string) list \<Rightarrow> string \<Rightarrow> vac_config \<Rightarrow> tlc_cfg" where
  \<open>vac_spec other_table name = (\<lambda>(pins, holders, budget, targets, order, off, other, invs, expect).
     \<lparr>cfg_comments = [banner '': MntVacant'' expect], cfg_spec = ''Spec'',
      cfg_consts = [(''MntIds'', Val ''{1, 2, 3}''), (''Parent'', Def ''ParentDef''), (''SbIds'', Val ''{"p", "m", "g"}''),
         (''Sb'', Def ''SbDef''), (''NullSb'', Val ''"n"''), (''Pin'', Def (if pins then ''PinDef'' else ''NoPinDef'')),
         (''Holders'', Val (braces (map quoted holders))), (''HolderMnt'', Def ''HolderMntDef''),
         (''Walkers'', Val (get_or other ''Walkers'' ''{"W1"}'')), (''WalkBudget'', Val (show_int budget)),
         (''DetachTargets'', Val (braces (map show_int targets))), (''HOLDER_ORDER'', Val (quoted order))]
         @ switches VAC_FIXES off @ others other_table other,
      cfg_invs = invs, cfg_props = []\<rparr>)\<close>

section \<open>Well-formed entries\<close>

definition mw_ok :: "string \<times> mw_config \<Rightarrow> bool" where
  "mw_ok = (\<lambda>(n, (layout, change, victim, mounts, flip, weak, invs, expect)).
     layout_of n = layout \<and> layout \<in> {''mountwalk'', ''mountwalk3''} \<and> change \<in> {''vacate'', ''umount'', ''move''}
     \<and> invs \<noteq> [] \<and> entry_ok MW_FIXES flip invs [] expect)"

definition vac_ok :: "(string \<times> string) list \<Rightarrow> string \<times> vac_config \<Rightarrow> bool" where
  "vac_ok other_table = (\<lambda>(n, (pins, holders, budget, targets, order, off, other, invs, expect)).
     layout_of n = ''mntvacant'' \<and> list_all plain holders \<and> plain order \<and> distinct (dkeys other)
     \<and> list_all (\<lambda>(k, v). List.member (''Walkers'' # map fst other_table) k \<and> plain v) other
     \<and> invs \<noteq> [] \<and> entry_ok VAC_FIXES off invs [] expect)"

definition others_ok :: "(string \<times> string) list \<Rightarrow> bool" where
  "others_ok t = (list_all (\<lambda>(k, v). ident k \<and> plain v) t \<and> distinct (map fst t))"

definition vacate_modules :: "string \<Rightarrow> string list option" where
  "vacate_modules m = map_of [(''MC_mountwalk'', WALK_CONSTANTS), (''MC_mountwalk3'', WALK_CONSTANTS),
     (''MC_mntvacant'', VACANT_CONSTANTS)] m"

definition walk_names :: "string list" where
  "walk_names = [''Dentries'', ''DParent'', ''DName'', ''DSb'', ''SbRoot'', ''Negative'', ''RootSb'', ''NewSb'', ''NewRoot'',
     ''NullSb'', ''MntIds'', ''Walkers'', ''WProg'', ''WRoot'', ''WScoped'', ''MaxRestarts'', ''Mounts'', ''CHANGE'', ''Victim'']
     @ MW_FIXES @ [''WEAK_VACATE'']"

definition vac_names :: "string list \<Rightarrow> string list" where
  "vac_names keys = [''MntIds'', ''Parent'', ''SbIds'', ''Sb'', ''NullSb'', ''Pin'', ''Holders'', ''HolderMnt'', ''Walkers'',
     ''WalkBudget'', ''DetachTargets'', ''HOLDER_ORDER''] @ VAC_FIXES @ keys"

lemma vacate_facts:
  "list_all mw_ok MW_CONFIGS" "distinct (map fst MW_CONFIGS)" "list_all (vac_ok VAC_OTHER) VAC_CONFIGS"
  "distinct (map fst VAC_CONFIGS)" "others_ok VAC_OTHER" "list_all ident VAC_FIXES" "list_all ident MW_FIXES"
  "distinct walk_names \<and> set walk_names = set WALK_CONSTANTS"
  "distinct (vac_names (map fst VAC_OTHER)) \<and> set (vac_names (map fst VAC_OTHER)) = set VACANT_CONSTANTS"
  by code_simp+

lemma flips_lines [cfg_simps]: "map const_line (flips flip) = flip_lines flip"
  by (simp add: flips_def flip_lines_def tf_def Let_def)

lemma flips_ok: "list_all const_ok (flips flip)" "list_all (\<lambda>(k, v). no_colon (cval_text v)) (flips flip)"
  using vacate_facts(7) by (auto simp: flips_def list_all_iff const_ok_def tf_def)

lemma walk_entry:
  assumes "mw_ok (n, e)"
  shows "mw_lines n e = Inr (cfg_lines (walk_spec n e))" "wf_cfg (walk_spec n e) \<and> quiet (walk_spec n e)"
proof -
  obtain layout change victim mounts flip weak invs expect where
    e: "e = (layout, change, victim, mounts, flip, weak, invs, expect)" by (cases e rule: tuple8_cases)
  have "layout \<in> {''mountwalk'', ''mountwalk3''}" using assms by (simp add: e mw_ok_def)
  then obtain r where r: "map_of MW_NEWROOT layout = Some r" "plain r" by (auto simp: MW_NEWROOT_def plain_def one_line_def)
  show "mw_lines n e = Inr (cfg_lines (walk_spec n e))"
    using assms r by (simp add: e mw_ok_def mw_lines_def walk_spec_def cfg_simps quoted_def item_def dget_def get_or_def tf_def)
  show "wf_cfg (walk_spec n e) \<and> quiet (walk_spec n e)"
    using assms r flips_ok [of flip]
    by (auto simp: e mw_ok_def walk_spec_def wf_cfg_def quiet_def entry_ok_def ident_eval quoted_def get_or_def plain_def)
qed

lemma others_lines [cfg_simps]: "map const_line (others t other) = map (\<lambda>(c, default). asg c (get_or other c default)) t"
  by (induction t) (auto simp: others_def)

lemma vac_entry:
  assumes "others_ok t" "vac_ok t (n, e)"
  shows "vac_lines_with t n e = Inr (cfg_lines (vac_spec t n e))" "wf_cfg (vac_spec t n e) \<and> quiet (vac_spec t n e)"
proof -
  obtain pins holders budget targets order off other invs expect where
    e: "e = (pins, holders, budget, targets, order, off, other, invs, expect)" by (cases e rule: tuple9_cases)
  have ok: "list_all plain holders" "plain order" "invs \<noteq> []" "entry_ok VAC_FIXES off invs [] expect"
      "list_all (\<lambda>(k, v). List.member (''Walkers'' # map fst t) k \<and> plain v) other"
    using assms(2) by (simp_all add: e vac_ok_def)
  show "vac_lines_with t n e = Inr (cfg_lines (vac_spec t n e))"
    using ok(3) by (simp add: e vac_lines_with_def vac_spec_def cfg_simps quoted_def [abs_def] braces_def)
  have \<open>plain ''{"W1"}''\<close> by code_simp
  from plain_get [OF this ok(5)] have w: \<open>plain (get_or other ''Walkers'' ''{"W1"}'')\<close> .
  have "plain (get_or other k v)" if "(k, v) \<in> set t" for k v
    using plain_get [OF _ ok(5), of v k] that assms(1) by (auto simp: others_ok_def list_all_iff)
  then have o: "list_all const_ok (others t other)" "list_all (\<lambda>(k, v). no_colon (cval_text v)) (others t other)"
    using assms(1) by (auto simp: others_def others_ok_def list_all_iff const_ok_def plain_def)
  have h: "list_all no_colon (map quoted holders)" "list_all one_line (map quoted holders)"
    using ok(1) by (auto simp: list_all_iff plain_def quoted_def one_line_def)
  have i: "list_all no_colon (map show_int targets)" "list_all one_line (map show_int targets)"
    by (simp_all add: list_all_iff)
  show "wf_cfg (vac_spec t n e) \<and> quiet (vac_spec t n e)"
    using ok w o h i vacate_facts(6) [THEN switches_ok]
    by (simp add: e vac_spec_def wf_cfg_def quiet_def entry_ok_def ident_eval quoted_def plain_def no_colon_braces one_line_braces)
qed

definition mw_expect :: "mw_config \<Rightarrow> string" where
  "mw_expect = (\<lambda>(layout, change, victim, mounts, flip, weak, invs, expect). expect)"

definition vac_expect :: "vac_config \<Rightarrow> string" where
  "vac_expect = (\<lambda>(pins, holders, budget, targets, order, off, other, invs, expect). expect)"

lemma walk_assigns: "assigns (walk_spec n e) WALK_CONSTANTS"
proof (rule assignsI [OF _ vacate_facts(8)])
  show "map fst (cfg_consts (walk_spec n e)) = walk_names"
    by (cases e rule: tuple8_cases) (simp add: walk_spec_def walk_names_def flips_def comp_def)
qed

interpretation walk: cfg_suite mw_lines walk_spec MW_CONFIGS mw_expect mw_ok "\<lambda>n. vacate_modules (check_module n)"
proof
  fix n e assume ok: "mw_ok (n, e)"
  show "clear (mw_expect e) \<and> (\<exists>what rest. cfg_comments (walk_spec n e) = banner what (mw_expect e) # rest)"
    using ok by (cases e rule: tuple8_cases) (auto simp: mw_ok_def entry_ok_def mw_expect_def walk_spec_def)
  from walk_assigns
  show "\<exists>ks. vacate_modules (check_module n) = Some ks \<and> assigns (walk_spec n e) ks"
    using ok by (cases e rule: tuple8_cases) (auto simp: mw_ok_def vacate_modules_def check_module_def)
qed (rule vacate_facts(1,2) walk_entry; assumption?)+

lemma vac_spec_names: "map fst (cfg_consts (vac_spec t n e)) = vac_names (map fst t)"
  by (cases e rule: tuple9_cases) (simp add: vac_spec_def vac_names_def switches_def others_def comp_def split_beta)

lemma vac_expect_ok:
  "vac_ok t (n, e) \<Longrightarrow> clear (vac_expect e) \<and> (\<exists>what rest. cfg_comments (vac_spec t n e) = banner what (vac_expect e) # rest)"
  by (cases e rule: tuple9_cases) (auto simp: vac_ok_def entry_ok_def vac_expect_def vac_spec_def)

interpretation vacant: cfg_suite vac_lines "vac_spec VAC_OTHER" VAC_CONFIGS vac_expect "vac_ok VAC_OTHER"
    "\<lambda>n. vacate_modules (check_module n)"
proof
  fix n e assume ok: "vac_ok VAC_OTHER (n, e)"
  show "vac_lines n e = Inr (cfg_lines (vac_spec VAC_OTHER n e))"
    unfolding vac_lines_def by (rule vac_entry(1) [OF vacate_facts(5) ok])
  from assignsI [OF vac_spec_names vacate_facts(9)]
  show "\<exists>ks. vacate_modules (check_module n) = Some ks \<and> assigns (vac_spec VAC_OTHER n e) ks"
    using ok by (cases e rule: tuple9_cases) (simp add: vac_ok_def vacate_modules_def check_module_def)
qed (rule vacate_facts(3,4) vac_entry(2) [OF vacate_facts(5)] vac_expect_ok; assumption?)+

section \<open>Properties\<close>

definition vacate_specs :: "(string \<times> tlc_cfg) list" where
  "vacate_specs = specs walk_spec MW_CONFIGS @ specs (vac_spec VAC_OTHER) VAC_CONFIGS"

lemma vacate_names: "distinct (map fst vacate_specs)"
proof -
  have "list_all (\<lambda>n. List.member [''mo''] (take 2 n)) (map fst MW_CONFIGS)"
    "list_all (\<lambda>n. List.member [''mn''] (take 2 n)) (map fst VAC_CONFIGS)" by code_simp+
  with vacate_facts(2,4) have "tagged (take 2) [[''mo''], [''mn'']] [map fst MW_CONFIGS, map fst VAC_CONFIGS]"
    by (simp add: list_all_iff List.member_iff)
  from tagged_distinct [OF this] have "distinct (map fst MW_CONFIGS @ map fst VAC_CONFIGS)" by simp
  then show ?thesis by (simp add: vacate_specs_def)
qed

lemma vacate_gen:
  "gen d = Inr (put_all vacate_specs d, show_nat (length vacate_specs) @ '' configurations written'')"
  unfolding gen_def walk.write_all_eq vacant.write_all_eq bindE_simps
  by (simp add: vacate_specs_def put_all_append specs_def)

text \<open>
  The script never fails, in whatever directory it runs: every file that is no configuration of
  its tables keeps its content, and every entry of the two tables reads back as it says, with exactly
  the constants of the module that check.sh runs it with and the expectation of the entry; the number
  printed is the number of configurations.\<close>

theorem vacate_generated:
  "\<exists>d'. gen d = Inr (d', show_nat (length MW_CONFIGS + length VAC_CONFIGS) @ '' configurations written'')
     \<and> cfgs_written vacate_specs d d'
     \<and> delivered MW_CONFIGS walk_spec mw_expect (\<lambda>n. vacate_modules (check_module n)) d'
     \<and> delivered VAC_CONFIGS (vac_spec VAC_OTHER) vac_expect (\<lambda>n. vacate_modules (check_module n)) d'"
proof -
  let ?d = "put_all vacate_specs d"
  have "list_all (\<lambda>(n, c). wf_cfg c) vacate_specs"
    using walk.specs_fit vacant.specs_fit by (simp add: vacate_specs_def)
  from put_all_written [OF vacate_names this] have "cfgs_written vacate_specs d ?d" .
  moreover have "delivered MW_CONFIGS walk_spec mw_expect (\<lambda>n. vacate_modules (check_module n)) ?d"
    by (rule walk.delivers [OF vacate_names]) (simp add: vacate_specs_def)
  moreover have "delivered VAC_CONFIGS (vac_spec VAC_OTHER) vac_expect (\<lambda>n. vacate_modules (check_module n)) ?d"
    by (rule vacant.delivers [OF vacate_names]) (simp add: vacate_specs_def)
  moreover have "length vacate_specs = length MW_CONFIGS + length VAC_CONFIGS"
    by (simp add: vacate_specs_def specs_def)
  ultimately show ?thesis using vacate_gen [of d] by auto
qed

end
