(* ===== verification/Cfg_Order.thy ===== *)
theory Cfg_Order
  imports Cfg_Vacate
begin

text \<open>
  \<^verbatim>\<open>kernel/work.mount.knullfs.7.order/tla/gen-cfgs.py\<close>: the walk and the vacant-mount protocol
  again, with buffered stores, and the propagation algebra with the series' \<^verbatim>\<open>propagate_umount()\<close>.
\<close>

section \<open>The walk\<close>

text \<open>This part of the script is the first part of the script for \<^verbatim>\<open>work.mount.knullfs.4\<close>, line for line.\<close>

definition walk_table :: "(string, mw_config) dict" where
  "walk_table = MW_CONFIGS"

definition walk_lines :: "string \<Rightarrow> mw_config \<Rightarrow> string list result" where
  "walk_lines = mw_lines"

section \<open>The vacant-mount protocol\<close>

definition VAC_FIXES :: "string list" where
  \<open>VAC_FIXES =
     [''FIX_OWN_REF'', ''FIX_PUT_VACANT_ONLY'', ''FIX_TREE_ORDER'', ''FIX_DETACH_PUTS_VACANT'',
     ''FIX_DISOWNED'', ''FIX_HANDOFF_LOCKED'', ''FIX_LAST_UNDER_LOCK'', ''FIX_CONN_SB'', ''FIX_MARK_GATE'']\<close>

definition VAC_SAFETY :: "string list" where
  \<open>VAC_SAFETY =
     [''TypeOK'', ''NoNegative'', ''NoWarn'', ''ExactlyOnce'', ''NoDangling'', ''HashedHasRef'',
     ''DoomedIsLast'', ''OwnRefOnRing'', ''VacantCount'', ''VacantOK'', ''KnullfsOK'', ''NoVacantOnRing'',
     ''NoReveal'', ''NoHang'', ''NoNegativeWatch'', ''NoTeardownHang'', ''WatchedBalanced'', ''Reaped'']\<close>

definition VAC_OTHER :: "(string \<times> string) list" where
  \<open>VAC_OTHER =
     [(''VACATE_MODE'', ''"vacate"''), (''DETACH_PUTS_ALL'', ''FALSE''), (''RELEASE_PUTS'', ''FALSE''),
     (''Marks'', ''FALSE''), (''U_INLINE'', ''FALSE''), (''NOREF'', ''FALSE''), (''NOREF_MARK'', ''TRUE''),
     (''NOREF_TRUST_MARK'', ''TRUE''), (''NOREF_SUM'', ''TRUE''), (''NOREF_HASHED_DOOMS'', ''FALSE''),
     (''NOREF_DETACH_FREES'', ''TRUE''), (''MARK_STORES'', ''"sc"''), (''FIX_LOCK_DOOMED'', ''TRUE'')]\<close>

definition NR :: "(string, string) dict" where
  \<open>NR =
     [(''NOREF'', ''TRUE'')]\<close>

definition NOREF_SAFETY :: "string list" where
  \<open>NOREF_SAFETY =
     VAC_SAFETY @ [''HeldCoversRefs'', ''NoOwnerPut'']\<close>

definition NRT :: "(string, string) dict" where
  \<open>NRT =
     dmerge NR [(''MARK_STORES'', ''"tso"'')]\<close>

definition NRW :: "(string, string) dict" where
  \<open>NRW =
     dmerge NR [(''MARK_STORES'', ''"weak"'')]\<close>

definition VAC_CONFIGS :: "(string, vac_config) dict" where
  \<open>VAC_CONFIGS = [
     (''mntvacant_fixed'', (True, [''H1'', ''H2''], 1, [2, 3], ''any'', [], [], VAC_SAFETY, ''pass'')),
     (''mntvacant_noref'', (True, [''H1'', ''H2''], 1, [2, 3], ''any'', [], NR, NOREF_SAFETY, ''pass'')),
     (''mntvacant_noref_nopins'', (False, [''H1'', ''H2''], 1, [2, 3], ''any'', [], NR, NOREF_SAFETY,
     ''pass'')),
     (''mntvacant_noref_noholder'', (True, [], 0, [2, 3], ''any'', [], NR, NOREF_SAFETY, ''pass'')),
     (''mntvacant_noref_walk2'', (True, [''H1'', ''H2''], 2, [2, 3], ''any'', [], NR, NOREF_SAFETY,
     ''pass'')),
     (''mntvacant_noref_2walkers'', (True, [''H1''], 1, [2], ''any'', [], dmerge NR [(''Walkers'',
     ''{"W1", "W2"}'')], NOREF_SAFETY, ''pass'')),
     (''mntvacant_noref_inline'', (True, [''H1'', ''H2''], 1, [2, 3], ''any'', [], dmerge NR [(''U_INLINE'',
     ''TRUE'')], NOREF_SAFETY, ''pass'')),
     (''mntvacant_noref_marks'', (True, [''H1'', ''H2''], 1, [2, 3], ''any'', [], dmerge NR [(''Marks'',
     ''TRUE'')], NOREF_SAFETY, ''pass'')),
     (''mntvacant_noref_sum_only'', (True, [''H1'', ''H2''], 1, [2, 3], ''any'', [], dmerge NR
     [(''NOREF_MARK'', ''FALSE''), (''NOREF_TRUST_MARK'', ''FALSE'')], VAC_SAFETY @ [''NoOwnerPut''],
     ''pass'')),
     (''mntvacant_noref_no_mark'', (True, [''H1'', ''H2''], 1, [2, 3], ''any'', [], dmerge NR
     [(''NOREF_MARK'', ''FALSE'')], NOREF_SAFETY,
     ''violation: NoDangling or NoWarn, the parent frees a stand-in a walk still holds'')),
     (''mntvacant_noref_no_sum'', (True, [''H1'', ''H2''], 1, [2, 3], ''any'', [], dmerge NR
     [(''NOREF_SUM'', ''FALSE'')], NOREF_SAFETY,
     ''violation: Reaped, a marked stand-in nobody holds anymore is disowned but never freed'')),
     (''mntvacant_noref_hashed_dooms'', (True, [''H1'', ''H2''], 1, [2, 3], ''any'', [], dmerge NR
     [(''NOREF_HASHED_DOOMS'', ''TRUE'')], NOREF_SAFETY,
     ''violation: HashedHasRef, NoHang or NoDangling, a doomed stand-in stays in the hash'')),
     (''mntvacant_noref_detach_leak'', (True, [''H1'', ''H2''], 1, [2, 3], ''any'', [], dmerge NR
     [(''NOREF_DETACH_FREES'', ''FALSE'')], NOREF_SAFETY, ''violation: Reaped'')),
     (''mntvacant_noref_witness_dead_free'', (True, [''H1'', ''H2''], 1, [2, 3], ''any'', [], NR,
     [''NoDeadFree''], ''violation'')),
     (''mntvacant_noref_witness_hashed_zero'', (True, [''H1'', ''H2''], 1, [2, 3], ''any'', [], NR,
     [''NoHashedZero''], ''violation'')),
     (''mntvacant_noref_witness_put_first'', (True, [''H1'', ''H2''], 1, [2, 3], ''any'', [], NR,
     [''NoPutFirst''], ''violation'')),
     (''mntvacant_noref_witness_release_first'', (True, [''H1'', ''H2''], 1, [2, 3], ''any'', [], NR,
     [''NoReleaseFirst''], ''violation'')),
     (''mntvacant_noref_tso'', (True, [''H1'', ''H2''], 1, [2, 3], ''any'', [], NRT, NOREF_SAFETY,
     ''pass'')),
     (''mntvacant_noref_weak'', (True, [''H1'', ''H2''], 1, [2, 3], ''any'', [], NRW, NOREF_SAFETY,
     ''pass'')),
     (''mntvacant_noref_weak_nopins'', (False, [''H1'', ''H2''], 1, [2, 3], ''any'', [], NRW, NOREF_SAFETY,
     ''pass'')),
     (''mntvacant_noref_weak_walk2'', (True, [''H1'', ''H2''], 2, [2, 3], ''any'', [], NRW, NOREF_SAFETY,
     ''pass'')),
     (''mntvacant_noref_weak_2walkers'', (True, [''H1''], 1, [2], ''any'', [], dmerge NRW [(''Walkers'',
     ''{"W1", "W2"}'')], NOREF_SAFETY, ''pass'')),
     (''mntvacant_noref_weak_inline'', (True, [''H1'', ''H2''], 1, [2, 3], ''any'', [], dmerge NRW
     [(''U_INLINE'', ''TRUE'')], NOREF_SAFETY, ''pass'')),
     (''mntvacant_noref_weak_no_mark'', (True, [''H1'', ''H2''], 1, [2, 3], ''any'', [], dmerge NRW
     [(''NOREF_MARK'', ''FALSE'')], NOREF_SAFETY,
     ''violation: NoDangling or NoWarn, the parent frees a stand-in a walk still holds'')),
     (''mntvacant_noref_weak_no_lock_doomed'', (True, [''H1'', ''H2''], 1, [2, 3], ''any'', [], dmerge NRW
     [(''FIX_LOCK_DOOMED'', ''FALSE'')], [''NoDangling'', ''NoWarn'', ''ExactlyOnce'', ''Reaped''],
     ''violation: NoDangling or NoWarn (put_doomed, double_free), the walker's mntput() reaches a stand-in the release freed'')),
     (''mntvacant_noref_tso_no_lock_doomed'', (True, [''H1'', ''H2''], 1, [2, 3], ''any'', [], dmerge NRT
     [(''FIX_LOCK_DOOMED'', ''FALSE'')], [''NoDangling'', ''NoWarn'', ''ExactlyOnce'', ''Reaped''],
     ''violation: NoDangling or NoWarn (put_doomed, double_free), the walker's mntput() reaches a stand-in the release freed'')),
     (''mntvacant_noref_tso_no_lock_doomed_last'', (True, [''H1'', ''H2''], 1, [2, 3], ''any'', [], dmerge
     NRT [(''FIX_LOCK_DOOMED'', ''FALSE'')], NOREF_SAFETY,
     ''violation: DoomedIsLast, the walker keeps an increment on the doomed stand-in that the lock path should have taken back'')),
     (''mntvacant_noref_weak_no_lock_doomed_uaf'', (True, [''H1'', ''H2''], 1, [2, 3], ''any'', [], dmerge
     NRW [(''FIX_LOCK_DOOMED'', ''FALSE'')], [''NoDangling'', ''ExactlyOnce'', ''Reaped''],
     ''violation: NoDangling, the release frees the doomed stand-in and its RCU callback runs once the walker left its read section, before the walker's mntput()'')),
     (''mntvacant_noref_sc_no_lock_doomed'', (True, [''H1'', ''H2''], 1, [2, 3], ''any'', [], dmerge NR
     [(''FIX_LOCK_DOOMED'', ''FALSE'')], NOREF_SAFETY,
     ''pass: with the first read_seqretry(), the mark and the increment in one step no verdict lands in between, so the window the check closes is invisible to the sequentially consistent model'')),
     (''mntvacant_noref_weak_witness_split'', (True, [''H1'', ''H2''], 1, [2, 3], ''any'', [], NRW,
     [''NoSplit''], ''violation'')),
     (''mntvacant_noref_weak_witness_phantom'', (True, [''H1'', ''H2''], 1, [2, 3], ''any'', [], NRW,
     [''NoPhantom''], ''violation'')),
     (''mntvacant_noref_tso_witness_phantom'', (True, [''H1'', ''H2''], 1, [2, 3], ''any'', [], NRT,
     [''NoPhantom''], ''violation'')),
     (''mntvacant_noref_sc_witness_phantom'', (True, [''H1'', ''H2''], 1, [2, 3], ''any'', [], NR,
     [''NoPhantom''], ''pass: the one-step fast path never meets a verdict''))]\<close>

definition vac_lines :: "string \<Rightarrow> vac_config \<Rightarrow> string list result" where
  "vac_lines = vac_lines_with VAC_OTHER"

section \<open>The propagation algebra\<close>

text \<open>layout, series toggles, fixes off, invariants, expectation, overrides\<close>

type_synonym prop_config = "string \<times> (string, string) dict \<times> string list \<times> string list \<times> string \<times> (string, pyval) dict"

definition PROP_FIXES :: "string list" where
  \<open>PROP_FIXES =
     [''FIX_TRIM_ANCESTORS'', ''FIX_HANDLE_LOCKED'', ''FIX_REPARENT_LATE'', ''FIX_FIND_MASTER_STOP'',
     ''FIX_TUCK_LOCK'', ''FIX_PUT_MNT_NS_DISCONNECT'', ''FIX_CLONE_UNBINDABLE'',
     ''FIX_SET_GROUP_UNBINDABLE'', ''FIX_BUSY_VICTIMS'']\<close>

definition PROP_MAINLINE_SAFETY :: "string list" where
  \<open>PROP_MAINLINE_SAFETY =
     [''TypeOK'', ''AlgebraOK'', ''Structure'', ''IteratorsOK'', ''NsOK'', ''RefsOK'', ''CoverOK'',
     ''SyncUmountNotBusy'', ''BusyMirrorOK'', ''DeadUnderDead'']\<close>

definition PROP_SAFETY :: "string list" where
  \<open>PROP_SAFETY =
     PROP_MAINLINE_SAFETY @ [''HandbackOK'']\<close>

definition PROP_LAYOUTS :: "(string, int \<times> int \<times> int \<times> int) dict" where
  \<open>PROP_LAYOUTS = [
     (''small'', (6, 3, 4, 1)),
     (''chain'', (10, 3, 3, 1)),
     (''peers'', (8, 3, 3, 1)),
     (''locked'', (9, 3, 3, 1)),
     (''parentcand'', (6, 2, 1, 1)),
     (''crossbind'', (9, 2, 1, 1)),
     (''propns'', (9, 3, 1, 1))]\<close>

definition SERIES :: "(string, string) dict" where
  \<open>SERIES =
     [(''KEEP_LINKED'', ''TRUE''), (''ROOT_BY_ROOT'', ''TRUE''), (''TRACK_UNDECIDED'', ''TRUE'')]\<close>

definition MAINLINE :: "(string, string) dict" where
  \<open>MAINLINE =
     [(''KEEP_LINKED'', ''FALSE''), (''ROOT_BY_ROOT'', ''FALSE''), (''TRACK_UNDECIDED'', ''TRUE'')]\<close>

definition KEEP_SPLICE :: "(string, string) dict" where
  \<open>KEEP_SPLICE =
     [(''KEEP_LINKED'', ''TRUE''), (''ROOT_BY_ROOT'', ''FALSE''), (''TRACK_UNDECIDED'', ''TRUE'')]\<close>

definition NO_UNDECIDED :: "(string, string) dict" where
  \<open>NO_UNDECIDED =
     [(''KEEP_LINKED'', ''TRUE''), (''ROOT_BY_ROOT'', ''TRUE''), (''TRACK_UNDECIDED'', ''FALSE'')]\<close>

definition order_configs :: "(string, prop_config) dict \<Rightarrow> (string, prop_config) dict" where
  "order_configs c = foldl (\<lambda>c lay.
     AList.update (lay @ ''_order_mainline'') (lay, MAINLINE, [], PROP_MAINLINE_SAFETY, ''pass'', [])
       (AList.update (lay @ ''_order_fixed'') (lay, SERIES, [], PROP_SAFETY, ''pass'', []) c))
     c [''chain'', ''peers'', ''locked'', ''parentcand'', ''crossbind'', ''propns'']"

definition handback_configs :: "(string, prop_config) dict \<Rightarrow> (string, prop_config) dict" where
  "handback_configs c = foldl (\<lambda>c lay.
     AList.update (lay @ ''_order_mainline_handback'')
       (lay, MAINLINE, [], [''HandbackOK''],
        if lay = ''propns'' then ''violation: HandbackOK, the committed copies come children first''
        else ''violation: HandbackOK, the committed copies come children first (if a copy with a child is reached within the budget)'',
        []) c)
     c [''propns'', ''chain'', ''peers'', ''locked'']"

definition single_configs :: "(string, prop_config) dict" where
  \<open>single_configs = [
     (''propns_order_keep_splice'', (''propns'', KEEP_SPLICE, [], PROP_MAINLINE_SAFETY, ''pass'', [])),
     (''propns_order_keep_splice_handback'', (''propns'', KEEP_SPLICE, [], [''HandbackOK''],
     ''violation: HandbackOK, leaving the set linked does not order it, the walk does'', [])),
     (''crossbind_order_no_undecided'', (''crossbind'', NO_UNDECIDED, [], [''AlgebraOK'', ''Structure'',
     ''DeadUnderDead''],
     ''violation: AlgebraOK or Structure, 6 is unmounted with the surviving 7 inside it'', [])),
     (''locked_order_no_handle_locked'', (''locked'', SERIES, [''FIX_HANDLE_LOCKED''], [''AlgebraOK'',
     ''CoverOK''], ''violation'', [])),
     (''locked_order_no_trim'', (''locked'', SERIES, [''FIX_TRIM_ANCESTORS''], [''AlgebraOK'',
     ''Structure''], ''pass'', [])),
     (''crossbind_order_no_trim'', (''crossbind'', SERIES, [''FIX_TRIM_ANCESTORS''], [''AlgebraOK'',
     ''Structure''], ''violation'', [])),
     (''chain_order_witness_multiroot'', (''chain'', SERIES, [], [''NoMultiRoot''], ''violation'', [])),
     (''parentcand_order_witness_umoved'', (''parentcand'', SERIES, [], [''NoUMoved''], ''violation'', [])),
     (''locked_order_witness_reparent'', (''locked'', SERIES, [], [''NoReparent''], ''violation'', [])),
     (''locked_order_witness_connected'', (''locked'', SERIES, [], [''NoConnected''], ''violation'', []))]\<close>

definition PROP_CONFIGS :: "(string, prop_config) dict" where
  "PROP_CONFIGS = dmerge (handback_configs (order_configs [])) single_configs"

definition TOGGLES :: "string list" where
  "TOGGLES = [''KEEP_LINKED'', ''ROOT_BY_ROOT'', ''TRACK_UNDECIDED'']"

definition prop_lines :: "string \<Rightarrow> prop_config \<Rightarrow> string list result" where
  \<open>prop_lines name = (\<lambda>(layout, toggles, off, invs, expect, over).
     bindE (item PROP_LAYOUTS layout) (\<lambda>(nmnt, nns, ops, fds). let ops = get_or over ''ops'' (PInt ops) in
     bindE (mapE (\<lambda>c. bindE (item toggles c) (\<lambda>v. Inr (asg c v))) TOGGLES) (\<lambda>toggled.
     Inr ([remark (''generated by gen-cfgs.py: layout '' @ layout @ '' (the series' propagate_umount()), expected: '' @ expect),
           ''SPECIFICATION Spec'', ''CONSTANTS'',
           ''  MntIds = {'' @ join '', '' (upto_strs nmnt) @ ''}'', ''  NsIds = {'' @ join '', '' (upto_strs nns) @ ''}'',
           ''  Sbs <- SbsDef'', ''  Dentries <- DentriesDef'', ''  DSb <- DSbDef'', ''  DParent <- DParentDef'',
           ''  SbRoot <- SbRootDef'', ''  Procs <- ProcsDef'', ''  ProcUser <- ProcUserDef'', ''  InitSb = "N"'',
           ''  RootSb = "R"'', ''  MountSbs <- MountSbsDef'', ''  MaxOps = '' @ py_str ops,
           ''  MaxFds = '' @ show_int fds, ''  Prelude <- PreludeDef'']
          @ switch_lines PROP_FIXES off
          @ toggled
          @ [''  CHECK_DOC = '' @ (if truthy (get_or over ''doc'' (PBool False)) then ''TRUE'' else ''FALSE''),
             ''  FAILS = '' @ py_str (get_or over ''fails'' (PInt 0))]
          @ [''INVARIANTS''] @ map indent invs))))\<close>

section \<open>The script\<close>

definition gen :: "dir \<Rightarrow> (dir \<times> string) result" where
  "gen d = bindE (write_all walk_lines walk_table d) (\<lambda>d.
     bindE (write_all vac_lines VAC_CONFIGS d) (\<lambda>d.
     bindE (write_all prop_lines PROP_CONFIGS d) (\<lambda>d.
     Inr (d, show_nat (length walk_table + length VAC_CONFIGS + length PROP_CONFIGS) @ '' configurations written''))))"

text \<open>The constants of the modules: the layout modules extend \<^verbatim>\<open>MountOps\<close>, which extends
  \<^verbatim>\<open>Propagation\<close> and \<^verbatim>\<open>MountTree\<close>; \<^verbatim>\<open>MountWalk.tla\<close> is the one of \<^verbatim>\<open>work.mount.knullfs.4\<close>.\<close>

definition VACANT_CONSTANTS :: "string list" where
  "VACANT_CONSTANTS =
     [''MntIds'', ''Parent'', ''SbIds'', ''Sb'', ''NullSb'', ''Pin'', ''Holders'', ''HolderMnt'',
     ''Walkers'', ''WalkBudget'', ''DetachTargets'', ''HOLDER_ORDER'', ''Marks'', ''U_INLINE'',
     ''FIX_OWN_REF'', ''VACATE_MODE'', ''FIX_PUT_VACANT_ONLY'', ''FIX_TREE_ORDER'',
     ''FIX_DETACH_PUTS_VACANT'', ''DETACH_PUTS_ALL'', ''FIX_DISOWNED'', ''FIX_HANDOFF_LOCKED'',
     ''FIX_LAST_UNDER_LOCK'', ''FIX_CONN_SB'', ''FIX_MARK_GATE'', ''RELEASE_PUTS'', ''NOREF'',
     ''NOREF_MARK'', ''NOREF_TRUST_MARK'', ''NOREF_SUM'', ''NOREF_HASHED_DOOMS'', ''NOREF_DETACH_FREES'',
     ''MARK_STORES'', ''FIX_LOCK_DOOMED'']"

definition TREE_CONSTANTS :: "string list" where
  "TREE_CONSTANTS =
     [''MntIds'', ''NsIds'', ''Sbs'', ''Dentries'', ''DSb'', ''DParent'', ''SbRoot'']"

definition PROPAGATION_CONSTANTS :: "string list" where
  "PROPAGATION_CONSTANTS =
     [''FIX_TRIM_ANCESTORS'', ''FIX_HANDLE_LOCKED'', ''FIX_REPARENT_LATE'', ''FIX_FIND_MASTER_STOP'',
     ''FIX_TUCK_LOCK'', ''FIX_CLONE_UNBINDABLE'', ''FIX_SET_GROUP_UNBINDABLE'', ''FIX_BUSY_VICTIMS'',
     ''KEEP_LINKED'', ''ROOT_BY_ROOT'', ''TRACK_UNDECIDED'']"

definition OPS_CONSTANTS :: "string list" where
  "OPS_CONSTANTS =
     [''Procs'', ''ProcUser'', ''InitSb'', ''RootSb'', ''MountSbs'', ''MaxOps'', ''MaxFds'', ''Prelude'',
     ''FIX_PUT_MNT_NS_DISCONNECT'', ''CHECK_DOC'', ''FAILS'']"

definition order_modules :: "string \<Rightarrow> string list option" where
  "order_modules m = map_of (map (\<lambda>l. (''MC_'' @ l, TREE_CONSTANTS @ PROPAGATION_CONSTANTS @ OPS_CONSTANTS)) (dkeys PROP_LAYOUTS)
     @ [(''MC_mountwalk'', WALK_CONSTANTS), (''MC_mountwalk3'', WALK_CONSTANTS), (''MC_mntvacant'', VACANT_CONSTANTS)]) m"

section \<open>The configurations the entries stand for\<close>

definition toggle_consts :: "(string, string) dict \<Rightarrow> (string \<times> cval) list" where
  "toggle_consts toggles = map (\<lambda>c. (c, Val (get_or toggles c []))) TOGGLES"

definition prop_spec :: "string \<Rightarrow> prop_config \<Rightarrow> tlc_cfg" where
  \<open>prop_spec name = (\<lambda>(layout, toggles, off, invs, expect, over).
     case map_of PROP_LAYOUTS layout of None \<Rightarrow> empty_cfg | Some (nmnt, nns, ops, fds) \<Rightarrow>
     \<lparr>cfg_comments = [banner ('': layout '' @ layout @ '' (the series' propagate_umount())'') expect], cfg_spec = ''Spec'',
      cfg_consts = [(''MntIds'', Val (braces (upto_strs nmnt))), (''NsIds'', Val (braces (upto_strs nns))),
         (''Sbs'', Def ''SbsDef''), (''Dentries'', Def ''DentriesDef''), (''DSb'', Def ''DSbDef''),
         (''DParent'', Def ''DParentDef''), (''SbRoot'', Def ''SbRootDef''), (''Procs'', Def ''ProcsDef''),
         (''ProcUser'', Def ''ProcUserDef''), (''InitSb'', Val ''"N"''), (''RootSb'', Val ''"R"''),
         (''MountSbs'', Def ''MountSbsDef''), (''MaxOps'', Val (py_str (get_or over ''ops'' (PInt ops)))),
         (''MaxFds'', Val (show_int fds)), (''Prelude'', Def ''PreludeDef'')]
         @ switches PROP_FIXES off @ toggle_consts toggles
         @ [(''CHECK_DOC'', Val (tf (truthy (get_or over ''doc'' (PBool False))))),
            (''FAILS'', Val (py_str (get_or over ''fails'' (PInt 0))))],
      cfg_invs = invs, cfg_props = []\<rparr>)\<close>

definition prop_ok :: "string \<times> prop_config \<Rightarrow> bool" where
  "prop_ok = (\<lambda>(n, (layout, toggles, off, invs, expect, over)).
     layout_of n = layout \<and> List.member (dkeys PROP_LAYOUTS) layout \<and> one_line layout \<and> over_ok over
     \<and> list_all (\<lambda>c. case map_of toggles c of None \<Rightarrow> False | Some v \<Rightarrow> plain v) TOGGLES
     \<and> invs \<noteq> [] \<and> entry_ok PROP_FIXES off invs [] expect)"

definition prop_names :: "string list" where
  "prop_names = [''MntIds'', ''NsIds'', ''Sbs'', ''Dentries'', ''DSb'', ''DParent'', ''SbRoot'', ''Procs'', ''ProcUser'',
     ''InitSb'', ''RootSb'', ''MountSbs'', ''MaxOps'', ''MaxFds'', ''Prelude''] @ PROP_FIXES @ TOGGLES @ [''CHECK_DOC'', ''FAILS'']"

lemma order_facts:
  "list_all (vac_ok VAC_OTHER) VAC_CONFIGS" "distinct (map fst VAC_CONFIGS)" "others_ok VAC_OTHER"
  "VAC_FIXES = Cfg_Vacate.VAC_FIXES"
  "distinct (vac_names (map fst VAC_OTHER)) \<and> set (vac_names (map fst VAC_OTHER)) = set VACANT_CONSTANTS"
  "list_all ident PROP_FIXES" "list_all ident TOGGLES"
  "distinct prop_names \<and> set prop_names = set (TREE_CONSTANTS @ PROPAGATION_CONSTANTS @ OPS_CONSTANTS)"
  "list_all (\<lambda>l. order_modules (''MC_'' @ l) = Some (TREE_CONSTANTS @ PROPAGATION_CONSTANTS @ OPS_CONSTANTS)) (dkeys PROP_LAYOUTS)"
  by code_simp+

lemma prop_facts: "list_all prop_ok PROP_CONFIGS" "distinct (map fst PROP_CONFIGS)"
  by code_simp+

lemma toggled:
  assumes "list_all (\<lambda>c. case map_of toggles c of None \<Rightarrow> False | Some v \<Rightarrow> plain v) cs"
  shows "mapE (\<lambda>c. bindE (item toggles c) (\<lambda>v. Inr (asg c v))) cs = Inr (map (\<lambda>c. asg c (get_or toggles c [])) cs)"
  using assms by (induction cs) (auto simp: item_def dget_def get_or_def split: option.splits)

lemma toggle_ok:
  assumes "list_all (\<lambda>c. case map_of toggles c of None \<Rightarrow> False | Some v \<Rightarrow> plain v) TOGGLES"
  shows "list_all const_ok (toggle_consts toggles)" "list_all (\<lambda>(k, v). no_colon (cval_text v)) (toggle_consts toggles)"
  using assms order_facts(7)
  by (fastforce simp: toggle_consts_def list_all_iff const_ok_def get_or_def plain_def split: option.splits)+

lemma prop_entry:
  assumes "prop_ok (n, e)"
  shows "prop_lines n e = Inr (cfg_lines (prop_spec n e))" "wf_cfg (prop_spec n e) \<and> quiet (prop_spec n e)"
proof -
  obtain layout toggles off invs expect over where e: "e = (layout, toggles, off, invs, expect, over)" by (cases e)
  from assms have ok: "layout \<in> set (dkeys PROP_LAYOUTS)" "one_line layout" "over_ok over" "invs \<noteq> []"
      "entry_ok PROP_FIXES off invs [] expect"
      "list_all (\<lambda>c. case map_of toggles c of None \<Rightarrow> False | Some v \<Rightarrow> plain v) TOGGLES"
    by (simp_all add: e prop_ok_def)
  from dkeys_lookup [OF ok(1)] obtain nmnt nns ops fds where
    l: "map_of PROP_LAYOUTS layout = Some (nmnt, nns, ops, fds)" by (metis prod_cases4)
  show "prop_lines n e = Inr (cfg_lines (prop_spec n e))"
    using toggled [OF ok(6)]
    by (simp add: e prop_lines_def prop_spec_def l ok(4) cfg_simps item_def dget_def Let_def tf_def
        toggle_consts_def braces_def comp_def)
  have v: "one_line (py_str (get_or over k v)) \<and> no_colon (py_str (get_or over k v))" if "v \<in> {PInt ops, PInt 0}" for k v
    by (rule over_value) (use ok that in auto)
  show "wf_cfg (prop_spec n e) \<and> quiet (prop_spec n e)"
    using ok v toggle_ok [OF ok(6)] order_facts(6) [THEN switches_ok]
    by (simp add: e prop_spec_def l wf_cfg_def quiet_def entry_ok_def ident_eval)
qed

definition prop_expect :: "prop_config \<Rightarrow> string" where
  "prop_expect = (\<lambda>(layout, toggles, off, invs, expect, over). expect)"

interpretation order: cfg_suite prop_lines prop_spec PROP_CONFIGS prop_expect prop_ok "\<lambda>n. order_modules (check_module n)"
proof
  fix n e assume ok: "prop_ok (n, e)"
  obtain layout toggles off invs expect over where e: "e = (layout, toggles, off, invs, expect, over)" by (cases e)
  from ok have l: "layout_of n = layout" "layout \<in> set (dkeys PROP_LAYOUTS)" by (simp_all add: e prop_ok_def)
  from dkeys_lookup [OF l(2)] obtain v where v: "map_of PROP_LAYOUTS layout = Some v" by blast
  show "clear (prop_expect e) \<and> (\<exists>what rest. cfg_comments (prop_spec n e) = banner what (prop_expect e) # rest)"
    using ok by (cases v) (auto simp: e v prop_ok_def entry_ok_def prop_expect_def prop_spec_def)
  have "map fst (cfg_consts (prop_spec n e)) = prop_names"
    by (cases v) (simp add: e v prop_spec_def prop_names_def switches_def toggle_consts_def comp_def)
  from assignsI [OF this order_facts(8)] order_facts(9) l
  show "\<exists>ks. order_modules (check_module n) = Some ks \<and> assigns (prop_spec n e) ks"
    by (auto simp: list_all_iff check_module_def simp del: set_map)
qed (rule prop_facts prop_entry; assumption?)+

interpretation order_vacant: cfg_suite vac_lines "vac_spec VAC_OTHER" VAC_CONFIGS vac_expect "vac_ok VAC_OTHER"
    "\<lambda>n. order_modules (check_module n)"
proof
  have m: "order_modules ''MC_mntvacant'' = Some VACANT_CONSTANTS" by code_simp
  fix n e assume ok: "vac_ok VAC_OTHER (n, e)"
  show "vac_lines n e = Inr (cfg_lines (vac_spec VAC_OTHER n e))"
    unfolding vac_lines_def by (rule vac_entry(1) [OF order_facts(3) ok])
  have "check_module n = ''MC_mntvacant''"
    using ok by (cases e rule: tuple9_cases) (simp add: vac_ok_def check_module_def)
  with m assignsI [OF vac_spec_names order_facts(5)]
  show "\<exists>ks. order_modules (check_module n) = Some ks \<and> assigns (vac_spec VAC_OTHER n e) ks" by auto
qed (rule order_facts(1,2) vac_entry(2) [OF order_facts(3)] vac_expect_ok; assumption?)+

interpretation order_walk: cfg_suite walk_lines walk_spec walk_table mw_expect mw_ok "\<lambda>n. order_modules (check_module n)"
proof
  have m: "order_modules ''MC_mountwalk'' = Some WALK_CONSTANTS" "order_modules ''MC_mountwalk3'' = Some WALK_CONSTANTS"
    by code_simp+
  show "distinct (map fst walk_table)" "list_all mw_ok walk_table"
    unfolding walk_table_def by (rule vacate_facts)+
  fix n e assume ok: "mw_ok (n, e)"
  show "walk_lines n e = Inr (cfg_lines (walk_spec n e))" unfolding walk_lines_def by (rule walk_entry(1) [OF ok])
  show "wf_cfg (walk_spec n e) \<and> quiet (walk_spec n e)" by (rule walk_entry(2) [OF ok])
  show "clear (mw_expect e) \<and> (\<exists>what rest. cfg_comments (walk_spec n e) = banner what (mw_expect e) # rest)"
    by (rule walk.expect_ok [OF ok])
  have "check_module n = ''MC_mountwalk'' \<or> check_module n = ''MC_mountwalk3''"
    using ok by (cases e rule: tuple8_cases) (auto simp: mw_ok_def check_module_def)
  then show "\<exists>ks. order_modules (check_module n) = Some ks \<and> assigns (walk_spec n e) ks"
    using m walk_assigns [of n e] by metis
qed

section \<open>Properties\<close>

definition order_specs :: "(string \<times> tlc_cfg) list" where
  "order_specs = specs walk_spec walk_table @ specs (vac_spec VAC_OTHER) VAC_CONFIGS @ specs prop_spec PROP_CONFIGS"

lemma order_names: "distinct (map fst order_specs)"
proof -
  let ?ts = "[[''mo''], [''mn''], [''pe'', ''pr'', ''cr'', ''ch'', ''pa'', ''lo'']]"
  have "list_all (\<lambda>n. List.member [''mo''] (take 2 n)) (map fst MW_CONFIGS)"
    "list_all (\<lambda>n. List.member [''mn''] (take 2 n)) (map fst VAC_CONFIGS)"
    "list_all (\<lambda>n. List.member [''pe'', ''pr'', ''cr'', ''ch'', ''pa'', ''lo''] (take 2 n)) (map fst PROP_CONFIGS)" by code_simp+
  with vacate_facts(2) order_facts(2) prop_facts(2) have "tagged (take 2) ?ts [map fst walk_table, map fst VAC_CONFIGS, map fst PROP_CONFIGS]"
    by (simp add: walk_table_def list_all_iff List.member_iff)
  from tagged_distinct [OF this] have "distinct (map fst walk_table @ map fst VAC_CONFIGS @ map fst PROP_CONFIGS)" by simp
  then show ?thesis by (simp add: order_specs_def)
qed

lemma order_gen:
  "gen d = Inr (put_all order_specs d, show_nat (length order_specs) @ '' configurations written'')"
  unfolding gen_def order_walk.write_all_eq order_vacant.write_all_eq order.write_all_eq bindE_simps
  by (simp add: order_specs_def put_all_append specs_def add.assoc)

text \<open>
  C19: The script never fails, in whatever directory it runs: the loops that build the third table
  raise no KeyError, every file that is no configuration of its tables keeps its content, and every
  entry of the three tables reads back as it says, with exactly the constants of the module that
  check.sh runs it with and the expectation of the entry.\<close>

theorem order_generated:
  "\<exists>d' out. gen d = Inr (d', out) \<and> cfgs_written order_specs d d'
     \<and> delivered walk_table walk_spec mw_expect (\<lambda>n. order_modules (check_module n)) d'
     \<and> delivered VAC_CONFIGS (vac_spec VAC_OTHER) vac_expect (\<lambda>n. order_modules (check_module n)) d'
     \<and> delivered PROP_CONFIGS prop_spec prop_expect (\<lambda>n. order_modules (check_module n)) d'"
proof -
  let ?d = "put_all order_specs d"
  have "list_all (\<lambda>(n, c). wf_cfg c) order_specs"
    using order_walk.specs_fit order_vacant.specs_fit order.specs_fit by (simp add: order_specs_def)
  from put_all_written [OF order_names this] have "cfgs_written order_specs d ?d" .
  moreover have "delivered walk_table walk_spec mw_expect (\<lambda>n. order_modules (check_module n)) ?d"
    by (rule order_walk.delivers [OF order_names]) (simp add: order_specs_def)
  moreover have "delivered VAC_CONFIGS (vac_spec VAC_OTHER) vac_expect (\<lambda>n. order_modules (check_module n)) ?d"
    by (rule order_vacant.delivers [OF order_names]) (auto simp add: order_specs_def)
  moreover have "delivered PROP_CONFIGS prop_spec prop_expect (\<lambda>n. order_modules (check_module n)) ?d"
    by (rule order.delivers [OF order_names]) (auto simp add: order_specs_def)
  ultimately show ?thesis using order_gen [of d] by auto
qed

end
