(* ===== verification/Cfg_Own.thy ===== *)
theory Cfg_Own
  imports Tlc_Cfg
begin

text \<open>
  \<^verbatim>\<open>kernel/mount-ownership/tla/gen-cfgs.py\<close>: the configurations of the model of who owns an
  unmounted mount. Several switches depend on the name of the configuration.
\<close>

section \<open>The script\<close>

text \<open>fixes off, locked mounts, LAZY, SYNC, DETACH, invariants, expectation\<close>

type_synonym own_config = "string list \<times> int list \<times> bool \<times> bool \<times> bool \<times> string list \<times> string"

definition OWN_FIXES :: "string list" where
  \<open>OWN_FIXES =
     [''FIX_PUT_MNT_NS_DISCONNECT'', ''FIX_DISOWN'', ''FIX_DISCONNECT_PINNERS'', ''PINNERS_ANCESTOR_ONLY'',
     ''PINNERS_REEXAMINE'', ''FIX_INTERNAL_CLONE'', ''PIN_BUSY'']\<close>

definition OWN_SAFETY :: "string list" where
  \<open>OWN_SAFETY =
     [''TypeOK'', ''NoUAF'', ''Reaped'', ''OwnRef'', ''TombOK'']\<close>

definition OWN_PROOF :: "string list" where
  \<open>OWN_PROOF =
     [''TypeOK'', ''NoUAF'', ''OwnRef'', ''TombOK'', ''TombLeaf'', ''LeaksAreCycles'']\<close>

definition OWN_CLONE_PROOF :: "string list" where
  \<open>OWN_CLONE_PROOF =
     [''TypeOK'', ''NoUAF'', ''OwnRef'', ''TombOK'', ''MountsReaped'', ''SbLeaksAreCycles'',
     ''LeaksAreCycles'']\<close>

definition OWN_CONFIGS :: "(string, own_config) dict" where
  \<open>OWN_CONFIGS = [
     (''mntown_disown_anypin'', ([], [], True, True, True, OWN_PROOF, ''pass'')),
     (''mntown_disown_anypin_locked'', ([], [3, 5], True, True, True, OWN_PROOF, ''pass'')),
     (''mntown_disown_anypin_connected'', ([''FIX_PUT_MNT_NS_DISCONNECT''], [3, 5], True, True, True,
     OWN_PROOF, ''pass'')),
     (''mntown_revert_anypin'', ([''FIX_DISOWN''], [], True, True, True, OWN_PROOF, ''violation'')),
     (''mntown_disown_anypin_reaped'', ([], [], True, True, True, OWN_SAFETY, ''violation'')),
     (''mntown_pinners_anypin'', ([''FIX_DISOWN'', ''PINNERS_ANCESTOR_ONLY''], [], True, True, True,
     OWN_PROOF, ''violation'')),
     (''mntown_pinners_anypin_locked'', ([''FIX_DISOWN'', ''PINNERS_ANCESTOR_ONLY''], [3, 5], True, True,
     True, OWN_PROOF, ''violation'')),
     (''mntown_pinners_anypin_connected'', ([''FIX_DISOWN'', ''PINNERS_ANCESTOR_ONLY'',
     ''FIX_PUT_MNT_NS_DISCONNECT''], [3, 5], True, True, True, OWN_PROOF, ''violation'')),
     (''mntown_pinners_ancestor_anypin'', ([''FIX_DISOWN''], [], True, True, True, OWN_PROOF,
     ''violation'')),
     (''mntown_reexamine_anypin'', ([''FIX_DISOWN'', ''PINNERS_ANCESTOR_ONLY''], [], True, True, True,
     OWN_PROOF, ''pass'')),
     (''mntown_reexamine_anypin_locked'', ([''FIX_DISOWN'', ''PINNERS_ANCESTOR_ONLY''], [3, 5], True, True,
     True, OWN_PROOF, ''pass'')),
     (''mntown_reexamine_anypin_connected'', ([''FIX_DISOWN'', ''PINNERS_ANCESTOR_ONLY'',
     ''FIX_PUT_MNT_NS_DISCONNECT''], [3, 5], True, True, True, OWN_PROOF, ''pass'')),
     (''mntown_connected_ns'', ([''FIX_DISOWN'', ''FIX_PUT_MNT_NS_DISCONNECT''], [], False, False, False,
     OWN_SAFETY, ''violation'')),
     (''mntown_revert'', ([''FIX_DISOWN''], [], False, True, False, OWN_SAFETY, ''pass'')),
     (''mntown_revert_locked'', ([''FIX_DISOWN''], [3], True, False, False, OWN_SAFETY, ''violation'')),
     (''mntown_revert_detach'', ([''FIX_DISOWN''], [], False, False, True, OWN_SAFETY, ''violation'')),
     (''mntown_disown'', ([], [], True, True, True, OWN_SAFETY, ''pass'')),
     (''mntown_disown_locked'', ([], [3], True, True, True, OWN_SAFETY, ''pass'')),
     (''mntown_disown_connected'', ([''FIX_PUT_MNT_NS_DISCONNECT''], [3, 5], True, True, True, OWN_SAFETY,
     ''pass'')),
     (''mntown_clone'', ([''FIX_DISOWN''], [], True, True, True, OWN_SAFETY, ''pass'')),
     (''mntown_clone_locked'', ([''FIX_DISOWN''], [3], True, True, True, OWN_SAFETY, ''pass'')),
     (''mntown_clone_connected'', ([''FIX_DISOWN'', ''FIX_PUT_MNT_NS_DISCONNECT''], [3, 5], True, True,
     True, OWN_SAFETY, ''pass'')),
     (''mntown_clone_busy'', ([''FIX_DISOWN''], [], True, True, True, OWN_SAFETY, ''pass'')),
     (''mntown_clone_anypin'', ([''FIX_DISOWN''], [], True, True, True, OWN_CLONE_PROOF, ''pass'')),
     (''mntown_clone_anypin_locked'', ([''FIX_DISOWN''], [3, 5], True, True, True, OWN_CLONE_PROOF,
     ''pass'')),
     (''mntown_clone_anypin_connected'', ([''FIX_DISOWN'', ''FIX_PUT_MNT_NS_DISCONNECT''], [3, 5], True,
     True, True, OWN_CLONE_PROOF, ''pass'')),
     (''mntown_clone_anypin_busy'', ([''FIX_DISOWN''], [], True, True, True, OWN_CLONE_PROOF, ''pass'')),
     (''mntown_clone_anypin_reaped'', ([''FIX_DISOWN''], [], True, True, True, OWN_SAFETY, ''violation''))]\<close>

text \<open>The value of a switch: whether the entry leaves it on, then the rules on the name, in order\<close>

definition own_on :: "string \<Rightarrow> string list \<Rightarrow> string \<Rightarrow> bool" where
  "own_on name off f =
    (let on = (f \<notin> set off);
         on = (if f \<in> set [''FIX_DISCONNECT_PINNERS'', ''PINNERS_ANCESTOR_ONLY'', ''PINNERS_REEXAMINE'']
                  \<and> \<not> str_in ''pinners'' name \<and> \<not> str_in ''reexamine'' name then False else on);
         on = (if f = ''PINNERS_REEXAMINE'' \<and> \<not> str_in ''reexamine'' name then False else on);
         on = (if f = ''FIX_INTERNAL_CLONE'' then str_in ''clone'' name else on);
         on = (if f = ''PIN_BUSY'' then str_in ''busy'' name else on)
     in on)"

definition own_lines :: "string \<Rightarrow> own_config \<Rightarrow> string list result" where
  \<open>own_lines name = (\<lambda>(off, locked, lazy, sync, detach, invs, expect).
     Inr ([remark (''generated by gen-cfgs.py: MntOwn, expected: '' @ expect), ''SPECIFICATION Spec'', ''CONSTANTS'',
           ''  MntIds = {1, 2, 3, 4, 5, 6}'', ''  Root = 1'', ''  Parent <- ParentDef'',
           ''  SbIds = {"root", "a", "l", "d", "m", "n", "null"}'', ''  Sb <- SbDef'', ''  Pin <- PinDef'',
           ''  Locked = {'' @ join '', '' (map show_int (sort locked)) @ ''}'', ''  ExtRefs <- ExtDef'', ''  NsUsers = 1'',
           ''  LAZY = '' @ (if lazy then ''TRUE'' else ''FALSE''), ''  SYNC = '' @ (if sync then ''TRUE'' else ''FALSE''),
           ''  DETACH = '' @ (if detach then ''TRUE'' else ''FALSE''),
           ''  ANY_PIN = '' @ (if str_in ''anypin'' name then ''TRUE'' else ''FALSE''),
           ''  SELF_PIN = '' @ (if str_in ''reaped'' name then ''FALSE'' else ''TRUE''), ''  PinnerSbs <- PinnerSbsDef'']
          @ map (\<lambda>f. asg f (if own_on name off f then ''TRUE'' else ''FALSE'')) OWN_FIXES
          @ [''INVARIANTS''] @ map indent invs))\<close>

definition gen :: "dir \<Rightarrow> (dir \<times> string) result" where
  "gen d = bindE (write_all own_lines OWN_CONFIGS d) (\<lambda>d.
     Inr (d, show_nat (length OWN_CONFIGS) @ '' configurations written''))"

text \<open>The constants of \<^verbatim>\<open>MntOwn.tla\<close>, which \<^verbatim>\<open>MC_mntown\<close> extends\<close>

definition OWN_CONSTANTS :: "string list" where
  "OWN_CONSTANTS =
     [''MntIds'', ''Root'', ''Parent'', ''SbIds'', ''Sb'', ''Pin'', ''Locked'', ''ExtRefs'', ''NsUsers'',
     ''LAZY'', ''SYNC'', ''DETACH'', ''FIX_PUT_MNT_NS_DISCONNECT'', ''FIX_DISOWN'',
     ''FIX_DISCONNECT_PINNERS'', ''PINNERS_ANCESTOR_ONLY'', ''PINNERS_REEXAMINE'', ''FIX_INTERNAL_CLONE'',
     ''PIN_BUSY'', ''ANY_PIN'', ''SELF_PIN'', ''PinnerSbs'']"

definition own_modules :: "string \<Rightarrow> string list option" where
  "own_modules m = map_of [(''MC_mntown'', OWN_CONSTANTS)] m"

section \<open>The configurations the entries stand for\<close>

definition own_spec :: "string \<Rightarrow> own_config \<Rightarrow> tlc_cfg" where
  \<open>own_spec name = (\<lambda>(off, locked, lazy, sync, detach, invs, expect).
     \<lparr>cfg_comments = [banner '': MntOwn'' expect], cfg_spec = ''Spec'',
      cfg_consts = [(''MntIds'', Val ''{1, 2, 3, 4, 5, 6}''), (''Root'', Val ''1''), (''Parent'', Def ''ParentDef''),
         (''SbIds'', Val ''{"root", "a", "l", "d", "m", "n", "null"}''), (''Sb'', Def ''SbDef''), (''Pin'', Def ''PinDef''),
         (''Locked'', Val (braces (map show_int (sort locked)))), (''ExtRefs'', Def ''ExtDef''), (''NsUsers'', Val ''1''),
         (''LAZY'', Val (tf lazy)), (''SYNC'', Val (tf sync)), (''DETACH'', Val (tf detach)),
         (''ANY_PIN'', Val (tf (str_in ''anypin'' name))), (''SELF_PIN'', Val (tf (\<not> str_in ''reaped'' name))),
         (''PinnerSbs'', Def ''PinnerSbsDef'')] @ map (\<lambda>f. (f, Val (tf (own_on name off f)))) OWN_FIXES,
      cfg_invs = invs, cfg_props = []\<rparr>)\<close>

definition own_ok :: "string \<times> own_config \<Rightarrow> bool" where
  "own_ok = (\<lambda>(n, (off, locked, lazy, sync, detach, invs, expect)).
     layout_of n = ''mntown'' \<and> distinct locked \<and> invs \<noteq> [] \<and> entry_ok OWN_FIXES off invs [] expect)"

definition own_expect :: "own_config \<Rightarrow> string" where
  "own_expect = (\<lambda>(off, locked, lazy, sync, detach, invs, expect). expect)"

definition own_names :: "string list" where
  "own_names = [''MntIds'', ''Root'', ''Parent'', ''SbIds'', ''Sb'', ''Pin'', ''Locked'', ''ExtRefs'', ''NsUsers'', ''LAZY'',
     ''SYNC'', ''DETACH'', ''ANY_PIN'', ''SELF_PIN'', ''PinnerSbs''] @ OWN_FIXES"

lemma own_facts:
  "list_all own_ok OWN_CONFIGS" "distinct (map fst OWN_CONFIGS)" "list_all ident OWN_FIXES"
  "distinct own_names \<and> set own_names = set OWN_CONSTANTS"
  by code_simp+

lemma own_entry:
  assumes "own_ok (n, e)"
  shows "own_lines n e = Inr (cfg_lines (own_spec n e))" "wf_cfg (own_spec n e) \<and> quiet (own_spec n e)"
proof -
  obtain off locked lazy sync detach invs expect where e: "e = (off, locked, lazy, sync, detach, invs, expect)"
    by (cases e)
  from assms have ok: "invs \<noteq> []" "entry_ok OWN_FIXES off invs [] expect" by (simp_all add: e own_ok_def)
  have i: "list_all no_colon (map show_int ks)" "list_all one_line (map show_int ks)" for ks
    by (simp_all add: list_all_iff)
  have s: "list_all const_ok (map (\<lambda>f. (f, Val (tf (P f)))) OWN_FIXES)"
      "list_all (\<lambda>(k, v). no_colon (cval_text v)) (map (\<lambda>f. (f, Val (tf (P f)))) OWN_FIXES)" for P
    using own_facts(3) by (auto simp: list_all_iff const_ok_def)
  show "own_lines n e = Inr (cfg_lines (own_spec n e))"
    using ok(1) by (simp add: e own_lines_def own_spec_def cfg_simps braces_def tf_def comp_def)
  show "wf_cfg (own_spec n e) \<and> quiet (own_spec n e)"
    using ok s i by (simp add: e own_spec_def wf_cfg_def quiet_def entry_ok_def ident_eval no_colon_braces one_line_braces)
qed

lemma own_spec_names: "map fst (cfg_consts (own_spec n e)) = own_names"
  by (cases e) (simp add: own_spec_def own_names_def comp_def)

interpretation own: cfg_suite own_lines own_spec OWN_CONFIGS own_expect own_ok "\<lambda>n. own_modules (check_module n)"
proof
  fix n e assume ok: "own_ok (n, e)"
  show "clear (own_expect e) \<and> (\<exists>what rest. cfg_comments (own_spec n e) = banner what (own_expect e) # rest)"
    using ok by (cases e) (auto simp: own_ok_def entry_ok_def own_expect_def own_spec_def)
  from assignsI [OF own_spec_names own_facts(4)]
  show "\<exists>ks. own_modules (check_module n) = Some ks \<and> assigns (own_spec n e) ks"
    using ok by (cases e) (simp add: own_ok_def own_modules_def check_module_def)
qed (rule own_facts(1,2) own_entry; assumption?)+

section \<open>Properties\<close>

text \<open>
  The script never fails, in whatever directory it runs: every other file keeps its content, and
  every entry of the table reads back as it says, with the locked mounts in ascending order, exactly
  the constants of the module that check.sh runs it with and the expectation of the entry; the number
  printed is the number of configurations.\<close>

theorem own_generated:
  "\<exists>d'. gen d = Inr (d', show_nat (length OWN_CONFIGS) @ '' configurations written'')
     \<and> cfgs_written (specs own_spec OWN_CONFIGS) d d'
     \<and> delivered OWN_CONFIGS own_spec own_expect (\<lambda>n. own_modules (check_module n)) d'"
proof -
  let ?d = "put_all (specs own_spec OWN_CONFIGS) d"
  have "delivered OWN_CONFIGS own_spec own_expect (\<lambda>n. own_modules (check_module n)) ?d"
    by (rule own.delivers) (simp_all add: own_facts(2))
  with own.written [of d] show ?thesis unfolding gen_def own.write_all_eq bindE_simps by blast
qed

text \<open>The switches of the three answers: the tombstones, the disconnected pinners and the internal clones\<close>

definition answers :: "string list" where
  "answers = [''FIX_DISOWN'', ''FIX_DISCONNECT_PINNERS'', ''FIX_INTERNAL_CLONE'']"

definition answers_on :: "tlc_cfg \<Rightarrow> string list" where
  "answers_on c = filter (\<lambda>f. map_of (cfg_consts c) f = Some (Val ''TRUE'')) answers"

definition own_answers :: "string \<Rightarrow> string list \<Rightarrow> string list" where
  "own_answers name off = filter (own_on name off) answers"

lemma own_const: "(k, v) \<in> set (cfg_consts (own_spec n e)) \<Longrightarrow> map_of (cfg_consts (own_spec n e)) k = Some v"
  by (rule map_of_is_SomeI) (simp_all only: own_spec_names own_facts(4))

lemma own_consts:
  assumes e: "e = (off, locked, lazy, sync, detach, invs, expect)"
  shows "f \<in> set OWN_FIXES \<Longrightarrow> map_of (cfg_consts (own_spec n e)) f = Some (Val (tf (own_on n off f)))"
    and "map_of (cfg_consts (own_spec n e)) ''LAZY'' = Some (Val (tf lazy))"
    and "map_of (cfg_consts (own_spec n e)) ''DETACH'' = Some (Val (tf detach))"
  by (rule own_const; simp add: e own_spec_def)+

lemma tf_eq: "tf b = ''TRUE'' \<longleftrightarrow> b" "tf b = ''FALSE'' \<longleftrightarrow> \<not> b"
  by (simp_all add: tf_def)

lemma answers_on_spec:
  assumes "e = (off, locked, lazy, sync, detach, invs, expect)"
  shows "answers_on (own_spec n e) = own_answers n off"
proof -
  have "list_all (\<lambda>f. f \<in> set OWN_FIXES) answers" by code_simp
  then show ?thesis
    unfolding answers_on_def own_answers_def
    by (intro filter_cong refl) (simp add: list_all_iff own_consts(1) [OF assms] tf_eq)
qed

lemma answers_table:
  "list_all (\<lambda>(n, (off, locked, lazy, sync, detach, invs, expect)). length (own_answers n off) \<le> 1
     \<and> (own_answers n off = [] \<longrightarrow> expect = ''violation'' \<or> \<not> lazy \<and> \<not> detach)) OWN_CONFIGS"
  by code_simp

text \<open>
  C21: No configuration mixes two of the three answers to who owns an unmounted mount (tombstones,
  disconnected pinners, internal clones), though some of the switches follow from the entry and some
  from the name of the configuration. A configuration with none of them is expected to fail, but
  for the ones in which nothing but the synchronous umount and the death of the namespace happens.\<close>

theorem own_answers_apart:
  "list_all (\<lambda>(n, e). length (answers_on (own_spec n e)) = 1
     \<or> length (answers_on (own_spec n e)) = 0 \<and> (own_expect e = ''violation''
        \<or> (map_of (cfg_consts (own_spec n e)) ''LAZY'' = Some (Val ''FALSE'')
           \<and> map_of (cfg_consts (own_spec n e)) ''DETACH'' = Some (Val ''FALSE'')))) OWN_CONFIGS"
  using answers_table
proof (rule list.pred_mono_strong)
  fix x :: "string \<times> own_config"
  obtain n off locked lazy sync detach invs expect where x: "x = (n, off, locked, lazy, sync, detach, invs, expect)"
    by (cases x rule: tuple8_cases)
  let ?e = "(off, locked, lazy, sync, detach, invs, expect)"
  assume "case x of (n, off, locked, lazy, sync, detach, invs, expect) \<Rightarrow> length (own_answers n off) \<le> 1
     \<and> (own_answers n off = [] \<longrightarrow> expect = ''violation'' \<or> \<not> lazy \<and> \<not> detach)"
  then have "length (own_answers n off) \<le> 1" "own_answers n off = [] \<longrightarrow> expect = ''violation'' \<or> \<not> lazy \<and> \<not> detach"
    by (simp_all add: x)
  then have "length (own_answers n off) = 1
      \<or> length (own_answers n off) = 0 \<and> (expect = ''violation'' \<or> \<not> lazy \<and> \<not> detach)"
    by (cases "own_answers n off") simp_all
  then show "case x of (n, e) \<Rightarrow> length (answers_on (own_spec n e)) = 1
     \<or> length (answers_on (own_spec n e)) = 0 \<and> (own_expect e = ''violation''
        \<or> (map_of (cfg_consts (own_spec n e)) ''LAZY'' = Some (Val ''FALSE'')
           \<and> map_of (cfg_consts (own_spec n e)) ''DETACH'' = Some (Val ''FALSE'')))"
    unfolding x prod.case answers_on_spec [OF refl] own_consts(2,3) [OF refl]
    by (simp only: own_expect_def prod.case tf_eq cval.inject option.inject simp_thms)
qed

end
