(* ===== verification/Cfg_Coredump.thy ===== *)
theory Cfg_Coredump
  imports Tlc_Cfg
begin

text \<open>
  \<^verbatim>\<open>kernel/work.coredump.close_files.fixes/tla/gen-cfgs.py\<close>: the configurations of the model of a
  core dump and the threads that create io workers.
\<close>

section \<open>The script\<close>

text \<open>An entry is (layout, fixes off, invariants, properties, expectation), or has budget overrides
  as a sixth component.\<close>

datatype core_entry =
    Plain string "string list" "string list" "string list" string
  | Budgets string "string list" "string list" "string list" string "(string, int) dict"

text \<open>module, leader, chunks, KILL, CORE, TERM, USR, exec, tracer, retry\<close>

type_synonym layout = "string \<times> string \<times> int \<times> int \<times> int \<times> int \<times> int \<times> int \<times> int \<times> int"

definition FIXES :: "string list" where
  \<open>FIXES =
     [''FIX_RCU_RELEASE'', ''FIX_SIGPENDING_DUMPCORE'', ''FIX_RETARGET_GROUP_EXIT'', ''FIX_WORKER_NODUMP'',
     ''FIX_PTRACE_MASK'', ''FIX_EXEC_CANCEL_FIRST'', ''FIX_GATE_SIGNALED'', ''FIX_GATE_POSTCOREDUMP'']\<close>

definition SAFETY :: "string list" where
  \<open>SAFETY =
     [''TypeOK'', ''RemainingNonNegative'', ''CountConsistent'', ''OnlyCountedDecrement'',
     ''ReleasedAfterAllParked'', ''NoUseAfterFree'', ''SingleThreadedExec'', ''WorkerNeverDumps'',
     ''WorkerMaskIntact'', ''TruncationJustified'', ''FreezeAbortsDump'']\<close>

definition LIVENESS :: "string list" where
  \<open>LIVENESS =
     [''KillTerminates'', ''DumpEnds'']\<close>

definition LAYOUTS :: "(string, layout) dict" where
  \<open>LAYOUTS = [
     (''signals'', (''MC_signals'', ''m'', 2, 1, 1, 1, 1, 0, 0, 0)),
     (''sqpoll'', (''MC_sqpoll'', ''m'', 2, 1, 1, 0, 0, 0, 1, 0)),
     (''plain'', (''MC_plain'', ''m'', 2, 1, 1, 0, 1, 1, 0, 1)),
     (''cdhole'', (''MC_cdhole'', ''m'', 2, 1, 1, 0, 0, 0, 0, 0))]\<close>

definition CONFIGS :: "(string, core_entry) dict" where
  \<open>CONFIGS = [
     (''signals_fixed'', Plain ''signals'' [] SAFETY LIVENESS ''pass''),
     (''signals_no_rcu'', Plain ''signals'' [''FIX_RCU_RELEASE''] [''NoUseAfterFree''] [] ''violation''),
     (''signals_no_retarget'', Plain ''signals'' [''FIX_RETARGET_GROUP_EXIT'', ''FIX_SIGPENDING_DUMPCORE'']
     [''TruncationJustified''] [] ''violation''),
     (''signals_retarget_only'', Plain ''signals'' [''FIX_RETARGET_GROUP_EXIT''] [''TruncationJustified'']
     [] ''pass''),
     (''signals_sigpending_only'', Plain ''signals'' [''FIX_SIGPENDING_DUMPCORE''] [''TruncationJustified'']
     [] ''pass''),
     (''signals_no_freezer'', Plain ''signals'' [''FIX_SIGPENDING_DUMPCORE''] [''FreezeAbortsDump''] []
     ''violation''),
     (''sqpoll_fixed'', Plain ''sqpoll'' [] SAFETY LIVENESS ''pass''),
     (''sqpoll_deadlock'', Plain ''sqpoll'' [''FIX_WORKER_NODUMP'', ''FIX_PTRACE_MASK''] [''TypeOK'']
     [''DumpEnds''] ''violation''),
     (''sqpoll_mask_only'', Plain ''sqpoll'' [''FIX_WORKER_NODUMP''] [''TypeOK''] [''DumpEnds''] ''pass''),
     (''sqpoll_no_gate_signaled'', Plain ''sqpoll'' [''FIX_GATE_SIGNALED''] [''CountConsistent''] []
     ''violation''),
     (''plain_fixed'', Plain ''plain'' [] SAFETY [] ''pass''),
     (''plain_live'', Budgets ''plain'' [] SAFETY LIVENESS ''pass'' [(''usr'', 0), (''retry'', 0)]),
     (''plain_strict'', Plain ''plain'' [] [''TruncationJustifiedStrict''] [] ''violation''),
     (''plain_no_exec_cancel'', Plain ''plain'' [''FIX_EXEC_CANCEL_FIRST''] [''SingleThreadedExec''] []
     ''violation''),
     (''cdhole_fixed'', Plain ''cdhole'' [] SAFETY LIVENESS ''pass''),
     (''cdhole_no_gate'', Plain ''cdhole'' [''FIX_GATE_POSTCOREDUMP''] [''CountConsistent''] []
     ''violation'')]\<close>

text \<open>\<^verbatim>\<open>entry[:5]\<close> and \<^verbatim>\<open>entry[5] if len(entry) > 5 else {}\<close>\<close>

fun parts :: "core_entry \<Rightarrow> string \<times> string list \<times> string list \<times> string list \<times> string \<times> (string, int) dict" where
  "parts (Plain layout off invs props expect) = (layout, off, invs, props, expect, [])"
| "parts (Budgets layout off invs props expect over) = (layout, off, invs, props, expect, over)"

definition core_lines :: "string \<Rightarrow> core_entry \<Rightarrow> string list result" where
  \<open>core_lines name entry = (case parts entry of (layout, off, invs, props, expect, over) \<Rightarrow>
     bindE (item LAYOUTS layout) (\<lambda>(module, leader, chunks, kill, core, term, usr, execb, tracer, retry).
     let usr = get_or over ''usr'' usr; retry = get_or over ''retry'' retry in
     Inr ([remark (''generated by gen-cfgs.py: layout '' @ layout @ '', expected: '' @ expect),
           ''SPECIFICATION Spec'', ''CONSTANTS'',
           ''  NoThread = NoThread'',
           ''  Threads <- ThreadsDef'', ''  Role <- RoleDef'', ''  Owner0 <- Owner0Def'', ''  RingOwners <- RingOwnersDef'',
           ''  Leader = "'' @ leader @ ''"'', ''  Chunks = '' @ show_int chunks,
           ''  BudgetKILL = '' @ show_int kill, ''  BudgetCORE = '' @ show_int core,
           ''  BudgetTERM = '' @ show_int term, ''  BudgetUSR = '' @ show_int usr,
           ''  ExecBudget = '' @ show_int execb, ''  TracerBudget = '' @ show_int tracer,
           ''  RetryBudget = '' @ show_int retry]
          @ switch_lines FIXES off
          @ (if invs \<noteq> [] then ''INVARIANTS'' # map indent invs else [])
          @ (if props \<noteq> [] then ''PROPERTIES'' # map indent props else []))))\<close>

text \<open>The line printed for a configuration\<close>

definition core_report :: "string \<Rightarrow> core_entry \<Rightarrow> string result" where
  "core_report name entry = (case parts entry of (layout, _) \<Rightarrow>
     bindE (item LAYOUTS layout) (\<lambda>(module, _). Inr (name @ '' -> '' @ module)))"

definition gen :: "dir \<Rightarrow> (dir \<times> string list) result" where
  "gen d = bindE (write_all core_lines CONFIGS d) (\<lambda>d.
     bindE (mapE (\<lambda>(name, entry). core_report name entry) CONFIGS) (\<lambda>out. Inr (d, out)))"

text \<open>The constants of \<^verbatim>\<open>Coredump.tla\<close>, which every layout module extends\<close>

definition COREDUMP_CONSTANTS :: "string list" where
  "COREDUMP_CONSTANTS =
     [''Threads'', ''Role'', ''Owner0'', ''RingOwners'', ''Leader'', ''NoThread'', ''Chunks'',
     ''BudgetKILL'', ''BudgetCORE'', ''BudgetTERM'', ''BudgetUSR'', ''ExecBudget'', ''TracerBudget'',
     ''RetryBudget'', ''FIX_RCU_RELEASE'', ''FIX_SIGPENDING_DUMPCORE'', ''FIX_RETARGET_GROUP_EXIT'',
     ''FIX_WORKER_NODUMP'', ''FIX_PTRACE_MASK'', ''FIX_EXEC_CANCEL_FIRST'', ''FIX_GATE_SIGNALED'',
     ''FIX_GATE_POSTCOREDUMP'']"

definition core_modules :: "string \<Rightarrow> string list option" where
  "core_modules m = map_of (map (\<lambda>(n, module, _). (module, COREDUMP_CONSTANTS)) LAYOUTS) m"

section \<open>The configurations the entries stand for\<close>

definition core_spec :: "string \<Rightarrow> core_entry \<Rightarrow> tlc_cfg" where
  \<open>core_spec name entry = (case parts entry of (layout, off, invs, props, expect, over) \<Rightarrow>
     case map_of LAYOUTS layout of None \<Rightarrow> empty_cfg
     | Some (module, leader, chunks, kill, core, term, usr, execb, tracer, retry) \<Rightarrow>
     \<lparr>cfg_comments = [banner ('': layout '' @ layout) expect], cfg_spec = ''Spec'',
      cfg_consts = [(''NoThread'', Val ''NoThread''), (''Threads'', Def ''ThreadsDef''), (''Role'', Def ''RoleDef''),
         (''Owner0'', Def ''Owner0Def''), (''RingOwners'', Def ''RingOwnersDef''), (''Leader'', Val (quoted leader)),
         (''Chunks'', Val (show_int chunks)), (''BudgetKILL'', Val (show_int kill)), (''BudgetCORE'', Val (show_int core)),
         (''BudgetTERM'', Val (show_int term)), (''BudgetUSR'', Val (show_int (get_or over ''usr'' usr))),
         (''ExecBudget'', Val (show_int execb)), (''TracerBudget'', Val (show_int tracer)),
         (''RetryBudget'', Val (show_int (get_or over ''retry'' retry)))] @ switches FIXES off,
      cfg_invs = invs, cfg_props = props\<rparr>)\<close>

definition core_ok :: "string \<times> core_entry \<Rightarrow> bool" where
  "core_ok = (\<lambda>(n, entry). case parts entry of (layout, off, invs, props, expect, over) \<Rightarrow>
     layout_of n = layout \<and> plain layout
     \<and> (case map_of LAYOUTS layout of None \<Rightarrow> False | Some (module, leader, _) \<Rightarrow> module = check_module n \<and> plain leader)
     \<and> entry_ok FIXES off invs props expect)"

definition core_expect :: "core_entry \<Rightarrow> string" where
  "core_expect entry = (case parts entry of (layout, off, invs, props, expect, over) \<Rightarrow> expect)"

definition core_names :: "string list" where
  "core_names = [''NoThread'', ''Threads'', ''Role'', ''Owner0'', ''RingOwners'', ''Leader'', ''Chunks'', ''BudgetKILL'',
     ''BudgetCORE'', ''BudgetTERM'', ''BudgetUSR'', ''ExecBudget'', ''TracerBudget'', ''RetryBudget''] @ FIXES"

lemma core_facts:
  "list_all core_ok CONFIGS" "distinct (map fst CONFIGS)" "list_all ident FIXES"
  "distinct core_names \<and> set core_names = set COREDUMP_CONSTANTS"
  "list_all (\<lambda>(n, module, _). core_modules module = Some COREDUMP_CONSTANTS) LAYOUTS"
  by code_simp+

lemma core_layout:
  assumes "core_ok (n, e)" "parts e = (layout, off, invs, props, expect, over)"
  obtains leader chunks kill core trm usr execb tracer retry where
    "map_of LAYOUTS layout = Some (check_module n, leader, chunks, kill, core, trm, usr, execb, tracer, retry)"
    "plain leader" "plain layout" "entry_ok FIXES off invs props expect" "core_modules (check_module n) = Some COREDUMP_CONSTANTS"
proof (cases "map_of LAYOUTS layout")
  case None
  with assms show ?thesis by (simp add: core_ok_def)
next
  case (Some v)
  obtain m leader chunks kill core trm usr execb tracer retry where
    v: "v = (m, leader, chunks, kill, core, trm, usr, execb, tracer, retry)" by (cases v rule: tuple10_cases)
  from map_of_SomeD [OF Some] core_facts(5) have "core_modules m = Some COREDUMP_CONSTANTS"
    by (auto simp: v list_all_iff)
  with that Some assms show ?thesis by (auto simp: v core_ok_def)
qed

lemma core_entry:
  assumes ok: "core_ok (n, e)"
  shows "core_lines n e = Inr (cfg_lines (core_spec n e))" "wf_cfg (core_spec n e) \<and> quiet (core_spec n e)"
    "core_report n e = Inr (n @ '' -> '' @ check_module n)"
    "core_modules (check_module n) = Some COREDUMP_CONSTANTS" "map fst (cfg_consts (core_spec n e)) = core_names"
    "clear (core_expect e) \<and> (\<exists>what rest. cfg_comments (core_spec n e) = banner what (core_expect e) # rest)"
proof -
  obtain layout off invs props expect over where e: "parts e = (layout, off, invs, props, expect, over)" by (cases "parts e")
  from core_layout [OF ok e] obtain leader chunks kill core trm usr execb tracer retry where
    l: "map_of LAYOUTS layout = Some (check_module n, leader, chunks, kill, core, trm, usr, execb, tracer, retry)"
      "plain leader" "plain layout" "entry_ok FIXES off invs props expect"
      "core_modules (check_module n) = Some COREDUMP_CONSTANTS" by blast
  show "core_lines n e = Inr (cfg_lines (core_spec n e))"
    by (simp add: e core_lines_def core_spec_def l(1) item_def dget_def cfg_simps quoted_def Let_def)
  show "wf_cfg (core_spec n e) \<and> quiet (core_spec n e)"
    using l(2-4) core_facts(3) [THEN switches_ok]
    by (simp add: e core_spec_def l(1) wf_cfg_def quiet_def entry_ok_def ident_eval quoted_def plain_def)
  show "core_report n e = Inr (n @ '' -> '' @ check_module n)"
    by (simp add: e core_report_def l(1) item_def dget_def)
  show "core_modules (check_module n) = Some COREDUMP_CONSTANTS" by (rule l(5))
  show "map fst (cfg_consts (core_spec n e)) = core_names"
    by (simp add: e core_spec_def l(1) core_names_def switches_def comp_def)
  show "clear (core_expect e) \<and> (\<exists>what rest. cfg_comments (core_spec n e) = banner what (core_expect e) # rest)"
    using l(4) by (auto simp add: e core_expect_def core_spec_def l(1) entry_ok_def)
qed

interpretation core: cfg_suite core_lines core_spec CONFIGS core_expect core_ok "\<lambda>n. core_modules (check_module n)"
proof
  fix n e assume ok: "core_ok (n, e)"
  from assignsI [OF core_entry(5) [OF ok] core_facts(4)] core_entry(4) [OF ok]
  show "\<exists>ks. core_modules (check_module n) = Some ks \<and> assigns (core_spec n e) ks" by blast
qed (rule core_facts(1,2) core_entry; assumption?)+

lemma core_reports:
  "list_all core_ok xs \<Longrightarrow> mapE (\<lambda>(name, entry). core_report name entry) xs = Inr (map (\<lambda>(n, e). n @ '' -> '' @ check_module n) xs)"
  by (induction xs) (auto simp: core_entry(3))

text \<open>
  The script never fails, in whatever directory it runs: every other file keeps its content, and
  every entry of the table reads back as it says, budget overrides applied, with exactly the constants
  of the module that check.sh runs it with and the expectation of the entry. The module the script
  prints for a configuration is the one that check.sh derives from its name.\<close>

theorem core_generated:
  "\<exists>d'. gen d = Inr (d', map (\<lambda>(n, e). n @ '' -> '' @ check_module n) CONFIGS)
     \<and> cfgs_written (specs core_spec CONFIGS) d d'
     \<and> delivered CONFIGS core_spec core_expect (\<lambda>n. core_modules (check_module n)) d'"
proof -
  let ?d = "put_all (specs core_spec CONFIGS) d"
  have "delivered CONFIGS core_spec core_expect (\<lambda>n. core_modules (check_module n)) ?d"
    by (rule core.delivers) (simp_all add: core_facts(2))
  with core.written [of d] show ?thesis
    unfolding gen_def core.write_all_eq bindE_simps core_reports [OF core_facts(1)] by blast
qed

end
