(* ===== verification/Cfg_Ondemand.thy ===== *)
theory Cfg_Ondemand
  imports Tlc_Cfg
begin

text \<open>
  \<^verbatim>\<open>kernel/work.mount.gp_on_demand/tla/gen-cfgs.py\<close>: the configurations of the model of one mount's
  reference count with the grace period taken on demand.
\<close>

section \<open>The script\<close>

text \<open>lazy, migrate, split, weak stores, fixes off, on demand, loose, invariants, properties,
  expectation; an entry may have the shape of the umount as an eleventh component.\<close>

type_synonym put_entry = "bool \<times> bool \<times> bool \<times> bool \<times> string list \<times> bool \<times> bool \<times> string list \<times> string list \<times> string"

datatype demand_config = Usual put_entry | Shaped put_entry string

definition FIXES :: "string list" where
  \<open>FIXES =
     [''FIX_MB_LEGIT'', ''FIX_MB_UMOUNT'', ''FIX_MB_PUT'', ''FIX_RCU_DELAY'', ''FIX_PUT_RCU'',
     ''FIX_SYNC_FLAG'', ''FIX_DOOMED_FLAG'']\<close>

definition SAFETY :: "string list" where
  \<open>SAFETY =
     [''TypeOK'', ''Ledger'', ''NoUAF'', ''DoomedIsLast'', ''NoNegative'', ''SyncClean'']\<close>

definition LIVE :: "string list" where
  \<open>LIVE =
     [''Freed'', ''AllDone'']\<close>

definition CONFIGS :: "(string, demand_config) dict" where
  \<open>CONFIGS = [
     (''mntput_ondemand'', Usual (False, False, True, False, [], True, False, SAFETY, LIVE, ''pass'')),
     (''mntput_ondemand_lazy'', Usual (True, False, True, False, [], True, False, SAFETY, LIVE, ''pass'')),
     (''mntput_ondemand_migrate'', Usual (False, True, True, False, [], True, False, SAFETY, LIVE,
     ''pass'')),
     (''mntput_ondemand_migrate_lazy'', Usual (True, True, True, False, [], True, False, SAFETY, LIVE,
     ''pass'')),
     (''mntput_ondemand_weak'', Usual (False, True, True, True, [], True, False, SAFETY, LIVE, ''pass'')),
     (''mntput_ondemand_weak_lazy'', Usual (True, True, True, True, [], True, False, SAFETY, LIVE,
     ''pass'')),
     (''mntput_ondemand_witness_fast'', Usual (False, False, True, False, [], True, False, [],
     [''NoFastFinal''],
     ''violation: NoFastFinal, the witness: the mount is finished off without the grace period'')),
     (''mntput_ondemand_witness_fast_lazy'', Usual (True, False, True, False, [], True, False, [],
     [''NoFastFinal''],
     ''violation: NoFastFinal, the witness: the holder closed its file before the put, no grace period'')),
     (''mntput_ondemand_no_rcu_delay'', Usual (True, False, True, False, [''FIX_RCU_DELAY''], True, False,
     SAFETY, LIVE,
     ''violation: Freed, a count of two must still wait: the holder's fast-path put lands after the plain put found the count non-zero'')),
     (''mntput_ondemand_no_rcu_delay_sync'', Usual (False, False, True, False, [''FIX_RCU_DELAY''], True,
     False, SAFETY, LIVE,
     ''violation: Freed, the walker's transient increment counted, its decrement under mount_lock after the put'')),
     (''mntput_ondemand_loose'', Usual (False, False, True, False, [], True, True, SAFETY, LIVE,
     ''pass: for a synchronous umount a count of two at the peek can only be the walker's transient increment (a legitimized walker would have made do_umount() refuse), and that walker finds MNT_DOOMED under mount_lock'')),
     (''mntput_ondemand_loose_lazy'', Usual (True, False, True, False, [], True, True, SAFETY, [],
     ''violation: DoomedIsLast, finishing the mount off at two dooms it under the holder'')),
     (''mntput_ondemand_no_mb_legit'', Usual (False, False, True, False, [''FIX_MB_LEGIT''], True, False,
     SAFETY, [],
     ''violation: SyncClean or DoomedIsLast, the walker's increment stays in its store buffer while the count reads one'')),
     (''mntput_ondemand_no_doomed_flag'', Usual (True, False, True, False, [''FIX_DOOMED_FLAG''], True,
     False, SAFETY, [],
     ''violation: NoUAF, the walker whose increment the sum missed must see MNT_DOOMED under mount_lock'')),
     (''mntput_ondemand_torn_sum'', Usual (False, True, False, False, [], True, False, SAFETY, [],
     ''violation: SyncClean or DoomedIsLast, with the single counter the sum of a migrating holder can read one with the reference held (F2)'')),
     (''mntput_caller74'', Shaped (False, False, True, False, [], False, False, SAFETY, LIVE, ''pass'')
     ''caller''),
     (''mntput_caller74_lazy'', Shaped (True, False, True, False, [], False, False, SAFETY, LIVE, ''pass'')
     ''caller''),
     (''mntput_caller74_migrate'', Shaped (False, True, True, False, [], False, False, SAFETY, LIVE,
     ''pass'') ''caller''),
     (''mntput_caller74_migrate_lazy'', Shaped (True, True, True, False, [], False, False, SAFETY, LIVE,
     ''pass'') ''caller''),
     (''mntput_caller74_weak_lazy'', Shaped (True, True, True, True, [], False, False, SAFETY, LIVE,
     ''pass'') ''caller''),
     (''mntput_caller74_witness_fast'', Shaped (False, False, True, False, [], False, False, [],
     [''NoFastFinal''], ''violation: NoFastFinal, the witness: the root goes without the grace period'')
     ''caller''),
     (''mntput_caller74_no_rcu_delay'', Shaped (True, False, True, False, [''FIX_RCU_DELAY''], False, False,
     SAFETY, LIVE, ''violation: Freed, a root somebody else holds still waits for the grace period'')
     ''caller''),
     (''mntput_caller74_torn_sum'', Shaped (False, True, False, False, [], False, False, SAFETY, [],
     ''violation: SyncClean or DoomedIsLast, the single counter of before 7eb84d54fac5'') ''caller''),
     (''mntput_owndrop74'', Shaped (False, False, True, False, [], False, False, SAFETY, LIVE,
     ''violation: Freed, the rejected shape: the own reference goes at two and the caller's final put counts a walker's transient increment; the walker never finishes a mount off'')
     ''own''),
     (''mntput_owndrop74_lazy'', Shaped (True, False, True, False, [], False, False, SAFETY, LIVE,
     ''violation: Freed, the rejected shape'') ''own''),
     (''mntput_upstream'', Usual (False, False, True, False, [], False, False, SAFETY, LIVE,
     ''pass: the tree without the series'')),
     (''mntput_upstream_lazy'', Usual (True, False, True, False, [], False, False, SAFETY, LIVE,
     ''pass: the tree without the series''))]\<close>

fun first10 :: "demand_config \<Rightarrow> put_entry" where
  "first10 (Usual e) = e"
| "first10 (Shaped e s) = e"

fun shape :: "demand_config \<Rightarrow> string" where
  "shape (Usual e) = []"
| "shape (Shaped e s) = s"

definition demand_lines :: "string \<Rightarrow> demand_config \<Rightarrow> string list result" where
  \<open>demand_lines name cfg = (case first10 cfg of (lazy, migrate, split, weak, off, ondemand, loose, invs, props, expect) \<Rightarrow>
     Inr ([remark (''generated by gen-cfgs.py: MntPut (work.mount.gp_on_demand), expected: '' @ expect),
           ''SPECIFICATION Spec'', ''CONSTANTS'',
           ''  TaskList <- TaskListDef'', ''  Walkers = {"W1"}'', ''  Holders = {"H1"}'',
           ''  NCPU = 2'', ''  GetBudget = 1'',
           ''  MIGRATE = '' @ tf migrate, ''  MigBudget = 2'', ''  LAZY = '' @ tf lazy]
          @ map (\<lambda>f. asg f (tf (f \<notin> set off))) FIXES
          @ [''  FIX_SPLIT_COUNT = '' @ tf split, ''  SPLIT_GETS_FIRST = FALSE'',
             ''  WEAK_STORES = '' @ tf weak, ''  FIX_PUT_WMB = '' @ tf split,
             ''  GP_ON_DEMAND = '' @ tf ondemand, ''  PEEK_LOOSE = '' @ tf loose,
             ''  CALLER_DROP = '' @ tf (shape cfg = ''caller''), ''  OWN_DROP = '' @ tf (shape cfg = ''own'')]
          @ (if invs \<noteq> [] then ''INVARIANTS'' # map indent invs else [])
          @ (if props \<noteq> [] then ''PROPERTIES'' # map indent props else [])))\<close>

definition gen :: "dir \<Rightarrow> (dir \<times> string) result" where
  "gen d = bindE (write_all demand_lines CONFIGS d) (\<lambda>d. Inr (d, show_nat (length CONFIGS) @ '' configurations''))"

text \<open>The constants of \<^verbatim>\<open>MntPut.tla\<close>, which \<^verbatim>\<open>MC_mntput\<close> extends\<close>

definition PUT_CONSTANTS :: "string list" where
  "PUT_CONSTANTS =
     [''TaskList'', ''Walkers'', ''Holders'', ''NCPU'', ''GetBudget'', ''MIGRATE'', ''MigBudget'', ''LAZY'',
     ''FIX_MB_LEGIT'', ''FIX_MB_UMOUNT'', ''FIX_MB_PUT'', ''FIX_RCU_DELAY'', ''FIX_PUT_RCU'',
     ''FIX_SYNC_FLAG'', ''FIX_DOOMED_FLAG'', ''FIX_SPLIT_COUNT'', ''SPLIT_GETS_FIRST'', ''WEAK_STORES'',
     ''FIX_PUT_WMB'', ''GP_ON_DEMAND'', ''PEEK_LOOSE'', ''CALLER_DROP'', ''OWN_DROP'']"

definition demand_modules :: "string \<Rightarrow> string list option" where
  "demand_modules m = map_of [(''MC_mntput'', PUT_CONSTANTS)] m"

section \<open>The configurations the entries stand for\<close>

definition demand_spec :: "string \<Rightarrow> demand_config \<Rightarrow> tlc_cfg" where
  \<open>demand_spec name cfg = (case first10 cfg of (lazy, migrate, split, weak, off, ondemand, loose, invs, props, expect) \<Rightarrow>
     \<lparr>cfg_comments = [banner '': MntPut (work.mount.gp_on_demand)'' expect], cfg_spec = ''Spec'',
      cfg_consts = [(''TaskList'', Def ''TaskListDef''), (''Walkers'', Val ''{"W1"}''), (''Holders'', Val ''{"H1"}''),
         (''NCPU'', Val ''2''), (''GetBudget'', Val ''1''), (''MIGRATE'', Val (tf migrate)), (''MigBudget'', Val ''2''),
         (''LAZY'', Val (tf lazy))] @ switches FIXES off
         @ [(''FIX_SPLIT_COUNT'', Val (tf split)), (''SPLIT_GETS_FIRST'', Val ''FALSE''), (''WEAK_STORES'', Val (tf weak)),
            (''FIX_PUT_WMB'', Val (tf split)), (''GP_ON_DEMAND'', Val (tf ondemand)), (''PEEK_LOOSE'', Val (tf loose)),
            (''CALLER_DROP'', Val (tf (shape cfg = ''caller''))), (''OWN_DROP'', Val (tf (shape cfg = ''own'')))],
      cfg_invs = invs, cfg_props = props\<rparr>)\<close>

definition demand_ok :: "string \<times> demand_config \<Rightarrow> bool" where
  "demand_ok = (\<lambda>(n, cfg). case first10 cfg of (lazy, migrate, split, weak, off, ondemand, loose, invs, props, expect) \<Rightarrow>
     layout_of n = ''mntput'' \<and> entry_ok FIXES off invs props expect)"

definition demand_expect :: "demand_config \<Rightarrow> string" where
  "demand_expect cfg = (case first10 cfg of (lazy, migrate, split, weak, off, ondemand, loose, invs, props, expect) \<Rightarrow> expect)"

definition demand_names :: "string list" where
  "demand_names = [''TaskList'', ''Walkers'', ''Holders'', ''NCPU'', ''GetBudget'', ''MIGRATE'', ''MigBudget'', ''LAZY''] @ FIXES
     @ [''FIX_SPLIT_COUNT'', ''SPLIT_GETS_FIRST'', ''WEAK_STORES'', ''FIX_PUT_WMB'', ''GP_ON_DEMAND'', ''PEEK_LOOSE'',
        ''CALLER_DROP'', ''OWN_DROP'']"

lemma demand_facts:
  "list_all demand_ok CONFIGS" "distinct (map fst CONFIGS)" "list_all ident FIXES"
  "distinct demand_names \<and> set demand_names = set PUT_CONSTANTS"
  by code_simp+

lemma on_lines: "map (\<lambda>f. asg f (tf (f \<notin> set off))) fs = switch_lines fs off"
  by (simp add: switch_lines_def tf_def)

lemma demand_entry:
  assumes ok: "demand_ok (n, cfg)"
  shows "demand_lines n cfg = Inr (cfg_lines (demand_spec n cfg))" "wf_cfg (demand_spec n cfg) \<and> quiet (demand_spec n cfg)"
    "check_module n = ''MC_mntput''" "map fst (cfg_consts (demand_spec n cfg)) = demand_names"
    "clear (demand_expect cfg) \<and> (\<exists>what rest. cfg_comments (demand_spec n cfg) = banner what (demand_expect cfg) # rest)"
proof -
  obtain lazy migrate split weak off ondemand loose invs props expect where
    e: "first10 cfg = (lazy, migrate, split, weak, off, ondemand, loose, invs, props, expect)" by (rule tuple10_cases)
  from ok have l: "layout_of n = ''mntput''" "entry_ok FIXES off invs props expect" by (simp_all add: e demand_ok_def)
  show "demand_lines n cfg = Inr (cfg_lines (demand_spec n cfg))"
    using on_lines [of off FIXES] by (simp add: e demand_lines_def demand_spec_def cfg_simps)
  show "wf_cfg (demand_spec n cfg) \<and> quiet (demand_spec n cfg)"
    using l(2) demand_facts(3) [THEN switches_ok]
    by (simp add: e demand_spec_def wf_cfg_def quiet_def entry_ok_def ident_eval)
  show "check_module n = ''MC_mntput''" using l(1) by (simp add: check_module_def)
  show "map fst (cfg_consts (demand_spec n cfg)) = demand_names"
    by (simp add: e demand_spec_def demand_names_def switches_def comp_def)
  show "clear (demand_expect cfg) \<and> (\<exists>what rest. cfg_comments (demand_spec n cfg) = banner what (demand_expect cfg) # rest)"
    using l(2) by (auto simp: e demand_expect_def demand_spec_def entry_ok_def)
qed

interpretation demand: cfg_suite demand_lines demand_spec CONFIGS demand_expect demand_ok "\<lambda>n. demand_modules (check_module n)"
proof
  fix n e assume ok: "demand_ok (n, e)"
  from assignsI [OF demand_entry(4) [OF ok] demand_facts(4)] demand_entry(3) [OF ok]
  show "\<exists>ks. demand_modules (check_module n) = Some ks \<and> assigns (demand_spec n e) ks"
    by (simp add: demand_modules_def)
qed (rule demand_facts(1,2) demand_entry; assumption?)+

text \<open>
  The script never fails, in whatever directory it runs: every other file keeps its content, and
  every entry of the table reads back as it says, with exactly the constants of the module that
  check.sh runs it with and the expectation of the entry; the number printed is the number of
  configurations.\<close>

theorem demand_generated:
  "\<exists>d'. gen d = Inr (d', show_nat (length CONFIGS) @ '' configurations'')
     \<and> cfgs_written (specs demand_spec CONFIGS) d d'
     \<and> delivered CONFIGS demand_spec demand_expect (\<lambda>n. demand_modules (check_module n)) d'"
proof -
  let ?d = "put_all (specs demand_spec CONFIGS) d"
  have "delivered CONFIGS demand_spec demand_expect (\<lambda>n. demand_modules (check_module n)) ?d"
    by (rule demand.delivers) (simp_all add: demand_facts(2))
  with demand.written [of d] show ?thesis unfolding gen_def demand.write_all_eq bindE_simps by blast
qed

end
