(* ===== verification/Cfg_Proposal.thy ===== *)
theory Cfg_Proposal
  imports Tlc_Cfg "HOL-Library.Product_Lexorder"
begin

text \<open>
  \<^verbatim>\<open>kernel/work.mount.gp_on_demand.proposal/tla/gen-cfgs.py\<close>: the layout modules and the
  configurations of the model of two mounts unmounted in one batch.
\<close>

section \<open>The table\<close>

definition LAYOUTS :: "(string, string list \<times> string list) dict" where
  \<open>LAYOUTS = [
     (''hw'', ([''HA''], [''WB''])),
     (''wh'', ([''HB''], [''WA''])),
     (''hh'', ([''HA'', ''HB''], [])),
     (''ww'', ([], [''WA'', ''WB''])),
     (''h'', ([''HA''], [])),
     (''w'', ([], [''WA''])),
     (''hwa'', ([''HA''], [''WA''])),
     (''full'', ([''HA'', ''HB''], [''WA'', ''WB'']))]\<close>

definition LAYOUT_DESC :: "(string, string) dict" where
  \<open>LAYOUT_DESC = [
     (''hw'', ''the umounter, a holder of A, a walker of B''),
     (''wh'', ''the umounter, a walker of A, a holder of B''),
     (''hh'', ''the umounter, a holder of A and a holder of B''),
     (''ww'', ''the umounter, a walker of A and a walker of B''),
     (''h'', ''the umounter and a holder of A; nothing else touches B''),
     (''w'', ''the umounter and a walker of A; nothing else touches B''),
     (''hwa'',
     ''the umounter, a holder of A and a walker of A, which can reach A as the holder's fs->pwd (ViaPwd); nothing else touches B''),
     (''full'', ''the umounter, a walker and a holder of each mount'')]\<close>

definition FIXES :: "string list" where
  \<open>FIXES =
     [''FIX_MB_LEGIT'', ''FIX_MB_UMOUNT'', ''FIX_MB_PUT'', ''FIX_MB_PEEK'', ''FIX_RCU_DELAY'',
     ''FIX_PUT_RCU'', ''FIX_SYNC_FLAG'', ''FIX_DOOMED_FLAG'']\<close>

definition MUTS :: "string list" where
  \<open>MUTS =
     [''PEEK_LOOSE'', ''PREV_SHAPE'', ''QUEUE_LATE'', ''FIX_PUT_RECHECK'']\<close>

definition SAFETY :: "string list" where
  \<open>SAFETY =
     [''TypeOK'', ''Ledger'', ''NoUAF'', ''DoomedIsLast'', ''NoNegative'', ''SyncClean'']\<close>

definition LIVE :: "string list" where
  \<open>LIVE =
     [''Freed'', ''AllDone'']\<close>

text \<open>The dictionary that \<^verbatim>\<open>add()\<close> stores for a configuration, and its default arguments\<close>

record pconfig =
  c_layout :: string
  c_mode :: string
  c_lazy :: bool
  c_order :: string
  c_migrate :: bool
  c_weak :: bool
  c_split :: bool
  c_off :: "string list"
  c_muts :: "string list"
  c_invs :: "string list"
  c_props :: "string list"
  c_expect :: string
  c_getbudget :: int

definition args :: "string \<Rightarrow> pconfig" where
  "args layout = \<lparr>c_layout = layout, c_mode = ''umount'', c_lazy = True, c_order = ''AB'', c_migrate = False,
     c_weak = False, c_split = True, c_off = [], c_muts = [], c_invs = SAFETY, c_props = LIVE, c_expect = ''pass'',
     c_getbudget = 1\<rparr>"

definition add :: "(string, pconfig) dict \<Rightarrow> string \<times> pconfig \<Rightarrow> (string, pconfig) dict result" where
  "add configs = (\<lambda>(name, c).
     if \<not> startswith name (c_layout c @ ''_'') then Inl (AssertionError name)
     else bindE (if c_mode c \<noteq> ''kern'' then Inr True
                 else bindE (item LAYOUTS (c_layout c)) (\<lambda>(holders, walkers). Inr (walkers = []))) (\<lambda>fine.
     if \<not> fine then Inl (AssertionError name) else Inr (AList.update name c configs)))"

definition EXPL :: string where
  "EXPL = ''exploratory, not in the series: ''"

definition CALLS :: "(string \<times> pconfig) list" where
  \<open>CALLS = [
     (''hw_lazy'', (args ''hw'')),
     (''hw_lazy_ba'', (args ''hw'')\<lparr>c_order := ''BA''\<rparr>),
     (''wh_lazy'', (args ''wh'')),
     (''wh_lazy_ba'', (args ''wh'')\<lparr>c_order := ''BA''\<rparr>),
     (''hh_lazy'', (args ''hh'')),
     (''ww_lazy'', (args ''ww'')),
     (''h_lazy'', (args ''h'')),
     (''h_lazy_ba'', (args ''h'')\<lparr>c_order := ''BA''\<rparr>),
     (''w_lazy'', (args ''w'')),
     (''hwa_lazy'', (args ''hwa'')),
     (''hwa_lazy_ba'', (args ''hwa'')\<lparr>c_order := ''BA''\<rparr>),
     (''full_lazy'', (args ''full'')\<lparr>c_expect :=
     ''pass: the five-task layout; the biggest run''\<rparr>),
     (''full_lazy_g0'', (args ''full'')\<lparr>c_getbudget := 0, c_expect :=
     ''pass: the five-task layout without the holders' extra mntget()/mntput() pairs''\<rparr>),
     (''hw_sync'', (args ''hw'')\<lparr>c_lazy := False\<rparr>),
     (''wh_sync'', (args ''wh'')\<lparr>c_lazy := False\<rparr>),
     (''wh_sync_ba'', (args ''wh'')\<lparr>c_lazy := False, c_order := ''BA''\<rparr>),
     (''ww_sync'', (args ''ww'')\<lparr>c_lazy := False\<rparr>),
     (''h_sync'', (args ''h'')\<lparr>c_lazy := False\<rparr>),
     (''hwa_sync'', (args ''hwa'')\<lparr>c_lazy := False\<rparr>),
     (''hh_lazy_migrate'', (args ''hh'')\<lparr>c_migrate := True\<rparr>),
     (''hw_lazy_weak'', (args ''hw'')\<lparr>c_migrate := True, c_weak := True\<rparr>),
     (''wh_sync_weak'', (args ''wh'')\<lparr>c_lazy := False, c_migrate := True, c_weak := True\<rparr>),
     (''hh_lazy_weak'', (args ''hh'')\<lparr>c_migrate := True, c_weak := True\<rparr>),
     (''h_witness_fast'', (args ''h'')\<lparr>c_invs := [], c_props := [''NoFastFinal''], c_expect :=
     ''violation: NoFastFinal, the witness: a mount is finished off without any grace period''\<rparr>),
     (''h_witness_after_held'', (args ''h'')\<lparr>c_invs := [], c_props := [''NoFinishAfterHeld''],
     c_expect :=
     ''violation: NoFinishAfterHeld, the witness: B (count one) is finished right after A went on the held list, no grace period before it''\<rparr>),
     (''wh_witness_after_held_ba'', (args ''wh'')\<lparr>c_order := ''BA'', c_invs := [], c_props :=
     [''NoFinishAfterHeld''], c_expect :=
     ''violation: NoFinishAfterHeld, the witness with the other order: A (the root, count one) finished after B went on the held list''\<rparr>),
     (''h_prev_witness_after_held'', (args ''h'')\<lparr>c_muts := [''PREV_SHAPE''], c_invs := [], c_props
     := [''NoFinishAfterHeld''], c_expect :=
     ''pass: the previous shape put every mount behind the first held one the plain way, after the grace period''\<rparr>),
     (''hh_no_rcu_delay'', (args ''hh'')\<lparr>c_off := [''FIX_RCU_DELAY''], c_expect :=
     ''violation: Freed, a held mount must still wait: the holder's fast-path put lands after the plain put found the count non-zero''\<rparr>),
     (''ww_sync_no_rcu_delay'', (args ''ww'')\<lparr>c_lazy := False, c_off := [''FIX_RCU_DELAY''], c_expect
     :=
     ''violation: Freed, the walker's transient increment counted, its decrement under mount_lock after the plain put''\<rparr>),
     (''hw_prev'', (args ''hw'')\<lparr>c_muts := [''PREV_SHAPE''], c_expect :=
     ''pass: the previous shape, one lock hold per mount, for comparison''\<rparr>),
     (''hw_prev_ba'', (args ''hw'')\<lparr>c_order := ''BA'', c_muts := [''PREV_SHAPE''], c_expect :=
     ''pass: the previous shape, the held mount first''\<rparr>),
     (''wh_sync_prev'', (args ''wh'')\<lparr>c_lazy := False, c_muts := [''PREV_SHAPE''], c_expect :=
     ''pass: the previous shape, synchronous''\<rparr>),
     (''hw_queue_late'', (args ''hw'')\<lparr>c_muts := [''QUEUE_LATE''], c_expect :=
     ''pass: the cleanups queued after the grace period and the held puts, the order is immaterial for safety''\<rparr>),
     (''h_queue_late'', (args ''h'')\<lparr>c_muts := [''QUEUE_LATE''], c_expect :=
     ''pass: the same with B unheld''\<rparr>),
     (''hh_loose'', (args ''hh'')\<lparr>c_muts := [''PEEK_LOOSE''], c_props := [], c_expect :=
     ''violation: DoomedIsLast, finishing a mount off at a count of two dooms it under its holder''\<rparr>),
     (''ww_sync_loose'', (args ''ww'')\<lparr>c_lazy := False, c_muts := [''PEEK_LOOSE''], c_expect :=
     ''pass: for a synchronous umount a count of two at the peek can only be a walker's transient increment, and that walker finds MNT_DOOMED under mount_lock''\<rparr>),
     (''hwa_lazy_no_mb_peek'', (args ''hwa'')\<lparr>c_off := [''FIX_MB_PEEK''], c_props := [], c_expect :=
     ''pass: the smp_mb() of mntput_unmounted() has no partner in this abstraction: a mount at count one has no holder through whose fs->pwd a walker could still find it, and a holder dropping its reference after the write section sees mnt_ns NULL and takes the slow path, whose lock_mount_hash() bumps the seqcount; a stale mnt_ns read on weakly ordered hardware is outside the abstraction''\<rparr>),
     (''ww_sync_no_mb_peek'', (args ''ww'')\<lparr>c_lazy := False, c_off := [''FIX_MB_PEEK''], c_props :=
     [], c_expect :=
     ''pass: without a holder of the same mount no walker finds an unmounted mount anymore (the hash is gone, the pwd path needs a holder), so the peek's barrier has no partner here either''\<rparr>),
     (''hwa_lazy_no_mb_put'', (args ''hwa'')\<lparr>c_off := [''FIX_MB_PUT''], c_props := [], c_expect :=
     ''violation: DoomedIsLast or NoUAF, the contrast: the smp_mb() of mntput_no_expire_slowpath() is load-bearing, the holder's final put of a lazily unmounted mount races a walker that found it as the holder's pwd, and without the barrier the sum misses the walker's increment while the walker reads the old seqcount''\<rparr>),
     (''hwa_lazy_no_mb_legit'', (args ''hwa'')\<lparr>c_off := [''FIX_MB_LEGIT''], c_props := [], c_expect
     :=
     ''violation: DoomedIsLast or NoUAF, the walker's side of the same Dekker pairing: its increment stays buffered while the holder's final put sums''\<rparr>),
     (''w_lazy_no_doomed_flag'', (args ''w'')\<lparr>c_off := [''FIX_DOOMED_FLAG''], c_props := [], c_expect
     :=
     ''violation: NoUAF, the walker whose increment the sum missed must see MNT_DOOMED under mount_lock (250cf3693060)''\<rparr>),
     (''w_sync_no_mb_legit'', (args ''w'')\<lparr>c_lazy := False, c_off := [''FIX_MB_LEGIT''], c_props :=
     [], c_expect :=
     ''violation: SyncClean or DoomedIsLast, the walker's increment stays in its store buffer while the count reads one''\<rparr>),
     (''h_sync_torn_sum'', (args ''h'')\<lparr>c_lazy := False, c_migrate := True, c_split := False, c_props
     := [], c_expect :=
     ''violation: SyncClean or DoomedIsLast, with the single counter of before 7eb84d54fac5 the sum of a migrating holder can read one with the reference held''\<rparr>),
     (''hw_nsdeath'', (args ''hw'')\<lparr>c_mode := ''nsdeath''\<rparr>),
     (''hw_nsdeath_ba'', (args ''hw'')\<lparr>c_mode := ''nsdeath'', c_order := ''BA''\<rparr>),
     (''hh_nsdeath'', (args ''hh'')\<lparr>c_mode := ''nsdeath''\<rparr>),
     (''h_nsdeath_witness_after_held'', (args ''h'')\<lparr>c_mode := ''nsdeath'', c_invs := [], c_props :=
     [''NoFinishAfterHeld''], c_expect :=
     ''violation: NoFinishAfterHeld, the witness for a dying namespace''\<rparr>),
     (''hh_kern'', (args ''hh'')\<lparr>c_mode := ''kern''\<rparr>),
     (''hh_kern_ba'', (args ''hh'')\<lparr>c_mode := ''kern'', c_order := ''BA''\<rparr>),
     (''h_kern'', (args ''h'')\<lparr>c_mode := ''kern''\<rparr>),
     (''hh_kern_weak'', (args ''hh'')\<lparr>c_mode := ''kern'', c_migrate := True, c_weak := True\<rparr>),
     (''hh_kern_no_mb_peek'', (args ''hh'')\<lparr>c_mode := ''kern'', c_off := [''FIX_MB_PEEK''], c_expect
     :=
     ''pass: no walker can find a kern_mount(), and the RMW of lock_mount_hash() already drains the umounter's buffer in this abstraction, so the model cannot show the barrier mattering here''\<rparr>),
     (''hh_kern_no_rcu_delay'', (args ''hh'')\<lparr>c_mode := ''kern'', c_off := [''FIX_RCU_DELAY''],
     c_expect := ''violation: Freed, a held kern_mount() still needs the grace period''\<rparr>),
     (''h_kern_witness_fast'', (args ''h'')\<lparr>c_mode := ''kern'', c_invs := [], c_props :=
     [''NoFastFinal''], c_expect :=
     ''violation: NoFastFinal, the witness: the unheld kern_mount() goes without a grace period''\<rparr>),
     (''hh_kern_prev'', (args ''hh'')\<lparr>c_mode := ''kern'', c_muts := [''PREV_SHAPE''], c_expect :=
     ''pass: the previous shape for kern_unmount_array()''\<rparr>),
     (''hh_recheck'', (args ''hh'')\<lparr>c_off := [''FIX_RCU_DELAY''], c_muts := [''FIX_PUT_RECHECK''],
     c_expect := ''pass: '' @ EXPL @
     ''holders only: the recheck catches every put that raced the peek''\<rparr>),
     (''hw_recheck'', (args ''hw'')\<lparr>c_off := [''FIX_RCU_DELAY''], c_muts := [''FIX_PUT_RECHECK''],
     c_expect := ''pass: '' @ EXPL @ ''a lazy walker that got -1 finishes the mount itself''\<rparr>),
     (''hwa_recheck'', (args ''hwa'')\<lparr>c_off := [''FIX_RCU_DELAY''], c_muts := [''FIX_PUT_RECHECK''],
     c_expect := ''pass: '' @ EXPL @
     ''a walker reaching the unmounted mount as the holder's pwd, lazy''\<rparr>),
     (''ww_sync_recheck'', (args ''ww'')\<lparr>c_lazy := False, c_off := [''FIX_RCU_DELAY''], c_muts :=
     [''FIX_PUT_RECHECK''], c_expect := ''violation: Freed, '' @ EXPL @
     ''the synchronous walker only drops its transient count under mount_lock (48a066e72d97) and never finishes a mount; without the grace period that drop can land after the plain put''\<rparr>),
     (''hh_recheck_weak'', (args ''hh'')\<lparr>c_migrate := True, c_weak := True, c_off :=
     [''FIX_RCU_DELAY''], c_muts := [''FIX_PUT_RECHECK''], c_expect := ''pass: '' @ EXPL @
     ''weakly ordered stores''\<rparr>),
     (''hh_kern_recheck'', (args ''hh'')\<lparr>c_mode := ''kern'', c_off := [''FIX_RCU_DELAY''], c_muts :=
     [''FIX_PUT_RECHECK''], c_expect := ''pass: '' @ EXPL @ ''kern_unmount_array()''\<rparr>),
     (''hh_kern_recheck_weak'', (args ''hh'')\<lparr>c_mode := ''kern'', c_migrate := True, c_weak := True,
     c_off := [''FIX_RCU_DELAY''], c_muts := [''FIX_PUT_RECHECK''], c_expect := ''pass: '' @ EXPL @
     ''kern_unmount_array(), weakly ordered stores''\<rparr>)]\<close>

definition CONFIGS :: "(string, pconfig) dict result" where
  "CONFIGS = foldE add [] CALLS"

section \<open>The layout modules\<close>

definition tla_set :: "string list \<Rightarrow> string" where
  "tla_set xs = ''{'' @ join '', '' (map (\<lambda>x. dq @ x @ dq) xs) @ ''}''"

text \<open>Task names have two characters; the key is the mount, then the kind.\<close>

definition tasks :: "string list \<Rightarrow> string list \<Rightarrow> string list" where
  "tasks holders walkers = ''U'' # sort_key (\<lambda>t. (code (t ! 1), code (t ! 0))) (holders @ walkers)"

definition mc_lines :: "string \<Rightarrow> string list \<times> string list \<Rightarrow> string list result" where
  \<open>mc_lines layout = (\<lambda>(holders, walkers). let ts = tasks holders walkers in
     bindE (item LAYOUT_DESC layout) (\<lambda>desc.
     Inr [replicate 29 CHR ''-'' @ '' MODULE MC_'' @ layout @ '' '' @ replicate 29 CHR ''-'',
          ''(* The layout for MntPut: '' @ desc @ ''; two CPUs. *)'',
          ''(* Generated by gen-cfgs.py. *)'',
          ''EXTENDS MntPut, TLC'',
          [],
          ''TaskListDef == <<'' @ join '', '' (map (\<lambda>t. ''"'' @ t @ ''"'') ts) @ ''>>'',
          ''TaskMountDef == '' @ join '' @@ '' (map (\<lambda>t. ''("'' @ t @ ''" :> "'' @ [t ! 1] @ ''")'') (tl ts)),
          ''OrderAB == <<"A", "B">>'',
          ''OrderBA == <<"B", "A">>'',
          replicate 77 CHR ''='']))\<close>

definition mc_file :: "string \<Rightarrow> string" where
  "mc_file layout = ''MC_'' @ layout @ ''.tla''"

definition write_module :: "dir \<Rightarrow> string \<times> string list \<times> string list \<Rightarrow> dir result" where
  "write_module d = (\<lambda>(layout, l). bindE (mc_lines layout l) (\<lambda>ls. Inr (AList.update (mc_file layout) (file_text ls) d)))"

section \<open>The configurations\<close>

definition prop_lines :: "string \<Rightarrow> pconfig \<Rightarrow> string list result" where
  \<open>prop_lines name c =
     bindE (item LAYOUTS (c_layout c)) (\<lambda>(holders, walkers).
     Inr ([remark (''generated by gen-cfgs.py: MntPut (work.mount.gp_on_demand.proposal), expected: '' @ c_expect c),
           ''SPECIFICATION Spec'', ''CONSTANTS'',
           ''  TaskList <- TaskListDef'', ''  TaskMount <- TaskMountDef'',
           ''  BatchOrder <- Order'' @ c_order c,
           ''  Walkers = '' @ tla_set walkers, ''  Holders = '' @ tla_set holders,
           ''  NCPU = 2'', ''  GetBudget = '' @ show_int (c_getbudget c),
           ''  MIGRATE = '' @ tf (c_migrate c), ''  MigBudget = '' @ show_int (if c_migrate c then 2 else 1),
           ''  MODE = "'' @ c_mode c @ ''"'', ''  LAZY = '' @ tf (c_lazy c)]
          @ map (\<lambda>f. asg f (tf (f \<notin> set (c_off c)))) FIXES
          @ [''  FIX_SPLIT_COUNT = '' @ tf (c_split c), ''  SPLIT_GETS_FIRST = FALSE'',
             ''  WEAK_STORES = '' @ tf (c_weak c), ''  FIX_PUT_WMB = '' @ tf (c_split c)]
          @ map (\<lambda>mu. asg mu (tf (mu \<in> set (c_muts c)))) MUTS
          @ (if c_invs c \<noteq> [] then ''INVARIANTS'' # map indent (c_invs c) else [])
          @ (if c_props c \<noteq> [] then ''PROPERTIES'' # map indent (c_props c) else [])))\<close>

definition gen :: "dir \<Rightarrow> (dir \<times> string) result" where
  "gen d = bindE CONFIGS (\<lambda>configs.
     bindE (foldE write_module d LAYOUTS) (\<lambda>d.
     bindE (write_all prop_lines configs d) (\<lambda>d.
     Inr (d, show_nat (length configs) @ '' configurations, '' @ show_nat (length LAYOUTS) @ '' layouts''))))"

text \<open>The constants of \<^verbatim>\<open>MntPut.tla\<close>, which the layout modules extend\<close>

definition PUT_CONSTANTS :: "string list" where
  "PUT_CONSTANTS =
     [''TaskList'', ''Walkers'', ''Holders'', ''TaskMount'', ''BatchOrder'', ''NCPU'', ''GetBudget'',
     ''MIGRATE'', ''MigBudget'', ''MODE'', ''LAZY'', ''FIX_MB_LEGIT'', ''FIX_MB_UMOUNT'', ''FIX_MB_PUT'',
     ''FIX_MB_PEEK'', ''FIX_RCU_DELAY'', ''FIX_PUT_RCU'', ''FIX_SYNC_FLAG'', ''FIX_DOOMED_FLAG'',
     ''FIX_SPLIT_COUNT'', ''SPLIT_GETS_FIRST'', ''WEAK_STORES'', ''FIX_PUT_WMB'', ''PEEK_LOOSE'',
     ''PREV_SHAPE'', ''QUEUE_LATE'', ''FIX_PUT_RECHECK'']"

end
