(* ===== verification/Cfg_Proposal_Props.thy ===== *)
theory Cfg_Proposal_Props
  imports Cfg_Proposal "HOL-Library.Multiset"
begin

text \<open>
  What \<^verbatim>\<open>kernel/work.mount.gp_on_demand.proposal/tla/gen-cfgs.py\<close> writes: the modules of the layouts
  and the configurations that run with them, and that the two agree on the tasks.
\<close>

section \<open>The table and the entries\<close>

definition call_ok :: "string \<times> pconfig \<Rightarrow> bool" where
  "call_ok = (\<lambda>(n, c). layout_of n = c_layout c \<and> startswith n (c_layout c @ ''_'')
     \<and> (case map_of LAYOUTS (c_layout c) of None \<Rightarrow> False
        | Some (hs, ws) \<Rightarrow> list_all plain hs \<and> list_all plain ws \<and> (c_mode c = ''kern'' \<longrightarrow> ws = []))
     \<and> plain (c_order c) \<and> plain (c_mode c) \<and> list_all (\<lambda>f. List.member MUTS f) (c_muts c)
     \<and> entry_ok FIXES (c_off c) (c_invs c) (c_props c) (c_expect c))"

definition prop_modules :: "string \<Rightarrow> string list option" where
  "prop_modules m = map_of (map (\<lambda>(l, hw). (''MC_'' @ l, PUT_CONSTANTS)) LAYOUTS) m"

definition muts_on :: "string list \<Rightarrow> (string \<times> cval) list" where
  "muts_on ms = map (\<lambda>mu. (mu, Val (tf (mu \<in> set ms)))) MUTS"

definition prop_spec :: "string \<Rightarrow> pconfig \<Rightarrow> tlc_cfg" where
  "prop_spec name c = (case map_of LAYOUTS (c_layout c) of None \<Rightarrow> empty_cfg | Some (hs, ws) \<Rightarrow>
     \<lparr>cfg_comments = [banner '': MntPut (work.mount.gp_on_demand.proposal)'' (c_expect c)], cfg_spec = ''Spec'',
      cfg_consts = [(''TaskList'', Def ''TaskListDef''), (''TaskMount'', Def ''TaskMountDef''),
         (''BatchOrder'', Def (''Order'' @ c_order c)), (''Walkers'', Val (braces (map quoted ws))),
         (''Holders'', Val (braces (map quoted hs))), (''NCPU'', Val ''2''), (''GetBudget'', Val (show_int (c_getbudget c))),
         (''MIGRATE'', Val (tf (c_migrate c))), (''MigBudget'', Val (show_int (if c_migrate c then 2 else 1))),
         (''MODE'', Val (quoted (c_mode c))), (''LAZY'', Val (tf (c_lazy c)))] @ switches FIXES (c_off c)
         @ [(''FIX_SPLIT_COUNT'', Val (tf (c_split c))), (''SPLIT_GETS_FIRST'', Val ''FALSE''),
            (''WEAK_STORES'', Val (tf (c_weak c))), (''FIX_PUT_WMB'', Val (tf (c_split c)))] @ muts_on (c_muts c),
      cfg_invs = c_invs c, cfg_props = c_props c\<rparr>)"

definition prop_names :: "string list" where
  "prop_names = [''TaskList'', ''TaskMount'', ''BatchOrder'', ''Walkers'', ''Holders'', ''NCPU'', ''GetBudget'', ''MIGRATE'',
     ''MigBudget'', ''MODE'', ''LAZY''] @ FIXES @ [''FIX_SPLIT_COUNT'', ''SPLIT_GETS_FIRST'', ''WEAK_STORES'', ''FIX_PUT_WMB''] @ MUTS"

lemma proposal_facts:
  "list_all call_ok CALLS" "distinct (map fst CALLS)" "list_all ident FIXES" "list_all ident MUTS"
  "distinct prop_names \<and> set prop_names = set PUT_CONSTANTS"
  "list_all (\<lambda>(l, hw). prop_modules (''MC_'' @ l) = Some PUT_CONSTANTS \<and> List.member (dkeys LAYOUT_DESC) l) LAYOUTS"
  "distinct (map fst LAYOUTS)"
  by code_simp+

lemma call_layout:
  assumes "call_ok (n, c)"
  obtains hs ws where "map_of LAYOUTS (c_layout c) = Some (hs, ws)" "list_all plain hs" "list_all plain ws"
    "c_mode c = ''kern'' \<Longrightarrow> ws = []" "prop_modules (check_module n) = Some PUT_CONSTANTS"
proof (cases "map_of LAYOUTS (c_layout c)")
  case None
  with assms show ?thesis by (simp add: call_ok_def)
next
  case (Some v)
  from map_of_SomeD [OF Some] proposal_facts(6) assms have "prop_modules (check_module n) = Some PUT_CONSTANTS"
    by (auto simp: list_all_iff call_ok_def check_module_def)
  with that Some assms show ?thesis by (cases v) (auto simp: call_ok_def)
qed

text \<open>\<^verbatim>\<open>add()\<close> raises nothing, so that the table is the list of the calls.\<close>

lemma adds:
  "list_all call_ok cs \<Longrightarrow> distinct (map fst cs) \<Longrightarrow> set (dkeys acc) \<inter> set (map fst cs) = {} \<Longrightarrow>
   foldE add acc cs = Inr (acc @ cs)"
proof (induction cs arbitrary: acc)
  case (Cons x cs)
  obtain n c where x: "x = (n, c)" by (cases x)
  from Cons.prems have ok: "call_ok (n, c)" and new: "n \<notin> set (dkeys acc)" by (simp_all add: x)
  from call_layout [OF ok] obtain hs ws where
    l: "map_of LAYOUTS (c_layout c) = Some (hs, ws)" "c_mode c = ''kern'' \<Longrightarrow> ws = []" by metis
  have "startswith n (c_layout c @ ''_'')" using ok by (simp add: call_ok_def)
  with l have "add acc x = Inr (AList.update n c acc)"
    by (cases "c_mode c = ''kern''") (simp_all add: add_def x item_def dget_def)
  also have "\<dots> = Inr (acc @ [(n, c)])" using dkeys_update_new [OF new] by simp
  finally have "add acc x = Inr (acc @ [x])" by (simp add: x)
  moreover have "foldE add (acc @ [x]) cs = Inr ((acc @ [x]) @ cs)"
    by (rule Cons.IH) (use Cons.prems x in auto)
  ultimately show ?case by simp
qed simp

lemma CONFIGS_eq: "CONFIGS = Inr CALLS"
  using adds [OF proposal_facts(1,2), of "[]"] by (simp add: CONFIGS_def)

lemma tla_set_braces: "tla_set xs = braces (map quoted xs)"
  by (simp add: tla_set_def braces_def quoted_def [abs_def])

lemma prop_switch_lines: "map (\<lambda>f. asg f (tf (f \<notin> set off))) fs = switch_lines fs off"
  by (simp add: switch_lines_def tf_def)

lemma muts_lines: "map const_line (muts_on ms) = map (\<lambda>mu. asg mu (tf (mu \<in> set ms))) MUTS"
  by (simp add: muts_on_def)

lemma muts_ok: "list_all const_ok (muts_on ms)" "list_all (\<lambda>(k, v). no_colon (cval_text v)) (muts_on ms)"
  using proposal_facts(4) by (auto simp: muts_on_def list_all_iff const_ok_def)

lemma quoted_set:
  "list_all plain xs \<Longrightarrow> one_line (braces (map quoted xs)) \<and> no_colon (braces (map quoted xs))"
  by (intro conjI one_line_braces no_colon_braces) (auto simp: list_all_iff plain_def quoted_def one_line_def)

lemma call_entry:
  assumes ok: "call_ok (n, c)"
  shows "prop_lines n c = Inr (cfg_lines (prop_spec n c))" "wf_cfg (prop_spec n c) \<and> quiet (prop_spec n c)"
    "clear (c_expect c) \<and> (\<exists>what rest. cfg_comments (prop_spec n c) = banner what (c_expect c) # rest)"
    "\<exists>ks. prop_modules (check_module n) = Some ks \<and> assigns (prop_spec n c) ks"
proof -
  from call_layout [OF ok] obtain hs ws where
    l: "map_of LAYOUTS (c_layout c) = Some (hs, ws)" "list_all plain hs" "list_all plain ws"
      "prop_modules (check_module n) = Some PUT_CONSTANTS" by metis
  from ok have t: "plain (c_order c)" "plain (c_mode c)" "entry_ok FIXES (c_off c) (c_invs c) (c_props c) (c_expect c)"
    by (simp_all add: call_ok_def)
  show "prop_lines n c = Inr (cfg_lines (prop_spec n c))"
    using prop_switch_lines [of "c_off c" FIXES] muts_lines [of "c_muts c"]
    by (simp add: prop_lines_def prop_spec_def l(1) item_def dget_def tla_set_braces cfg_simps quoted_def)
  show "wf_cfg (prop_spec n c) \<and> quiet (prop_spec n c)"
    using quoted_set [OF l(2)] quoted_set [OF l(3)] t muts_ok [of "c_muts c"] proposal_facts(3) [THEN switches_ok]
    by (simp add: prop_spec_def l(1) wf_cfg_def quiet_def entry_ok_def ident_eval plain_def quoted_def)
  show "clear (c_expect c) \<and> (\<exists>what rest. cfg_comments (prop_spec n c) = banner what (c_expect c) # rest)"
    using t(3) by (auto simp: prop_spec_def l(1) entry_ok_def)
  have "map fst (cfg_consts (prop_spec n c)) = prop_names"
    by (simp add: prop_spec_def l(1) prop_names_def switches_def muts_on_def comp_def)
  from assignsI [OF this proposal_facts(5)] l(4)
  show "\<exists>ks. prop_modules (check_module n) = Some ks \<and> assigns (prop_spec n c) ks" by blast
qed

interpretation proposal: cfg_suite prop_lines prop_spec CALLS c_expect call_ok "\<lambda>n. prop_modules (check_module n)"
  by standard (rule proposal_facts(1,2) call_entry; assumption?)+

section \<open>The modules\<close>

definition module_text :: "string \<Rightarrow> string list \<times> string list \<Rightarrow> string" where
  "module_text l hw = (case mc_lines l hw of Inr ls \<Rightarrow> file_text ls | Inl _ \<Rightarrow> [])"

definition put_module :: "dir \<Rightarrow> string \<times> string list \<times> string list \<Rightarrow> dir" where
  "put_module d = (\<lambda>(l, hw). AList.update (mc_file l) (module_text l hw) d)"

lemma layout_desc:
  assumes "(l, hw) \<in> set LAYOUTS"
  obtains desc where "item LAYOUT_DESC l = Inr desc"
proof -
  have "l \<in> set (dkeys LAYOUT_DESC)" using assms proposal_facts(6) by (auto simp: list_all_iff simp del: set_map)
  from dkeys_lookup [OF this] that show ?thesis by (auto simp: item_def dget_def)
qed

lemma module_ok: "(l, hw) \<in> set LAYOUTS \<Longrightarrow> mc_lines l hw \<noteq> Inl err"
  by (rule layout_desc, assumption, cases hw) (simp add: mc_lines_def Let_def)

lemma write_modules: "set ls \<subseteq> set LAYOUTS \<Longrightarrow> foldE write_module d ls = Inr (foldl put_module d ls)"
proof (induction ls arbitrary: d)
  case (Cons x ls)
  obtain l hw where x: "x = (l, hw)" by (cases x)
  from Cons.prems have "(l, hw) \<in> set LAYOUTS" by (simp add: x)
  from module_ok [OF this] obtain t where "mc_lines l hw = Inr t" by (cases "mc_lines l hw") auto
  with Cons show ?case by (simp add: x write_module_def put_module_def module_text_def)
qed simp


lemma mc_cfg_apart: "mc_file l \<noteq> cfg_file n"
proof
  assume "mc_file l = cfg_file n"
  then have "last (mc_file l) = last (cfg_file n)" by simp
  then show False by (simp add: mc_file_def cfg_file_def)
qed

lemma put_module_in:
  assumes "distinct (map fst ls)" "(l, hw) \<in> set ls"
  shows "map_of (foldl put_module d ls) (mc_file l) = Some (module_text l hw)"
  using assms
proof (induction ls arbitrary: d)
  case (Cons x ls)
  show ?case
  proof (cases "x = (l, hw)")
    case True
    have "map_of (foldl put_module e ys) (mc_file l) = map_of e (mc_file l)" if "l \<notin> set (map fst ys)" for e ys
      using that by (induction ys arbitrary: e) (auto simp: put_module_def map_of_update_dict mc_file_def)
    moreover have "put_module d x = AList.update (mc_file l) (module_text l hw) d" by (simp add: True put_module_def)
    ultimately show ?thesis using Cons.prems(1) True by (simp add: map_of_update_dict)
  next
    case False
    with Cons show ?thesis by auto
  qed
qed simp

lemma put_module_other:
  "f \<notin> mc_file ` set (map fst ls) \<Longrightarrow> map_of (foldl put_module d ls) f = map_of d f"
  by (induction ls arbitrary: d) (auto simp: put_module_def map_of_update_dict)

lemma proposal_gen:
  "gen d = Inr (put_all (specs prop_spec CALLS) (foldl put_module d LAYOUTS),
     show_nat (length CALLS) @ '' configurations, '' @ show_nat (length LAYOUTS) @ '' layouts'')"
  unfolding gen_def CONFIGS_eq write_modules [OF subset_refl] proposal.write_all_eq bindE_simps by (rule refl)

section \<open>Properties\<close>

text \<open>
  C22: The script never fails, in whatever directory it runs: no assertion of add() fires. Afterwards
  the module of every layout is there, every call of add() reads back as its arguments say, with
  exactly the constants of the module that check.sh runs it with and the expectation of the call, and
  every other file keeps its content.\<close>

theorem proposal_generated:
  "\<exists>d' out. gen d = Inr (d', out)
     \<and> delivered CALLS prop_spec c_expect (\<lambda>n. prop_modules (check_module n)) d'
     \<and> list_all (\<lambda>(l, hw). map_of d' (mc_file l) = Some (module_text l hw)) LAYOUTS
     \<and> (\<forall>f. f \<in> mc_file ` set (dkeys LAYOUTS) \<or> f \<in> cfg_file ` set (dkeys CALLS) \<or> map_of d' f = map_of d f)"
proof -
  let ?m = "foldl put_module d LAYOUTS"
  let ?d = "put_all (specs prop_spec CALLS) ?m"
  have "delivered CALLS prop_spec c_expect (\<lambda>n. prop_modules (check_module n)) ?d"
    by (rule proposal.delivers) (simp_all add: proposal_facts(2))
  moreover have "map_of ?d (mc_file l) = Some (module_text l hw)" if "(l, hw) \<in> set LAYOUTS" for l hw
  proof -
    have "mc_file l \<notin> cfg_file ` set (map fst (specs prop_spec CALLS))" using mc_cfg_apart by (auto simp del: set_map)
    from put_all_other [OF this] put_module_in [OF proposal_facts(7) that] show ?thesis by simp
  qed
  then have "list_all (\<lambda>(l, hw). map_of ?d (mc_file l) = Some (module_text l hw)) LAYOUTS" by (auto simp: list_all_iff)
  moreover have "f \<in> mc_file ` set (dkeys LAYOUTS) \<or> f \<in> cfg_file ` set (dkeys CALLS) \<or> map_of ?d f = map_of d f" for f
  proof (cases "f \<in> cfg_file ` set (dkeys CALLS)")
    case False
    then have "map_of ?d f = map_of ?m f" by (intro put_all_other) (simp only: dkeys_specs not_False_eq_True)
    with put_module_other [of f LAYOUTS d] show ?thesis by metis
  qed blast
  ultimately show ?thesis using proposal_gen [of d] by blast
qed

text \<open>The tasks a layout's module lists, and those the configurations of the layout name\<close>

lemma tasks_mset: "mset (tasks hs ws) = add_mset ''U'' (mset hs + mset ws)"
  by (simp add: tasks_def)

lemma tasks_of_layouts: "list_all (\<lambda>(l, hs, ws). distinct (tasks hs ws)) LAYOUTS"
  by code_simp

definition task_list_line :: "string list \<Rightarrow> string" where
  "task_list_line ts = ''TaskListDef == <<'' @ join '', '' (map quoted ts) @ ''>>''"

lemma module_tasks:
  assumes "map_of LAYOUTS l = Some (hs, ws)"
  shows "\<exists>ls. mc_lines l (hs, ws) = Inr ls \<and> List.member ls (task_list_line (tasks hs ws))"
  by (rule layout_desc [OF map_of_SomeD [OF assms]])
     (simp add: mc_lines_def task_list_line_def quoted_def [abs_def] Let_def)

definition consistent :: "string \<times> pconfig \<Rightarrow> bool" where
  "consistent = (\<lambda>(n, c). \<exists>hs ws ls ts. map_of LAYOUTS (c_layout c) = Some (hs, ws)
     \<and> mc_lines (layout_of n) (hs, ws) = Inr ls \<and> List.member ls (task_list_line ts)
     \<and> hd ts = ''U'' \<and> distinct ts \<and> mset ts = add_mset ''U'' (mset hs + mset ws)
     \<and> map_of (cfg_consts (prop_spec n c)) ''Holders'' = Some (Val (braces (map quoted hs)))
     \<and> map_of (cfg_consts (prop_spec n c)) ''Walkers'' = Some (Val (braces (map quoted ws)))
     \<and> (c_mode c \<noteq> ''kern'' \<or> ws = []))"

text \<open>
  C23: Every configuration agrees with the module that it runs with on the tasks: the task list of the
  module is the umounter first, then every holder and every walker of the configuration, each once;
  and a configuration of kern_unmount_array() has no walker.\<close>

theorem proposal_tasks: "list_all consistent CALLS"
proof -
  have "consistent (n, c)" if "(n, c) \<in> set CALLS" for n c
  proof -
    from in_table [OF proposal_facts(1) that] have ok: "call_ok (n, c)" .
    from call_layout [OF ok] obtain hs ws where
      l: "map_of LAYOUTS (c_layout c) = Some (hs, ws)" and k: "c_mode c \<noteq> ''kern'' \<or> ws = []" by metis
    have "layout_of n = c_layout c" using ok by (simp add: call_ok_def)
    with module_tasks [OF l] obtain ls where
      "mc_lines (layout_of n) (hs, ws) = Inr ls" "List.member ls (task_list_line (tasks hs ws))" by auto
    moreover have "distinct (tasks hs ws)" using tasks_of_layouts map_of_SomeD [OF l] by (auto simp: list_all_iff)
    moreover have "hd (tasks hs ws) = ''U''" by (simp add: tasks_def)
    moreover have "map_of (cfg_consts (prop_spec n c)) ''Holders'' = Some (Val (braces (map quoted hs)))"
      "map_of (cfg_consts (prop_spec n c)) ''Walkers'' = Some (Val (braces (map quoted ws)))"
      by (simp_all add: prop_spec_def l)
    ultimately show ?thesis using l k tasks_mset unfolding consistent_def prod.case by blast
  qed
  then show ?thesis by (auto simp: list_all_iff)
qed

end
