(* ===== verification/Fiber_Parse.thy ===== *)
theory Fiber_Parse
  imports Py_Re Py_Json
begin

text \<open>
  The reader of TLC's values in \<^verbatim>\<open>systemd/fiber/tla/trace.py\<close>: \<^verbatim>\<open>split_top()\<close> and \<^verbatim>\<open>parse()\<close>.

  \<open>tla\<close> is a TLA+ value and \<open>render\<close> its notation; the theorem at the end says that \<open>parse\<close> reads
  the notation back, for values in which no function of several entries lies inside a function.
\<close>

section \<open>Values\<close>

text \<open>The Python values \<^verbatim>\<open>parse()\<close> returns\<close>

datatype tval = TBool bool | TInt int | TStr string | TList "tval list" | TDict "(string \<times> tval) list"

section \<open>Splitting at the top level\<close>

function split_loop :: "string list \<Rightarrow> int \<Rightarrow> string \<Rightarrow> string \<Rightarrow> string list" where
  "split_loop out depth cur [] = (if strip cur \<noteq> [] then out @ [strip cur] else out)"
| "split_loop out depth cur (c # cs) =
     (if startswith (c # cs) ''<<'' then split_loop out (depth + 1) (cur @ ''<<'') (tl cs)
      else if startswith (c # cs) ''>>'' then split_loop out (depth - 1) (cur @ ''>>'') (tl cs)
      else let depth = (if c \<in> set ''[{('' then depth + 1 else if c \<in> set '']})'' then depth - 1 else depth) in
        if c = CHR '','' \<and> depth = 0 then split_loop (out @ [strip cur]) depth [] cs
        else split_loop out depth (cur @ [c]) cs)"
  by pat_completeness auto
termination by (relation "measure (\<lambda>(out, depth, cur, s). length s)") auto

definition split_top :: "string \<Rightarrow> string list" where
  "split_top s = split_loop [] 0 [] s"

lemma split_loop_length:
  "x \<in> set (split_loop out depth cur s) \<Longrightarrow> x \<in> set out \<or> length x \<le> length cur + length s"
proof (induction out depth cur s rule: split_loop.induct)
  case (1 out depth cur)
  then show ?case using strip_length [of cur] by (auto split: if_splits)
next
  case (2 out depth cur c cs)
  show ?case
  proof (cases "prefix ''<<'' (c # cs) \<or> prefix ''>>'' (c # cs)")
    case True
    then obtain ds where "cs = c # ds" by (cases cs) auto
    with True 2 show ?thesis by auto
  next
    case False
    with 2 strip_length [of cur] show ?thesis
      by (simp add: Let_def del: split_loop.simps(1) split: if_splits) fastforce+
  qed
qed

lemma split_top_length: "x \<in> set (split_top s) \<Longrightarrow> length x \<le> length s"
  using split_loop_length [of x "[]" 0 "[]" s] by (simp add: split_top_def)

section \<open>Parsing\<close>

text \<open>\<^verbatim>\<open>t[k:-k]\<close>, and \<^verbatim>\<open>a, b = s.split(sep, 1)\<close>\<close>

definition inner :: "nat \<Rightarrow> string \<Rightarrow> string" where
  "inner k t = take (length t - 2 * k) (drop k t)"

definition cut :: "string \<Rightarrow> string \<Rightarrow> (string \<times> string) result" where
  "cut sep s = (case str_find sep s of
     None \<Rightarrow> Inl (ValueError ''not enough values to unpack (expected 2, got 1)'')
   | Some n \<Rightarrow> Inr (take n s, drop (n + length sep) s))"

definition AT :: rx where
  "AT = seqs [Cls is_space, Lit ''@@'', Cls is_space]"

definition pieces :: "string \<Rightarrow> string list" where
  "pieces s = (case re_split AT s of (h, ps) \<Rightarrow> h # map snd ps)"

lemma inner_length: "t \<noteq> [] \<Longrightarrow> 0 < k \<Longrightarrow> length (inner k t) < length t"
  by (cases t) (auto simp: inner_def)

lemma cut_length: "cut sep s = Inr (a, b) \<Longrightarrow> length b \<le> length s"
  by (auto simp: cut_def split: option.splits)

lemma pieces_length: "x \<in> set (pieces s) \<Longrightarrow> length x \<le> length s"
proof -
  obtain h ps where r: "re_split AT s = (h, ps)" by fastforce
  assume "x \<in> set (pieces s)"
  then consider "x = h" | m where "(m, x) \<in> set ps" by (auto simp: pieces_def r)
  then show ?thesis
  proof cases
    case 2
    have "length x \<le> length (concat (map (\<lambda>(m, t). m_text m @ t) ps))"
      using 2 by (induction ps) auto
    then show ?thesis using re_split_glue [OF r] by (metis length_append trans_le_add2)
  qed (use re_split_glue [OF r] in \<open>metis length_append le_add1\<close>)
qed

function (sequential) parse :: "string \<Rightarrow> tval result" where
  "parse s = (let t = strip s in
     if startswith t ''['' \<and> endswith t '']'' then
       bindE (mapE (\<lambda>part. bindE (cut ''|->'' part) (\<lambda>(k, v). bindE (parse v) (\<lambda>x. Inr (strip k, x))))
                (split_top (inner 1 t)))
         (\<lambda>d. Inr (TDict (dmerge [] d)))
     else if startswith t ''('' \<and> endswith t '')'' \<and> str_in '':>'' t then
       bindE (mapE (\<lambda>part. bindE (cut '':>'' part) (\<lambda>(k, v). bindE (parse v) (\<lambda>x. Inr (strip_by (\<lambda>c. c = cdq) (strip k), x))))
                (pieces (inner 1 t)))
         (\<lambda>d. Inr (TDict (dmerge [] d)))
     else if startswith t ''<<'' \<and> endswith t ''>>'' then
       bindE (mapE parse (split_top (inner 2 t))) (\<lambda>vs. Inr (TList vs))
     else if startswith t ''{'' \<and> endswith t ''}'' then
       bindE (mapE parse (split_top (inner 1 t))) (\<lambda>vs. Inr (TList vs))
     else if startswith t dq \<and> endswith t dq then Inr (TStr (inner 1 t))
     else if t \<in> set [''TRUE'', ''FALSE''] then Inr (TBool (t = ''TRUE''))
     else (case py_int t of Inr i \<Rightarrow> Inr (TInt i) | Inl _ \<Rightarrow> Inr (TStr t)))"
  by pat_completeness auto
termination
proof (relation "measure length", goal_cases)
  case (2 s t x a b v)
  then have "length v \<le> length (inner 1 t)" using split_top_length cut_length by (metis order_trans)
  moreover have "length (inner 1 t) < length t" using 2 by (intro inner_length) auto
  ultimately show ?case using 2(1) strip_length [of s] by simp
next
  case (3 s t x a b v)
  then have "length v \<le> length (inner 1 t)" using pieces_length cut_length by (metis order_trans)
  moreover have "length (inner 1 t) < length t" using 3 by (intro inner_length) auto
  ultimately show ?case using 3(1) strip_length [of s] by simp
next
  case (4 s t x)
  then have "length x \<le> length (inner 2 t)" using split_top_length by blast
  moreover have "length (inner 2 t) < length t" using 4 by (intro inner_length) auto
  ultimately show ?case using 4(1) strip_length [of s] by simp
next
  case (5 s t x)
  then have "length x \<le> length (inner 1 t)" using split_top_length by blast
  moreover have "length (inner 1 t) < length t" using 5 by (intro inner_length) auto
  ultimately show ?case using 5(1) strip_length [of s] by simp
qed simp

declare parse.simps [simp del]

section \<open>The notation of TLA+ values\<close>

text \<open>Records, functions (with the texts of their keys, quoted or bare), sequences, sets, strings,
  booleans, integers and model values\<close>

datatype key = Bare string | Quoted string

datatype tla =
    VRec "(string \<times> tla) list"
  | VFun "(key \<times> tla) list"
  | VSeq "tla list"
  | VSet "tla list"
  | VStr string
  | VBool bool
  | VInt int
  | VName string

fun key_text :: "key \<Rightarrow> string" where
  "key_text (Bare k) = k"
| "key_text (Quoted k) = dq @ k @ dq"

fun key_name :: "key \<Rightarrow> string" where
  "key_name (Bare k) = k"
| "key_name (Quoted k) = k"

fun render :: "tla \<Rightarrow> string" where
  "render (VRec kvs) = ''['' @ join '', '' (map (\<lambda>(k, v). k @ '' |-> '' @ render v) kvs) @ '']''"
| "render (VFun kvs) = ''('' @ join '' @@ '' (map (\<lambda>(k, v). key_text k @ '' :> '' @ render v) kvs) @ '')''"
| "render (VSeq vs) = ''<<'' @ join '', '' (map render vs) @ ''>>''"
| "render (VSet vs) = ''{'' @ join '', '' (map render vs) @ ''}''"
| "render (VStr s) = dq @ s @ dq"
| "render (VBool b) = (if b then ''TRUE'' else ''FALSE'')"
| "render (VInt i) = show_int i"
| "render (VName s) = s"

text \<open>The Python value it stands for\<close>

fun pyv :: "tla \<Rightarrow> tval" where
  "pyv (VRec kvs) = TDict (map (\<lambda>(k, v). (k, pyv v)) kvs)"
| "pyv (VFun kvs) = TDict (map (\<lambda>(k, v). (key_name k, pyv v)) kvs)"
| "pyv (VSeq vs) = TList (map pyv vs)"
| "pyv (VSet vs) = TList (map pyv vs)"
| "pyv (VStr s) = TStr s"
| "pyv (VBool b) = TBool b"
| "pyv (VInt i) = TInt i"
| "pyv (VName s) = TStr s"

text \<open>Names are identifiers, strings have no punctuation of the notation in them, and no function of
  two or more entries lies inside a function (\<open>flat\<close>).\<close>

definition word :: "string \<Rightarrow> bool" where
  "word s = (s \<noteq> [] \<and> list_all is_word s)"

definition loud :: "char \<Rightarrow> bool" where
  "loud c = (c \<in> set ''[](){}<>,@'' \<or> c = cdq)"

definition calm :: "string \<Rightarrow> bool" where
  "calm s = list_all (\<lambda>c. \<not> loud c) s"

fun key_ok :: "key \<Rightarrow> bool" where
  "key_ok (Bare k) = word k"
| "key_ok (Quoted k) = word k"

fun flat :: "tla \<Rightarrow> bool" where
  "flat (VRec kvs) = list_all (\<lambda>(k, v). flat v) kvs"
| "flat (VFun kvs) = (length kvs \<le> 1 \<and> list_all (\<lambda>(k, v). flat v) kvs)"
| "flat (VSeq vs) = list_all flat vs"
| "flat (VSet vs) = list_all flat vs"
| "flat _ = True"

fun readable :: "tla \<Rightarrow> bool" where
  "readable (VRec kvs) = (list_all (\<lambda>(k, v). word k \<and> readable v) kvs \<and> distinct (map fst kvs))"
| "readable (VFun kvs) = (kvs \<noteq> [] \<and> list_all (\<lambda>(k, v). key_ok k \<and> readable v \<and> flat v) kvs
     \<and> distinct (map (\<lambda>(k, v). key_name k) kvs))"
| "readable (VSeq vs) = list_all readable vs"
| "readable (VSet vs) = list_all readable vs"
| "readable (VStr s) = calm s"
| "readable (VName s) = (word s \<and> \<not> is_digit (hd s) \<and> s \<noteq> ''TRUE'' \<and> s \<noteq> ''FALSE'')"
| "readable _ = True"

section \<open>Texts that the splitter passes over\<close>

text \<open>Read from a depth of at least \<open>n\<close>, the text is taken into the current piece as a whole and
  leaves the depth as it was.\<close>

definition skips :: "int \<Rightarrow> string \<Rightarrow> bool" where
  "skips n s = (\<forall>out depth cur rest. n \<le> depth \<longrightarrow>
     split_loop out depth cur (s @ rest) = split_loop out depth (cur @ s) rest)"

lemma skipsD: "skips n s \<Longrightarrow> n \<le> depth \<Longrightarrow>
    split_loop out depth cur (s @ rest) = split_loop out depth (cur @ s) rest"
  by (simp add: skips_def)

lemma skips_Nil [simp]: "skips n []"
  by (simp add: skips_def)

lemma skips_append: "skips n s \<Longrightarrow> skips n t \<Longrightarrow> skips n (s @ t)"
  by (simp add: skips_def)

lemma skips_mono: "skips n s \<Longrightarrow> n \<le> m \<Longrightarrow> skips m s"
  by (simp add: skips_def)

lemma skips_char: "c \<notin> set ''[](){}<>,'' \<Longrightarrow> skips n [c]"
  by (auto simp: skips_def Let_def)

lemma skips_chars: "list_all (\<lambda>c. c \<notin> set ''[](){}<>,'') s \<Longrightarrow> skips n s"
proof (induction s)
  case (Cons c s)
  then have "skips n ([c] @ s)" by (intro skips_append skips_char) simp_all
  then show ?case by simp
qed simp

lemma skips_comma: "1 \<le> n \<Longrightarrow> skips n '', ''"
  by (simp add: skips_def Let_def)

lemma skips_arrows: "skips n '' |-> ''" "skips n '' :> ''"
  by (simp_all add: skips_def Let_def)

lemma skips_brackets:
  assumes "skips (n + 1) s"
  shows "skips n (''['' @ s @ '']'')" "skips n (''('' @ s @ '')'')" "skips n (''{'' @ s @ ''}'')" "skips n (''<<'' @ s @ ''>>'')"
  using skipsD [OF assms] by (simp_all add: skips_def Let_def)

lemma skips_join:
  "skips n sep \<Longrightarrow> (\<And>x. x \<in> set xs \<Longrightarrow> skips n x) \<Longrightarrow> skips n (join sep xs)"
proof (induction xs)
  case (Cons x xs)
  then show ?case by (cases xs) (auto intro: skips_append)
qed simp

lemma word_char: "word s \<Longrightarrow> c \<in> set s \<Longrightarrow> is_word c"
  by (simp add: word_def list_all_iff)

lemma loud_not: "loud c \<Longrightarrow> \<not> is_word c \<and> \<not> is_digit c \<and> c \<noteq> CHR ''-''"
  by (auto simp: loud_def is_word_def is_digit_def code_def)

lemma word_calm: "word s \<Longrightarrow> calm s"
  using loud_not by (auto simp: calm_def word_def list_all_iff)

lemma calm_skips: "calm s \<Longrightarrow> skips n s"
  by (rule skips_chars) (auto simp: calm_def list_all_iff loud_def)

lemma show_int_calm: "calm (show_int i)"
  using show_int_chars [of _ i] loud_not by (auto simp: calm_def list_all_iff)

lemma skips_quoted: "calm s \<Longrightarrow> skips n (dq @ s @ dq)"
  by (intro skips_append calm_skips skips_char) simp_all

section \<open>The parts of a rendered value\<close>

lemma strip_word_ends: "s \<noteq> [] \<Longrightarrow> \<not> is_space (hd s) \<Longrightarrow> \<not> is_space (last s) \<Longrightarrow> strip s = s"
  unfolding strip_def by (rule strip_by_noop) simp

lemma word_not_space: "is_word c \<Longrightarrow> \<not> is_space c"
  by (auto simp: is_word_def is_digit_def is_space_def Let_def)

lemma word_ends: "word s \<Longrightarrow> s \<noteq> [] \<and> \<not> is_space (hd s) \<and> \<not> is_space (last s)"
  by (auto simp: word_def list_all_iff word_not_space)

lemma strip_Nil [simp]: "strip [] = []"
  by (simp add: strip_def strip_by_def lstrip_by_def rstrip_by_def)

lemma space_chars: "is_space CHR '' ''" "\<not> is_space cdq" "\<not> is_space CHR ''[''" "\<not> is_space CHR '']''"
  "\<not> is_space CHR ''(''" "\<not> is_space CHR '')''" "\<not> is_space CHR ''{''" "\<not> is_space CHR ''}''"
  "\<not> is_space CHR ''<''" "\<not> is_space CHR ''>''" "\<not> is_space CHR ''@''"
  by (simp_all add: is_space_def code_def)

lemma render_ends:
  assumes "readable v"
  shows "render v \<noteq> []" "\<not> is_space (hd (render v))" "\<not> is_space (last (render v))"
proof -
  have "render v \<noteq> [] \<and> \<not> is_space (hd (render v)) \<and> \<not> is_space (last (render v))"
  proof (cases v)
    case (VInt i)
    then show ?thesis using show_int_no_space [of _ i] by simp
  next
    case (VBool b)
    then show ?thesis by (simp add: is_space_def code_def)
  next
    case (VName s)
    with assms word_ends show ?thesis by simp
  qed (simp_all add: space_chars)
  then show "render v \<noteq> []" "\<not> is_space (hd (render v))" "\<not> is_space (last (render v))" by blast+
qed

lemma render_strip: "readable v \<Longrightarrow> strip (render v) = render v"
  by (rule strip_word_ends) (rule render_ends; assumption)+

lemma key_ends: "key_ok k \<Longrightarrow> key_text k \<noteq> [] \<and> \<not> is_space (hd (key_text k)) \<and> \<not> is_space (last (key_text k))"
  by (cases k) (simp_all add: word_ends space_chars)

lemma key_skips: "key_ok k \<Longrightarrow> skips n (key_text k)"
  by (cases k) (simp_all only: key_text.simps key_ok.simps calm_skips word_calm skips_quoted)

lemma render_skips: "readable v \<Longrightarrow> 0 \<le> n \<Longrightarrow> skips n (render v)"
proof (induction v arbitrary: n rule: render.induct)
  case (1 kvs)
  have "skips (n + 1) (join '', '' (map (\<lambda>(k, v). k @ '' |-> '' @ render v) kvs))"
  proof (rule skips_join [OF skips_comma])
    fix p assume "p \<in> set (map (\<lambda>(k, v). k @ '' |-> '' @ render v) kvs)"
    then obtain k v where p: "(k, v) \<in> set kvs" "p = k @ '' |-> '' @ render v" by auto
    with 1 have "word k" "skips (n + 1) (render v)" by (auto simp: list_all_iff)
    then show "skips (n + 1) p"
      unfolding p(2) by (intro skips_append skips_arrows) (simp_all add: calm_skips word_calm)
  qed (use 1 in simp)
  from skips_brackets(1) [OF this] show ?case by simp
next
  case (2 kvs)
  have "skips (n + 1) (join '' @@ '' (map (\<lambda>(k, v). key_text k @ '' :> '' @ render v) kvs))"
  proof (rule skips_join [OF skips_chars])
    fix p assume "p \<in> set (map (\<lambda>(k, v). key_text k @ '' :> '' @ render v) kvs)"
    then obtain k v where p: "(k, v) \<in> set kvs" "p = key_text k @ '' :> '' @ render v" by auto
    with 2 have "key_ok k" "skips (n + 1) (render v)" by (auto simp: list_all_iff)
    then show "skips (n + 1) p"
      unfolding p(2) by (intro skips_append skips_arrows key_skips)
  qed simp
  from skips_brackets(2) [OF this] show ?case by simp
next
  case (3 vs)
  have "skips (n + 1) (join '', '' (map render vs))"
    by (rule skips_join [OF skips_comma]) (use 3 in \<open>auto simp: list_all_iff\<close>)
  from skips_brackets(4) [OF this] show ?case by simp
next
  case (4 vs)
  have "skips (n + 1) (join '', '' (map render vs))"
    by (rule skips_join [OF skips_comma]) (use 4 in \<open>auto simp: list_all_iff\<close>)
  from skips_brackets(3) [OF this] show ?case by simp
next
  case (6 b)
  then show ?case by (auto intro!: skips_chars)
qed (simp_all only: render.simps readable.simps skips_quoted calm_skips show_int_calm word_calm)

lemma split_join:
  assumes "\<And>p. p \<in> set ps \<Longrightarrow> skips 0 p \<and> p \<noteq> [] \<and> strip p = p"
  shows "split_top (join '', '' ps) = ps"
proof -
  have "split_loop out 0 cur (join '', '' ps) = out @ ps"
    if "ps \<noteq> []" "\<forall>p\<in>set ps. skips 0 p \<and> p \<noteq> [] \<and> strip p = p" "\<forall>c\<in>set cur. is_space c" for out cur
    using that
  proof (induction ps arbitrary: out cur)
    case (Cons p ps)
    then have p: "skips 0 p" "p \<noteq> []" "strip p = p" by simp_all
    have sp: "strip (cur @ p) = p"
      using strip_surround [of cur "[]" p] Cons.prems(3) p(3) by simp
    show ?case
    proof (cases ps)
      case Nil
      then show ?thesis using skipsD [OF p(1), of 0 out cur "[]"] sp p(2) by simp
    next
      case (Cons q qs)
      have "split_loop out 0 cur (join '', '' (p # ps)) = split_loop out 0 (cur @ p) ('', '' @ join '', '' ps)"
        using skipsD [OF p(1), of 0 out cur "'', '' @ join '', '' ps"] Cons by simp
      also have "\<dots> = split_loop (out @ [p]) 0 '' '' (join '', '' ps)" by (simp add: sp Let_def)
      also have "\<dots> = (out @ [p]) @ ps"
        by (rule Cons.IH) (use Cons Cons.prems space_chars in auto)
      finally show ?thesis by simp
    qed
  qed simp
  from this [of "[]" "[]"] assms show ?thesis by (cases ps) (auto simp: split_top_def)
qed

lemma str_find_after: "c \<notin> set a \<Longrightarrow> str_find (c # p) (a @ c # p @ b) = Some (length a)"
  by (induction a) auto

lemma cut_at_sep: "c \<notin> set a \<Longrightarrow> cut (c # p) (a @ (c # p) @ b) = Inr (a, b)"
  using str_find_after [of c a p b] by (simp add: cut_def)

section \<open>The pieces of a function\<close>

lemma mt_AT:
  "mt AT (pre, x # CHR ''@'' # CHR ''@'' # y # rest, g) =
     (if is_space x \<and> is_space y then [(y # CHR ''@'' # CHR ''@'' # x # pre, rest, g)] else [])"
  "(case rest of x # y # rest' \<Rightarrow> y \<noteq> CHR ''@'' | _ \<Rightarrow> True) \<Longrightarrow> mt AT (pre, rest, g) = []"
  by (auto simp: AT_def split: list.splits)

lemma scan_AT:
  "CHR ''@'' \<notin> set a \<Longrightarrow> scan AT adv pre (a @ '' @@ '' @ b) =
     Some \<lparr>m_pre = rev pre @ a, m_text = '' @@ '', m_post = b, m_groups = Map.empty\<rparr>"
proof (induction a arbitrary: adv pre)
  case Nil
  show ?case
    by (simp add: scan.simps [of AT adv pre] mt_AT(1) space_chars mk_match_def span_def)
next
  case (Cons x a)
  have "mt AT (pre, (x # a) @ '' @@ '' @ b, Map.empty) = []"
    by (rule mt_AT(2)) (use Cons.prems in \<open>cases a; auto\<close>)
  with Cons show ?case by (simp add: scan.simps [of AT adv pre])
qed

lemma scan_AT_none: "CHR ''@'' \<notin> set a \<Longrightarrow> scan AT adv pre a = None"
proof (induction a arbitrary: adv pre)
  case Nil
  have "mt AT (pre, [], Map.empty) = []" by (rule mt_AT(2)) simp
  then show ?case by (simp add: scan.simps [of AT adv pre])
next
  case (Cons x a)
  have "mt AT (pre, x # a, Map.empty) = []"
    by (rule mt_AT(2)) (use Cons.prems in \<open>cases a; auto\<close>)
  with Cons show ?case by (simp add: scan.simps [of AT adv pre])
qed

lemma pieces_join_from:
  "ps \<noteq> [] \<Longrightarrow> (\<And>p. p \<in> set ps \<Longrightarrow> CHR ''@'' \<notin> set p) \<Longrightarrow>
   (case cut_at (rev pre @ join '' @@ '' ps) (length pre) (finditer_from AT adv pre (join '' @@ '' ps)) of
      (h, qs) \<Rightarrow> h # map snd qs) = ps"
proof (induction ps arbitrary: adv pre)
  case (Cons p ps)
  then have p: "CHR ''@'' \<notin> set p" by simp
  show ?case
  proof (cases ps)
    case Nil
    with p show ?thesis by (simp add: finditer_from.simps [of AT adv pre] scan_AT_none)
  next
    case (Cons q qs)
    let ?t = "join '' @@ '' ps" and ?pre = "rev '' @@ '' @ rev p @ pre"
    have "join '' @@ '' (p # ps) = p @ '' @@ '' @ ?t" using Cons by simp
    moreover have "(case cut_at (rev ?pre @ ?t) (length ?pre) (finditer_from AT False ?pre ?t) of (h, qs) \<Rightarrow> h # map snd qs) = ps"
      by (rule Cons.IH) (use Cons Cons.prems in auto)
    ultimately show ?thesis
      using p by (simp add: finditer_from.simps [of AT adv pre] scan_AT [simplified] add.commute add.left_commute split: prod.splits)
  qed
qed simp

lemma pieces_join:
  "ps \<noteq> [] \<Longrightarrow> (\<And>p. p \<in> set ps \<Longrightarrow> CHR ''@'' \<notin> set p) \<Longrightarrow> pieces (join '' @@ '' ps) = ps"
  using pieces_join_from [of ps "[]" False] by (simp add: pieces_def re_split_def re_finditer_def)

lemma calm_no_at: "calm s \<Longrightarrow> CHR ''@'' \<notin> set s"
  by (auto simp: calm_def list_all_iff loud_def)

lemma at_join: "x \<in> set (join sep xs) \<Longrightarrow> x \<in> set sep \<or> (\<exists>w\<in>set xs. x \<in> set w)"
  using set_join [of sep xs] by auto

lemma flat_no_at: "readable v \<Longrightarrow> flat v \<Longrightarrow> CHR ''@'' \<notin> set (render v)"
proof (induction v rule: render.induct)
  case (1 kvs)
  have "CHR ''@'' \<notin> set (k @ '' |-> '' @ render v)" if "(k, v) \<in> set kvs" for k v
    using 1 that calm_no_at [OF word_calm] by (fastforce simp: list_all_iff)
  then show ?case by (auto dest!: at_join)
next
  case (2 kvs)
  show ?case
  proof (cases kvs)
    case (Cons kv rest)
    then obtain k v where kv: "kvs = [(k, v)]" using 2 by (cases rest; cases kv) auto
    have "CHR ''@'' \<notin> set (key_text k)" using 2 calm_no_at [OF word_calm] by (cases k) (auto simp: kv)
    with 2 show ?thesis by (auto simp: kv)
  qed simp
next
  case (7 i)
  then show ?case using calm_no_at [OF show_int_calm] by simp
qed (auto simp: list_all_iff calm_no_at word_calm dest!: at_join)

section \<open>Reading back\<close>

lemma parse_strip: "parse (strip s) = parse s"
  by (simp only: parse.simps [of s] parse.simps [of "strip s"] strip_idem)

lemma parse_space: "readable v \<Longrightarrow> parse ('' '' @ render v) = parse (render v)"
  using strip_surround [of "'' ''" "[]" "render v"] parse_strip [of "'' '' @ render v"] parse_strip [of "render v"]
  by (simp add: space_chars)

lemma mapE_map: "(\<And>x. x \<in> set xs \<Longrightarrow> f (g x) = Inr (h x)) \<Longrightarrow> mapE f (map g xs) = Inr (map h xs)"
  by (induction xs) auto

lemma dmerge_new: "distinct (map fst kvs) \<Longrightarrow> set (dkeys d) \<inter> set (map fst kvs) = {} \<Longrightarrow> dmerge d kvs = d @ kvs"
proof (induction kvs arbitrary: d)
  case (Cons x kvs)
  obtain k v where x: "x = (k, v)" by (cases x)
  with Cons.prems have "k \<notin> set (dkeys d)" by simp
  from dkeys_update_new [OF this, of v] have u: "AList.update k v d = d @ [x]" by (simp add: x)
  have "dmerge (d @ [x]) kvs = (d @ [x]) @ kvs"
    by (rule Cons.IH) (use Cons.prems x in auto)
  then show ?case by (simp add: dmerge_def x u [unfolded x])
qed (simp add: dmerge_def)

lemma inner_wrap: "length a = k \<Longrightarrow> length b = k \<Longrightarrow> inner k (a @ s @ b) = s"
  by (simp add: inner_def)

lemma strip_key: "word k \<Longrightarrow> strip (k @ '' '') = k"
  using strip_surround [of "[]" "'' ''" k] strip_word_ends [of k] word_ends [of k] by (simp add: space_chars)

lemma strip_key_text: "key_ok k \<Longrightarrow> strip_by (\<lambda>c. c = cdq) (strip (key_text k @ '' '')) = key_name k"
proof -
  assume k: "key_ok k"
  have s: "strip (key_text k @ '' '') = key_text k"
    using strip_surround [of "[]" "'' ''" "key_text k"] strip_word_ends [of "key_text k"] key_ends [OF k]
    by (simp add: space_chars)
  have w: "word (key_name k)" using k by (cases k) simp_all
  then have n: "key_name k \<noteq> []" "cdq \<notin> set (key_name k)"
    using word_calm [OF w] by (auto simp: word_def calm_def list_all_iff loud_def)
  then have h: "hd (key_name k) \<noteq> cdq" "last (key_name k) \<noteq> cdq" using hd_in_set last_in_set by metis+
  have "strip_by (\<lambda>c. c = cdq) (dq @ key_name k @ dq) = key_name k"
    unfolding strip_by_def
    using lstrip_by_all [of dq "\<lambda>c. c = cdq" "key_name k @ dq"] lstrip_by_noop [of "key_name k @ dq" "\<lambda>c. c = cdq"]
      rstrip_by_all [of dq "\<lambda>c. c = cdq" "key_name k"] rstrip_by_noop [of "key_name k" "\<lambda>c. c = cdq"] n h by simp
  moreover have "strip_by (\<lambda>c. c = cdq) (key_name k) = key_name k" by (rule strip_by_noop) (use h in simp)
  ultimately show ?thesis unfolding s by (cases k) auto
qed

section \<open>The round trip\<close>

lemma parse_unfold:
  assumes "strip s = s"
  shows "parse s = (
     if startswith s ''['' \<and> endswith s '']'' then
       bindE (mapE (\<lambda>part. bindE (cut ''|->'' part) (\<lambda>(k, v). bindE (parse v) (\<lambda>x. Inr (strip k, x))))
                (split_top (inner 1 s)))
         (\<lambda>d. Inr (TDict (dmerge [] d)))
     else if startswith s ''('' \<and> endswith s '')'' \<and> str_in '':>'' s then
       bindE (mapE (\<lambda>part. bindE (cut '':>'' part) (\<lambda>(k, v). bindE (parse v) (\<lambda>x. Inr (strip_by (\<lambda>c. c = cdq) (strip k), x))))
                (pieces (inner 1 s)))
         (\<lambda>d. Inr (TDict (dmerge [] d)))
     else if startswith s ''<<'' \<and> endswith s ''>>'' then
       bindE (mapE parse (split_top (inner 2 s))) (\<lambda>vs. Inr (TList vs))
     else if startswith s ''{'' \<and> endswith s ''}'' then
       bindE (mapE parse (split_top (inner 1 s))) (\<lambda>vs. Inr (TList vs))
     else if startswith s dq \<and> endswith s dq then Inr (TStr (inner 1 s))
     else if s \<in> set [''TRUE'', ''FALSE''] then Inr (TBool (s = ''TRUE''))
     else (case py_int s of Inr i \<Rightarrow> Inr (TInt i) | Inl _ \<Rightarrow> Inr (TStr s)))"
  by (subst parse.simps) (simp only: assms Let_def)

lemma parse_atoms:
  "parse (dq @ s @ dq) = Inr (TStr s)" "parse (render (VBool b)) = Inr (TBool b)" "parse (show_int i) = Inr (TInt i)"
proof -
  have "strip (dq @ s @ dq) = dq @ s @ dq" by (rule strip_word_ends) (simp_all add: space_chars)
  from parse_unfold [OF this] show "parse (dq @ s @ dq) = Inr (TStr s)"
    by (simp add: inner_def suffix_def)
  have "parse ''TRUE'' = Inr (TBool True)" "parse ''FALSE'' = Inr (TBool False)" by code_simp+
  then show "parse (render (VBool b)) = Inr (TBool b)" by (cases b) simp_all
  obtain c cs where s: "show_int i = c # cs" by (cases "show_int i") auto
  then have "is_digit c \<or> c = CHR ''-''" using show_int_chars [of c i] by simp
  then have "c \<notin> set ''[(<{TF'' \<and> c \<noteq> cdq" by (auto simp: is_digit_def code_def)
  then show "parse (show_int i) = Inr (TInt i)"
    unfolding parse_unfold [OF strip_show_int] by (auto simp: s) (auto simp: s [symmetric])
qed

lemma int_of_word: "word s \<Longrightarrow> \<not> is_digit (hd s) \<Longrightarrow> \<exists>e. py_int s = Inl e"
proof -
  assume w: "word s" "\<not> is_digit (hd s)"
  then obtain c cs where s: "s = c # cs" "is_word c" by (cases s) (auto simp: word_def)
  then have "c \<noteq> CHR ''-''" "c \<noteq> CHR ''+''" by (auto simp: is_word_def is_digit_def code_def)
  with w s have "int_of_str s = None" by (simp add: int_of_str_def nat_of_str_def)
  moreover have "strip s = s" using strip_word_ends [of s] word_ends [OF w(1)] by simp
  ultimately show ?thesis by (simp add: py_int_def)
qed

lemma parse_name:
  assumes "readable (VName s)"
  shows "parse s = Inr (TStr s)"
proof -
  from assms have w: "word s" "\<not> is_digit (hd s)" "s \<noteq> ''TRUE''" "s \<noteq> ''FALSE''" by simp_all
  obtain e where e: "py_int s = Inl e" using int_of_word [OF w(1,2)] by blast
  have "\<not> loud (hd s)" using word_calm [OF w(1)] w(1) by (cases s) (auto simp: word_def calm_def)
  then have "\<not> prefix [c] s" if "loud c" for c using that by (cases s) auto
  from this [of "CHR ''[''"] this [of "CHR ''(''"] this [of "CHR ''<''"] this [of "CHR ''{''"] this [of cdq]
  have "\<not> prefix ''['' s" "\<not> prefix ''('' s" "\<not> prefix ''<<'' s" "\<not> prefix ''{'' s" "\<not> prefix dq s"
    by (auto simp: loud_def prefix_def)
  moreover have "strip s = s" using strip_word_ends [of s] word_ends [OF w(1)] by simp
  ultimately show ?thesis using w(3,4) e by (simp add: parse_unfold)
qed

lemma parse_rec_parts:
  assumes "list_all (\<lambda>(k, v). word k \<and> readable v) kvs"
    and "\<And>k v. (k, v) \<in> set kvs \<Longrightarrow> parse (render v) = Inr (pyv v)"
  shows "mapE (\<lambda>part. bindE (cut ''|->'' part) (\<lambda>(k, v). bindE (parse v) (\<lambda>x. Inr (strip k, x))))
      (map (\<lambda>(k, v). k @ '' |-> '' @ render v) kvs) = Inr (map (\<lambda>(k, v). (k, pyv v)) kvs)"
proof (rule mapE_map, clarify)
  fix k v assume kv: "(k, v) \<in> set kvs"
  with assms(1) have w: "word k" "readable v" by (auto simp: list_all_iff)
  have "CHR ''|'' \<notin> set k" using word_char [OF w(1), of "CHR ''|''"] by (auto simp: is_word_def is_digit_def code_def)
  then have "cut ''|->'' (k @ '' |-> '' @ render v) = Inr (k @ '' '', '' '' @ render v)"
    using cut_at_sep [of "CHR ''|''" "k @ '' ''" "''->''" "'' '' @ render v"] by simp
  then show "bindE (cut ''|->'' (k @ '' |-> '' @ render v)) (\<lambda>(k, v). bindE (parse v) (\<lambda>x. Inr (strip k, x))) = Inr (k, pyv v)"
    using parse_space [OF w(2)] strip_key [OF w(1)] assms(2) [OF kv] by simp
qed

lemma parse_fun_parts:
  assumes "list_all (\<lambda>(k, v). key_ok k \<and> readable v) kvs"
    and "\<And>k v. (k, v) \<in> set kvs \<Longrightarrow> parse (render v) = Inr (pyv v)"
  shows "mapE (\<lambda>part. bindE (cut '':>'' part) (\<lambda>(k, v). bindE (parse v) (\<lambda>x. Inr (strip_by (\<lambda>c. c = cdq) (strip k), x))))
      (map (\<lambda>(k, v). key_text k @ '' :> '' @ render v) kvs) = Inr (map (\<lambda>(k, v). (key_name k, pyv v)) kvs)"
proof (rule mapE_map, clarify)
  fix k v assume kv: "(k, v) \<in> set kvs"
  with assms(1) have w: "key_ok k" "readable v" by (auto simp: list_all_iff)
  have "\<not> is_word CHR '':''" by (simp add: is_word_def is_digit_def code_def)
  then have "CHR '':'' \<notin> set (key_text k)" using w(1) word_char by (cases k) auto
  then have "cut '':>'' (key_text k @ '' :> '' @ render v) = Inr (key_text k @ '' '', '' '' @ render v)"
    using cut_at_sep [of "CHR '':''" "key_text k @ '' ''" "''>''" "'' '' @ render v"] by simp
  then show "bindE (cut '':>'' (key_text k @ '' :> '' @ render v))
      (\<lambda>(k, v). bindE (parse v) (\<lambda>x. Inr (strip_by (\<lambda>c. c = cdq) (strip k), x))) = Inr (key_name k, pyv v)"
    using parse_space [OF w(2)] strip_key_text [OF w(1)] assms(2) [OF kv] by simp
qed

lemma part_ends:
  assumes "k \<noteq> []" "\<not> is_space (hd k)" "readable v"
  shows "k @ sep @ render v \<noteq> [] \<and> strip (k @ sep @ render v) = k @ sep @ render v"
  using strip_word_ends [of "k @ sep @ render v"] assms render_ends [OF assms(3)] by simp

lemma readable_rec:
  assumes "readable (VRec kvs)" "\<And>k v. (k, v) \<in> set kvs \<Longrightarrow> parse (render v) = Inr (pyv v)"
  shows "parse (render (VRec kvs)) = Inr (pyv (VRec kvs))"
proof -
  let ?parts = "map (\<lambda>(k, v). k @ '' |-> '' @ render v) kvs"
  have ok: "list_all (\<lambda>(k, v). word k \<and> readable v) kvs" "distinct (map fst kvs)" using assms(1) by simp_all
  have sp: "split_top (join '', '' ?parts) = ?parts"
  proof (rule split_join)
    fix p assume "p \<in> set ?parts"
    then obtain k v where p: "(k, v) \<in> set kvs" "p = k @ '' |-> '' @ render v" by auto
    with ok have w: "word k" "readable v" by (auto simp: list_all_iff)
    have "skips 0 p"
      unfolding p(2) using w by (intro skips_append skips_arrows) (simp_all add: calm_skips word_calm render_skips)
    with part_ends [of k v "'' |-> ''"] word_ends [OF w(1)] w(2) show "skips 0 p \<and> p \<noteq> [] \<and> strip p = p"
      by (simp only: p(2)) blast
  qed
  have "dmerge [] (map (\<lambda>(k, v). (k, pyv v)) kvs) = map (\<lambda>(k, v). (k, pyv v)) kvs"
    using dmerge_new [of "map (\<lambda>(k, v). (k, pyv v)) kvs" "[]"] ok(2) by (simp add: comp_def split_beta)
  then show ?thesis
    using parse_unfold [OF render_strip [OF assms(1)]] inner_wrap [of "''[''" 1 "'']''" "join '', '' ?parts"] sp
      parse_rec_parts [OF ok(1) assms(2)]
    by (simp add: suffix_def)
qed

lemma readable_fun:
  assumes "readable (VFun kvs)" "\<And>k v. (k, v) \<in> set kvs \<Longrightarrow> parse (render v) = Inr (pyv v)"
  shows "parse (render (VFun kvs)) = Inr (pyv (VFun kvs))"
proof -
  let ?parts = "map (\<lambda>(k, v). key_text k @ '' :> '' @ render v) kvs"
  have ok: "list_all (\<lambda>(k, v). key_ok k \<and> readable v \<and> flat v) kvs" "distinct (map (\<lambda>(k, v). key_name k) kvs)" "kvs \<noteq> []"
    using assms(1) by simp_all
  have ok': "list_all (\<lambda>(k, v). key_ok k \<and> readable v) kvs" using ok(1) by (auto simp: list_all_iff)
  have sp: "pieces (join '' @@ '' ?parts) = ?parts"
  proof (rule pieces_join)
    fix p assume "p \<in> set ?parts"
    then obtain k v where p: "(k, v) \<in> set kvs" "p = key_text k @ '' :> '' @ render v" by auto
    with ok(1) have w: "key_ok k" "readable v" "flat v" by (auto simp: list_all_iff)
    have "CHR ''@'' \<notin> set (key_text k)" using w(1) calm_no_at [OF word_calm] by (cases k) auto
    with flat_no_at [OF w(2,3)] show "CHR ''@'' \<notin> set p" by (simp add: p(2))
  qed (use ok(3) in simp)
  obtain k v rest where kvs: "kvs = (k, v) # rest" using ok(3) by (cases kvs) auto
  have "str_in '':>'' (join '' @@ '' ?parts)"
    unfolding str_in_iff
  proof (intro exI)
    show "join '' @@ '' ?parts = (key_text k @ '' '') @ '':>'' @ ('' '' @ drop (length (key_text k) + 4 - 0) (key_text k @ '' :> '' @ render v @ (if rest = [] then [] else '' @@ '' @ join '' @@ '' (tl ?parts))))"
      by (cases rest) (simp_all add: kvs)
  qed
  then have has: "str_in '':>'' (render (VFun kvs))"
    unfolding str_in_iff by simp (metis append.assoc append_Cons)
  have "dmerge [] (map (\<lambda>(k, v). (key_name k, pyv v)) kvs) = map (\<lambda>(k, v). (key_name k, pyv v)) kvs"
    using dmerge_new [of "map (\<lambda>(k, v). (key_name k, pyv v)) kvs" "[]"] ok(2) by (simp add: comp_def case_prod_beta')
  then show ?thesis
    using parse_unfold [OF render_strip [OF assms(1)]] inner_wrap [of "''(''" 1 "'')''" "join '' @@ '' ?parts"] sp
      parse_fun_parts [OF ok' assms(2)] has
    by (simp add: suffix_def)
qed

lemma readable_lists:
  assumes "list_all readable vs" "\<And>v. v \<in> set vs \<Longrightarrow> parse (render v) = Inr (pyv v)"
  shows "parse (render (VSeq vs)) = Inr (pyv (VSeq vs))" "parse (render (VSet vs)) = Inr (pyv (VSet vs))"
proof -
  have sp: "split_top (join '', '' (map render vs)) = map render vs"
    by (rule split_join) (use assms(1) in \<open>auto simp: list_all_iff render_skips render_ends render_strip\<close>)
  have m: "mapE parse (map render vs) = Inr (map pyv vs)"
    by (rule mapE_map) (rule assms(2))
  show "parse (render (VSeq vs)) = Inr (pyv (VSeq vs))"
    using parse_unfold [OF render_strip [of "VSeq vs"]] assms(1) inner_wrap [of "''<<''" 2 "''>>''" "join '', '' (map render vs)"] sp m
    by (simp add: suffix_def)
  show "parse (render (VSet vs)) = Inr (pyv (VSet vs))"
    using parse_unfold [OF render_strip [of "VSet vs"]] assms(1) inner_wrap [of "''{''" 1 "''}''" "join '', '' (map render vs)"] sp m
    by (simp add: suffix_def)
qed

lemma parse_render:
  assumes "readable v"
  shows "parse (render v) = Inr (pyv v)"
  using assms
proof (induction v rule: render.induct)
  case (1 kvs)
  then show ?case by (intro readable_rec) (auto simp: list_all_iff)
next
  case (2 kvs)
  then show ?case by (intro readable_fun) (auto simp: list_all_iff)
next
  case (3 vs)
  then show ?case by (intro readable_lists) (auto simp: list_all_iff)
next
  case (4 vs)
  then show ?case by (intro readable_lists) (auto simp: list_all_iff)
next
  case (8 s)
  then show ?case using parse_name [of s] by simp
qed (use parse_atoms in simp_all)

text \<open>
  C24: parse() reads back the notation of every TLA+ value: records and functions become
  dictionaries, sets and sequences lists, strings and model values strings, whatever the nesting, as
  long as no function of two or more entries lies inside a function.\<close>

theorem fiber_parse_render:
  assumes "readable v"
  shows "parse (render v) = Inr (pyv v)"
  using assms by (rule parse_render)

definition loop_state :: tla where
  "loop_state = VRec [(''phase'', VStr ''run''), (''iter'', VInt (- 1)),
     (''fib'', VFun [(Bare ''f1'', VRec [(''cont'', VSeq [VName ''NoFiber'', VBool True])]), (Bare ''f2'', VSet [])])]"

theorem fiber_parse_render_witness: "readable loop_state \<and> parse (render loop_state) = Inr (pyv loop_state)"
proof -
  have "readable loop_state" by code_simp
  with fiber_parse_render [OF this] show ?thesis by blast
qed

text \<open>
  A function of two entries inside a function is not read as a dictionary of dictionaries:
  re.split() cuts at the " @@ " of the inner function too, so that parse() returns the outer key with a
  broken text and the inner key beside it.\<close>

theorem fiber_parse_nested:
  "parse (render (VFun [(Bare ''a'', VFun [(Bare ''b'', VInt 1), (Bare ''c'', VInt 2)])]))
     = Inr (TDict [(''a'', TStr ''(b :> 1''), (''c'', TStr ''2)'')])"
  by code_simp

end
