(* ===== verification/Fiber_Trace.thy ===== *)
theory Fiber_Trace
  imports Fiber_Parse Py_Re_First Py_Out
begin

text \<open>
  The rest of \<^verbatim>\<open>systemd/fiber/tla/trace.py\<close>: \<open>trace_main\<close> cuts TLC's output into the blocks of the
  states and prints, for each, the action and what its \<^verbatim>\<open>st\<close> says of the loop, the fibers and the
  futures. The result is the list of the lines printed, and the exception that ended the printing, if one did.
\<close>

section \<open>Formatting values\<close>









section \<open>The lines of a state\<close>







section \<open>The blocks\<close>










section \<open>Cutting the text into blocks\<close>












section \<open>A counterexample\<close>

























end
