(* ===== verification/Fill_Table.thy ===== *)
theory Fill_Table
  imports Py_Lines Cfg_Verity Cfg_Userns Cfg_Executor Cfg_Fiber
begin

text \<open>
  \<^verbatim>\<open>fill-results.py\<close> of the four systemd models (the same script in \<^verbatim>\<open>mountfsd\<close>, \<^verbatim>\<open>nsresourced\<close>,
  \<^verbatim>\<open>executor\<close> and \<^verbatim>\<open>fiber\<close>): it runs the directory's \<^verbatim>\<open>gen-cfgs.py\<close>, reads the rows of
  \<^verbatim>\<open>logs/summary.txt\<close>, and prints them as a table or puts the table into \<^verbatim>\<open>README.md\<close>.

  \<open>fill\<close> is the script over a directory; \<open>skip_table\<close>, its loop over the lines of the table that is
  there, may run forever and is an option-valued partial function.
\<close>

section \<open>The summary\<close>

type_synonym rows = "(string, string list) dict"

definition read_row :: "rows \<Rightarrow> string \<Rightarrow> rows" where
  "read_row rows line = (let parts = split_ws line in
     if length parts < 6 \<or> parts ! 0 = ''ALL-DONE'' then rows else AList.update (parts ! 0) parts rows)"

definition read_rows :: "string \<Rightarrow> rows" where
  "read_rows text = foldl read_row [] (drop 1 (splitlines text))"

section \<open>The table\<close>

definition HEADER :: "string list" where
  "HEADER = [''| Configuration | What it checks | Expected | Result | Distinct states | TLC time |'',
     ''|---|---|---|---|---|---|'']"

text \<open>\<^verbatim>\<open>_, expect, result, states, took, _ = parts\<close>\<close>

definition cells :: "string list \<Rightarrow> (string \<times> string \<times> string \<times> string) result" where
  "cells parts = (case parts of
     [_, expect, result, states, took, _] \<Rightarrow> Inr (expect, result, states, took)
   | _ \<Rightarrow> Inl (ValueError ''too many values to unpack (expected 6)''))"

definition row_text :: "string \<Rightarrow> string \<Rightarrow> string \<times> string \<times> string \<times> string \<Rightarrow> string" where
  "row_text cfg d c = (case c of (expect, result, states, took) \<Rightarrow>
     ''| `'' @ cfg @ ''` | '' @ d @ '' | '' @ expect @ '' | '' @ result @ '' | '' @ states @ '' | '' @ took @ '' |'')"

definition out_step :: "rows \<Rightarrow> string list \<Rightarrow> string \<times> string \<Rightarrow> string list result" where
  "out_step rows out c = (case c of (cfg, d) \<Rightarrow>
     (case map_of rows cfg of
        None \<Rightarrow> Inr out
      | Some parts \<Rightarrow> bindE (cells parts) (\<lambda>cs. Inr (out @ [row_text cfg d cs]))))"

definition out_lines :: "(string \<times> string) list \<Rightarrow> rows \<Rightarrow> string list result" where
  "out_lines desc rows = foldE (out_step rows) HEADER desc"

section \<open>The README\<close>

definition MARKER :: string where "MARKER = ''RESULTS_TABLE''"
definition TITLE :: string where "TITLE = ''| Configuration | What it checks |''"

text \<open>\<^verbatim>\<open>while end < len(s) and s[end] == "|": end = s.find("\n", end) + 1\<close>, where \<^verbatim>\<open>find\<close> is -1 when
  there is no newline left\<close>

definition next_line :: "string \<Rightarrow> nat \<Rightarrow> nat" where
  "next_line s e = (case str_find nl (drop e s) of None \<Rightarrow> 0 | Some n \<Rightarrow> e + n + 1)"

partial_function (option) skip_table :: "string \<Rightarrow> nat \<Rightarrow> nat option" where
  "skip_table s e = (if e < length s \<and> s ! e = CHR ''|'' then skip_table s (next_line s e) else Some e)"

text \<open>The text to write: no value when the loop never ends\<close>

definition refill :: "string \<Rightarrow> string \<Rightarrow> string result option" where
  "refill table s =
     (if str_in MARKER s then Some (Inr (replace MARKER table s))
      else case str_index s TITLE of
        Inl e \<Rightarrow> Some (Inl e)
      | Inr start \<Rightarrow>
          (case skip_table s start of
             None \<Rightarrow> None
           | Some e \<Rightarrow> Some (Inr (take start s @ table @ nl @ drop e s))))"

section \<open>The script\<close>

definition read_text :: "dir \<Rightarrow> string \<Rightarrow> string result" where
  "read_text d f = (case map_of d f of None \<Rightarrow> Inl (FileNotFoundError f) | Some s \<Rightarrow> Inr s)"

definition SUMMARY :: string where "SUMMARY = ''logs/summary.txt''"
definition README :: string where "README = ''README.md''"

text \<open>The directory afterwards and what is printed. \<open>run\<close> is the directory's generator, \<open>desc\<close> its
  configurations with the last component of their entries, \<open>args\<close> is \<^verbatim>\<open>sys.argv[1:]\<close>. An exception
  has no value of its own for the directory.\<close>

definition fill :: "(dir \<Rightarrow> (dir \<times> string list) result) \<Rightarrow> (string \<times> string) list \<Rightarrow> string list \<Rightarrow> dir
    \<Rightarrow> (dir \<times> string) result option" where
  "fill run desc args d = (case bindE (run d) (\<lambda>(d, out). bindE (read_text d SUMMARY) (\<lambda>summary.
       bindE (out_lines desc (read_rows summary)) (\<lambda>out. Inr (d, join nl out)))) of
     Inl e \<Rightarrow> Some (Inl e)
   | Inr (d, table) \<Rightarrow>
       if args \<noteq> [] \<and> hd args = ''--readme'' then
         (case read_text d README of
            Inl e \<Rightarrow> Some (Inl e)
          | Inr s \<Rightarrow> map_option (\<lambda>r. bindE r (\<lambda>s. Inr (AList.update README s d, table))) (refill table s))
       else Some (Inr (d, table)))"

text \<open>The four directories\<close>

definition descs :: "(string, over_config) dict \<Rightarrow> (string \<times> string) list" where
  "descs cs = map (\<lambda>(name, (over, invs, props, expect, desc)). (name, desc)) cs"

definition fill_mountfsd :: "string list \<Rightarrow> dir \<Rightarrow> (dir \<times> string) result option" where
  "fill_mountfsd = fill Cfg_Verity.gen (descs Cfg_Verity.CONFIGS)"

definition fill_nsresourced :: "string list \<Rightarrow> dir \<Rightarrow> (dir \<times> string) result option" where
  "fill_nsresourced = fill Cfg_Userns.gen (descs Cfg_Userns.CONFIGS)"

definition fill_executor :: "string list \<Rightarrow> dir \<Rightarrow> (dir \<times> string) result option" where
  "fill_executor = fill Cfg_Executor.gen (descs (map (\<lambda>(name, entry). (name, unpack entry)) Cfg_Executor.CONFIGS))"

definition fill_fiber :: "string list \<Rightarrow> dir \<Rightarrow> (dir \<times> string) result option" where
  "fill_fiber = fill Cfg_Fiber.gen (descs Cfg_Fiber.CONFIGS)"

section \<open>Lines of a summary\<close>

text \<open>The rows \<^verbatim>\<open>summarize.sh\<close> prints, with the width of its first column:
  \<^verbatim>\<open>printf '%-32s %-10s %-12s %-10s %-12s %s\n'\<close>\<close>

type_synonym row = "string \<times> string \<times> string \<times> string \<times> string \<times> string"

text \<open>Words padded to the widths of their columns; the last one is not padded\<close>

fun columns :: "nat list \<Rightarrow> string list \<Rightarrow> string" where
  "columns [] ws = concat ws"
| "columns (n # ns) [] = []"
| "columns (n # ns) (w # ws) = ljust n w @ '' '' @ columns ns ws"

definition token :: "string \<Rightarrow> bool" where
  "token s = (s \<noteq> [] \<and> list_all (\<lambda>c. \<not> is_space c) s)"

definition fits :: "nat list \<Rightarrow> string list \<Rightarrow> bool" where
  "fits ns ws = (length ws = Suc (length ns) \<and> list_all token ws)"

definition row_parts :: "row \<Rightarrow> string list" where
  "row_parts r = (case r of (a, b, c, d, e, f) \<Rightarrow> [a, b, c, d, e, f])"

definition summary_line :: "nat \<Rightarrow> row \<Rightarrow> string" where
  "summary_line w r = columns [w, 10, 12, 10, 12] (row_parts r)"

definition summary_text :: "nat \<Rightarrow> row list \<Rightarrow> string" where
  "summary_text w rs = concat (map (\<lambda>r. summary_line w r @ nl)
     ((''config'', ''expected'', ''result'', ''states'', ''time'', ''check'') # rs))"

definition row_ok :: "row \<Rightarrow> bool" where
  "row_ok r = (case r of (a, b, c, d, e, f) \<Rightarrow> list_all token [a, b, c, d, e, f] \<and> a \<noteq> ''ALL-DONE'')"

lemma space_blank: "is_space CHR '' ''"
  by (simp add: is_space_def code_def)

lemma split_ws_blanks: "split_ws (replicate n CHR '' '' @ s) = split_ws s"
proof -
  have "dropWhile is_space (replicate n CHR '' '' @ s) = dropWhile is_space s"
    by (rule dropWhile_append2) (simp add: space_blank)
  then show ?thesis by (simp only: split_ws.simps [of "replicate n CHR '' '' @ s"] split_ws.simps [of s])
qed

lemma split_ws_token:
  assumes "token w" "rest = [] \<or> is_space (hd rest)"
  shows "split_ws (w @ rest) = w # split_ws rest"
  using assms by (intro split_ws_word) (simp_all add: token_def)

lemma split_ws_column: "token w \<Longrightarrow> split_ws (ljust n w @ CHR '' '' # s) = w # split_ws s"
  using split_ws_token [of w "replicate (n - length w) CHR '' '' @ '' '' @ s"]
    split_ws_blanks [of "n - length w" "'' '' @ s"] split_ws_blanks [of 1 s]
  by (cases "n - length w") (simp_all add: ljust_def space_blank)

lemma split_columns: "fits ns ws \<Longrightarrow> split_ws (columns ns ws) = ws"
proof (induction ns ws rule: columns.induct)
  case (3 n ns w ws)
  then show ?case by (simp add: fits_def split_ws_column)
next
  case (1 ws)
  then obtain w where "ws = [w]" "token w" by (auto simp: fits_def length_Suc_conv)
  then show ?case using split_ws_token [of w "[]"] by (simp add: split_ws.simps [of "[]"])
qed (simp add: fits_def)

lemma ljust_set: "set (ljust n s) \<subseteq> set s \<union> {CHR '' ''}"
  by (auto simp: ljust_def)

lemma columns_set: "set (columns ns ws) \<subseteq> (\<Union>w \<in> set ws. set w) \<union> {CHR '' ''}"
  by (induction ns ws rule: columns.induct) (auto dest: subsetD [OF ljust_set])

lemma columns_no_break: "fits ns ws \<Longrightarrow> c \<in> set (columns ns ws) \<Longrightarrow> \<not> is_linebreak c"
  using columns_set [of ns ws] linebreak_space [of c]
  by (auto simp: fits_def token_def list_all_iff is_linebreak_def code_def)

lemma splitlines_lines:
  "(\<And>l c. l \<in> set ls \<Longrightarrow> c \<in> set l \<Longrightarrow> \<not> is_linebreak c) \<Longrightarrow> splitlines (concat (map (\<lambda>l. l @ nl) ls)) = ls"
proof (induction ls)
  case (Cons l ls)
  have "splitlines (l @ cnl # concat (map (\<lambda>l. l @ nl) ls)) = l # splitlines (concat (map (\<lambda>l. l @ nl) ls))"
    by (rule splitlines_append_nl) (use Cons.prems in auto)
  moreover have "splitlines (concat (map (\<lambda>l. l @ nl) ls)) = ls"
    by (rule Cons.IH) (use Cons.prems in auto)
  ultimately show ?case by simp
qed simp

lemma split_sheet:
  "list_all (fits ns) rs \<Longrightarrow> splitlines (concat (map (\<lambda>r. columns ns r @ nl) rs)) = map (columns ns) rs"
  using splitlines_lines [of "map (columns ns) rs"] columns_no_break by (auto simp: list_all_iff comp_def)

lemma row_fits: "row_ok r \<Longrightarrow> fits [w, 10, 12, 10, 12] (row_parts r)"
  by (auto simp: row_ok_def fits_def row_parts_def)

lemma split_summary_line: "row_ok r \<Longrightarrow> split_ws (summary_line w r) = row_parts r"
  by (simp add: summary_line_def split_columns row_fits)

lemma splitlines_summary:
  assumes "list_all row_ok rs"
  shows "drop 1 (splitlines (summary_text w rs)) = map (summary_line w) rs"
proof -
  let ?h = "(''config'', ''expected'', ''result'', ''states'', ''time'', ''check'')"
  have "row_ok ?h" by code_simp
  with assms have "list_all (fits [w, 10, 12, 10, 12]) (map row_parts (?h # rs))"
    by (auto simp: list_all_iff row_fits simp del: One_nat_def)
  from split_sheet [OF this] show ?thesis
    by (simp add: summary_text_def summary_line_def comp_def)
qed

lemma read_summary:
  assumes "list_all row_ok rs"
  shows "read_rows (summary_text w rs) = foldl (\<lambda>d r. AList.update (fst r) (row_parts r) d) [] rs"
proof -
  have "foldl read_row d (map (summary_line w) rs) = foldl (\<lambda>d r. AList.update (fst r) (row_parts r) d) d rs" for d
    using assms
  proof (induction rs arbitrary: d)
    case (Cons r rs)
    have "read_row d (summary_line w r) = AList.update (fst r) (row_parts r) d"
      using Cons.prems by (cases r) (simp add: read_row_def split_summary_line, simp add: row_parts_def row_ok_def)
    with Cons show ?case by simp
  qed simp
  then show ?thesis by (simp only: read_rows_def splitlines_summary [OF assms])
qed

lemma map_of_updates:
  "map_of (foldl (\<lambda>d r. AList.update (fst r) (f r) d) d rs) = map_of d ++ map_of (rev (map (\<lambda>r. (fst r, f r)) rs))"
proof (induction rs arbitrary: d)
  case (Cons r rs)
  then show ?case by (simp add: map_of_update_dict map_add_upd_left map_of_append fun_upd_def) (auto simp: map_add_def fun_eq_iff split: option.splits)
qed simp

text \<open>The row the table shows for a configuration: the last one the summary has\<close>

definition shown :: "row list \<Rightarrow> string \<times> string \<Rightarrow> string list" where
  "shown rs c = (case c of (cfg, d) \<Rightarrow>
     (case filter (\<lambda>r. fst r = cfg) rs of
        [] \<Rightarrow> []
      | r # qs \<Rightarrow> (case last (r # qs) of (config, expect, result, states, took, mark) \<Rightarrow>
          [row_text cfg d (expect, result, states, took)])))"

lemma map_of_last:
  "map_of (rev (map (\<lambda>r. (fst r, f r)) rs)) k =
     (case filter (\<lambda>r. fst r = k) rs of [] \<Rightarrow> None | r # qs \<Rightarrow> Some (f (last (r # qs))))"
  by (induction rs) (auto simp: map_add_def split: list.splits option.splits)

text \<open>
  C25: fill-results.py reads back what summarize.sh prints: the table has its two heading
  lines and then, in the order of the generator, one row for each configuration the summary has, with
  the words of its last line there.\<close>

theorem fill_table_of_summary:
  assumes "list_all row_ok rs"
  shows "out_lines desc (read_rows (summary_text w rs)) = Inr (HEADER @ concat (map (shown rs) desc))"
proof -
  let ?rows = "read_rows (summary_text w rs)"
  have m: "map_of ?rows k = (case filter (\<lambda>r. fst r = k) rs of [] \<Rightarrow> None | r # qs \<Rightarrow> Some (row_parts (last (r # qs))))" for k
    by (simp add: read_summary [OF assms] map_of_updates map_of_last)
  have step: "out_step ?rows out c = Inr (out @ shown rs c)" for out c
    by (cases c) (auto simp: out_step_def shown_def m cells_def row_parts_def split: list.splits prod.splits)
  have "foldE (out_step ?rows) out desc = Inr (out @ concat (map (shown rs) desc))" for out
    by (induction desc arbitrary: out) (simp_all add: step)
  then show ?thesis by (simp add: out_lines_def)
qed

definition some_rows :: "row list" where
  "some_rows = [(''fixed_all'', ''pass'', ''running'', ''-'', ''-'', ''MISMATCH''),
     (''asis_all'', ''violation'', ''violation'', ''17'', ''1s'', ''ok''), (''fixed_all'', ''pass'', ''pass'', ''4012'', ''3min'', ''ok'')]"

theorem fill_table_of_summary_witness:
  "list_all row_ok some_rows \<and> out_lines [(''fixed_all'', ''everything'')] (read_rows (summary_text 32 some_rows))
     = Inr (HEADER @ [row_text ''fixed_all'' ''everything'' (''pass'', ''pass'', ''4012'', ''3min'')])"
proof -
  have ok: "list_all row_ok some_rows" by code_simp
  have "shown some_rows (''fixed_all'', ''everything'') = [row_text ''fixed_all'' ''everything'' (''pass'', ''pass'', ''4012'', ''3min'')]"
    by code_simp
  with ok fill_table_of_summary [OF ok, of "[(''fixed_all'', ''everything'')]" 32] show ?thesis by simp
qed

section \<open>Filling the README\<close>

lemma marker_title [simp]:
  "cnl \<notin> set MARKER" "MARKER \<noteq> []" "cnl \<notin> set TITLE" "TITLE \<noteq> []" "length TITLE \<noteq> 0" "hd TITLE = CHR ''|''"
  by (simp_all add: MARKER_def TITLE_def)

lemma replace_once:
  assumes "whole pre" "cnl \<notin> set p" "p \<noteq> []" "\<not> str_in p pre" "\<not> str_in p post"
  shows "replace p q (pre @ p @ post) = pre @ q @ post"
  using find_whole [of pre p "p @ post"] assms replace_absent [of p post q]
  by (subst replace.simps) simp

text \<open>Lines of a table: they begin with a bar\<close>

definition bar :: "string \<Rightarrow> bool" where
  "bar l = (l \<noteq> [] \<and> hd l = CHR ''|'')"

definition bar_lines :: "string list \<Rightarrow> bool" where
  "bar_lines ls = list_all (\<lambda>l. bar l \<and> cnl \<notin> set l) ls"

lemma next_line_found: "cnl \<notin> set l \<Longrightarrow> next_line (pre @ l @ cnl # s) (length pre) = length (pre @ l @ nl)"
  using str_find_char_append [of cnl l s] by (simp add: next_line_def)

lemma next_line_none: "cnl \<notin> set l \<Longrightarrow> next_line (pre @ l) (length pre) = 0"
  using str_find_char_None [of cnl l] by (simp add: next_line_def)

lemma skip_bar: "bar l \<Longrightarrow> skip_table (pre @ l @ s) (length pre) = skip_table (pre @ l @ s) (next_line (pre @ l @ s) (length pre))"
  by (subst skip_table.simps) (cases l; simp add: bar_def)

lemma skip_stop: "s = [] \<or> hd s \<noteq> CHR ''|'' \<Longrightarrow> skip_table (pre @ s) (length pre) = Some (length pre)"
  by (subst skip_table.simps) (cases s; simp)

lemma skip_lines:
  "bar_lines ls \<Longrightarrow> skip_table (pre @ concat (map (\<lambda>l. l @ nl) ls) @ s) (length pre) =
     skip_table (pre @ concat (map (\<lambda>l. l @ nl) ls) @ s) (length (pre @ concat (map (\<lambda>l. l @ nl) ls)))"
proof (induction ls arbitrary: pre)
  case (Cons l ls)
  let ?t = "concat (map (\<lambda>l. l @ nl) ls)"
  have l: "bar l" "cnl \<notin> set l" and ls: "bar_lines ls" using Cons.prems by (simp_all add: bar_lines_def)
  have "skip_table (pre @ l @ cnl # ?t @ s) (length pre) = skip_table (pre @ l @ cnl # ?t @ s) (length (pre @ l @ nl))"
    using skip_bar [OF l(1), of pre "cnl # ?t @ s"] next_line_found [OF l(2), of pre "?t @ s"] by simp
  also have "\<dots> = skip_table ((pre @ l @ nl) @ ?t @ s) (length ((pre @ l @ nl) @ ?t))"
    using Cons.IH [OF ls, of "pre @ l @ nl"] by simp
  finally show ?case by simp
qed simp

lemma join_lines: "ls \<noteq> [] \<Longrightarrow> join nl ls @ nl = concat (map (\<lambda>l. l @ nl) ls)"
proof (induction ls)
  case (Cons l ls)
  then show ?case by (cases ls) auto
qed simp

text \<open>A table, and a README around its place: whole lines before it, a line without a bar after it,
  and neither the marker nor a table's title in the text\<close>

definition table_ok :: "string list \<Rightarrow> bool" where
  "table_ok ls = (ls \<noteq> [] \<and> bar_lines ls \<and> prefix TITLE (hd ls) \<and> list_all (\<lambda>l. \<not> str_in MARKER l) ls)"

definition around :: "string \<Rightarrow> string \<Rightarrow> bool" where
  "around pre post = (whole pre \<and> \<not> str_in MARKER pre \<and> \<not> str_in TITLE pre \<and>
     (post = [] \<or> hd post \<noteq> CHR ''|'') \<and> \<not> str_in MARKER post)"

lemma no_marker_lines:
  "list_all (\<lambda>l. \<not> str_in MARKER l) ls \<Longrightarrow> \<not> str_in MARKER s \<Longrightarrow> \<not> str_in MARKER (concat (map (\<lambda>l. l @ nl) ls) @ s)"
  by (induction ls) (simp_all add: str_in_nl)

lemma title_lines: "table_ok ls \<Longrightarrow> prefix TITLE (concat (map (\<lambda>l. l @ nl) ls) @ s)"
  by (cases ls) (auto simp: table_ok_def intro: prefix_prefix)

lemma refill_marker:
  "whole pre \<Longrightarrow> \<not> str_in MARKER pre \<Longrightarrow> \<not> str_in MARKER post \<Longrightarrow> refill t (pre @ MARKER @ post) = Some (Inr (pre @ t @ post))"
proof -
  assume a: "whole pre" "\<not> str_in MARKER pre" "\<not> str_in MARKER post"
  have "str_in MARKER (pre @ MARKER @ post)" by (auto simp: str_in_iff)
  then show ?thesis using replace_once [OF a(1) _ _ a(2,3), of t] by (simp add: refill_def)
qed

lemma refill_table:
  assumes "around pre post" "table_ok ls"
  shows "refill t (pre @ join nl ls @ nl @ post) = Some (Inr (pre @ t @ nl @ post))"
proof -
  let ?t = "concat (map (\<lambda>l. l @ nl) ls)"
  have a: "whole pre" "\<not> str_in MARKER pre" "\<not> str_in TITLE pre" "post = [] \<or> hd post \<noteq> CHR ''|''" "\<not> str_in MARKER post"
    and t: "ls \<noteq> []" "bar_lines ls" "list_all (\<lambda>l. \<not> str_in MARKER l) ls"
    using assms by (simp_all add: around_def table_ok_def)
  have s: "pre @ join nl ls @ nl @ post = pre @ ?t @ post" using join_lines [OF t(1)] by (metis append.assoc)
  have "\<not> str_in MARKER (pre @ ?t @ post)"
    using str_in_whole [OF a(1), of MARKER] no_marker_lines [OF t(3) a(5)] a(2) by simp
  moreover have "str_index (pre @ ?t @ post) TITLE = Inr (length pre)"
    using find_whole [OF a(1) _ a(3) title_lines [OF assms(2), of post]] by (simp add: str_index_def)
  moreover have "skip_table (pre @ ?t @ post) (length pre) = Some (length (pre @ ?t))"
    using skip_lines [OF t(2), of pre post] skip_stop [OF a(4), of "pre @ ?t"] by simp
  ultimately show ?thesis unfolding s by (simp add: refill_def)
qed

text \<open>
  C26: The README can be filled again and again: the first run puts the table in the place of the
  marker, and a run with new results replaces the table of the run before, and nothing else.\<close>

theorem fill_again:
  assumes "around pre post" "table_ok ls"
  shows "refill (join nl ls) (pre @ MARKER @ nl @ post) = Some (Inr (pre @ join nl ls @ nl @ post)) \<and>
    refill (join nl ls') (pre @ join nl ls @ nl @ post) = Some (Inr (pre @ join nl ls' @ nl @ post))"
proof -
  have "\<not> str_in MARKER (nl @ post)" using assms(1) str_in_nl [of MARKER "[]" post] by (simp add: around_def)
  with refill_marker [of pre "nl @ post"] refill_table [OF assms] assms(1) show ?thesis by (simp add: around_def)
qed

definition old_table :: "string list" where
  "old_table = HEADER @ [row_text ''fixed_all'' ''everything'' (''pass'', ''running'', ''-'', ''-'')]"

theorem fill_again_witness:
  "refill (join nl HEADER) (''# Results'' @ nl @ MARKER @ nl @ nl @ ''Notes'')
     = Some (Inr (''# Results'' @ nl @ join nl HEADER @ nl @ nl @ ''Notes'')) \<and>
   refill (join nl old_table) (''# Results'' @ nl @ join nl HEADER @ nl @ nl @ ''Notes'')
     = Some (Inr (''# Results'' @ nl @ join nl old_table @ nl @ nl @ ''Notes''))"
proof -
  have ok: "around (''# Results'' @ nl) (nl @ ''Notes'')" "table_ok HEADER" by code_simp+
  from fill_again [OF ok, of old_table] show ?thesis by (simp only: append.assoc)
qed

text \<open>
  C27: A README that ends with the table and has no newline at its end is not filled in place: the
  search for the end of the table wraps to the start of the file, and the whole file is written again
  behind the new table.\<close>

theorem fill_at_end_of_file:
  assumes "around (c # pre) []" "table_ok (ls @ [l])" "c \<noteq> CHR ''|''"
  shows "refill t ((c # pre) @ join nl (ls @ [l])) = Some (Inr ((c # pre) @ t @ nl @ (c # pre) @ join nl (ls @ [l])))"
proof -
  let ?p = "c # pre" and ?t = "concat (map (\<lambda>l. l @ nl) ls)"
  have a: "whole ?p" "\<not> str_in MARKER ?p" "\<not> str_in TITLE ?p" using assms(1) by (simp_all add: around_def)
  have t: "bar_lines ls" "bar l" "cnl \<notin> set l" "list_all (\<lambda>l. \<not> str_in MARKER l) ls" "\<not> str_in MARKER l"
    using assms(2) by (simp_all add: table_ok_def bar_lines_def)
  have j: "join nl (ls @ [l]) = ?t @ l"
    by (cases "ls = []") (simp_all add: join_append join_lines [symmetric])
  have "prefix TITLE (?t @ l @ nl)" using title_lines [OF assms(2), of "[]"] by simp
  then have p: "prefix TITLE (?t @ l)" using prefix_nl [of TITLE "?t @ l" "[]"] by simp
  have m: "\<not> str_in MARKER (?p @ ?t @ l)"
    using str_in_whole [OF a(1), of MARKER] no_marker_lines [OF t(4,5)] a(2) by simp
  have i: "str_index (?p @ ?t @ l) TITLE = Inr (length ?p)"
    using find_whole [OF a(1) _ a(3) p] by (simp add: str_index_def)
  have "skip_table (?p @ ?t @ l) (length ?p) = skip_table ((?p @ ?t) @ l) (length (?p @ ?t))"
    using skip_lines [OF t(1), of ?p l] by simp
  also have "\<dots> = skip_table (?p @ ?t @ l) 0"
    using skip_bar [OF t(2), of "?p @ ?t" "[]"] next_line_none [OF t(3), of "?p @ ?t"] by simp
  also have "\<dots> = Some 0" using skip_stop [of "?p @ ?t @ l" "[]"] assms(3) by simp
  finally show ?thesis unfolding j using m i by (simp add: refill_def)
qed

theorem fill_at_end_of_file_witness:
  "refill ''NEW'' (''Results'' @ nl @ join nl HEADER) = Some (Inr (''Results'' @ nl @ ''NEW'' @ nl @ ''Results'' @ nl @ join nl HEADER))"
proof -
  have ok: "around (CHR ''R'' # ''esults'' @ nl) []" by code_simp
  have "table_ok ([hd HEADER] @ [last HEADER])" by code_simp
  from fill_at_end_of_file [OF ok this, of "''NEW''"] show ?thesis by (simp add: HEADER_def)
qed

section \<open>When the loop ends\<close>

text \<open>A text all of whose lines begin with a bar, the last one too: it does not end with a newline\<close>

definition barred :: "string \<Rightarrow> bool" where
  "barred s = list_all bar (split_on cnl s)"

lemma skip_from:
  assumes "list_all (\<lambda>l. cnl \<notin> set l) ls" "ls \<noteq> []"
  shows "skip_table (pre @ join nl ls) (length pre) =
    (if list_all bar ls then skip_table (pre @ join nl ls) 0
     else Some (length (pre @ concat (map (\<lambda>l. l @ nl) (takeWhile bar ls)))))"
  using assms
proof (induction ls arbitrary: pre)
  case (Cons l ls)
  show ?case
  proof (cases "bar l")
    case False
    then have "join nl (l # ls) = [] \<or> hd (join nl (l # ls)) \<noteq> CHR ''|''" by (cases l; cases ls) (auto simp: bar_def)
    from skip_stop [OF this, of pre] False show ?thesis by simp
  next
    case True
    have l: "cnl \<notin> set l" using Cons.prems by simp
    show ?thesis
    proof (cases "ls = []")
      case True
      with skip_bar [OF \<open>bar l\<close>, of pre "[]"] next_line_none [OF l, of pre] \<open>bar l\<close> show ?thesis by simp
    next
      case False
      have j: "join nl (l # ls) = l @ cnl # join nl ls" using False by (simp add: join_Cons)
      have "skip_table (pre @ l @ cnl # join nl ls) (length pre) = skip_table ((pre @ l @ nl) @ join nl ls) (length (pre @ l @ nl))"
        using skip_bar [OF \<open>bar l\<close>, of pre "cnl # join nl ls"] next_line_found [OF l, of pre "join nl ls"] by simp
      with Cons.IH [of "pre @ l @ nl"] Cons.prems False \<open>bar l\<close> show ?thesis by (simp add: j)
    qed
  qed
qed simp

lemma skip_lines_of:
  "skip_table (pre @ t) (length pre) =
    (if barred t then skip_table (pre @ t) 0
     else Some (length (pre @ concat (map (\<lambda>l. l @ nl) (takeWhile bar (split_on cnl t))))))"
  using skip_from [of "split_on cnl t" pre] split_on_piece [of _ cnl t] join_split_on [of cnl t]
  by (simp add: barred_def list_all_iff)

definition at_bars :: "string \<Rightarrow> nat \<Rightarrow> bool" where
  "at_bars s e = (\<exists>a t. s = a @ t \<and> length a = e \<and> barred t)"

lemma barred_cases:
  assumes "barred t"
  obtains l where "bar l" "cnl \<notin> set l" "t = l" | l t' where "bar l" "cnl \<notin> set l" "t = l @ cnl # t'" "barred t'"
proof -
  obtain l ls where s: "split_on cnl t = l # ls" by (cases "split_on cnl t") auto
  then have b: "bar l" "list_all bar ls" using assms by (simp_all add: barred_def)
  have n: "w \<in> set (l # ls) \<Longrightarrow> cnl \<notin> set w" for w using split_on_piece [of w cnl t] s by simp
  have j: "join nl (l # ls) = t" using join_split_on [of cnl t] s by simp
  show thesis
  proof (cases "ls = []")
    case True
    show ?thesis by (rule that(1)) (use b(1) n j True in simp_all)
  next
    case False
    have "split_on cnl (join nl ls) = ls" by (rule split_on_join [OF False]) (use n in simp)
    then have "barred (join nl ls)" using b(2) by (simp add: barred_def)
    moreover have "t = l @ cnl # join nl ls" using j False by (simp add: join_Cons)
    ultimately show ?thesis using that(2) [of l "join nl ls"] b(1) n by simp
  qed
qed

lemma barred_step:
  assumes "barred s" "at_bars s e"
  shows "e < length s \<and> s ! e = CHR ''|'' \<and> at_bars s (next_line s e)"
proof -
  obtain a t where s: "s = a @ t" "length a = e" "barred t" using assms(2) by (auto simp: at_bars_def)
  have z: "at_bars s 0" using assms(1) by (auto simp: at_bars_def)
  from s(3) show ?thesis
  proof (cases rule: barred_cases)
    case (1 l)
    then show ?thesis using s(1,2) z next_line_none [of l a] by (cases l) (auto simp: bar_def)
  next
    case (2 l t')
    then have "at_bars s (next_line s e)"
      unfolding at_bars_def using s(1,2) next_line_found [of l a t']
      by (intro exI [of _ "a @ l @ nl"] exI [of _ t']) simp
    with 2 s(1,2) show ?thesis by (cases l) (auto simp: bar_def)
  qed
qed

lemma skip_barred:
  assumes "skip_table s e = Some r"
  shows "barred s \<longrightarrow> \<not> at_bars s e"
proof (rule skip_table.raw_induct [where P = "\<lambda>s e r. barred s \<longrightarrow> \<not> at_bars s e", OF _ assms], intro impI notI)
  fix skip s e r
  assume ih: "\<And>s e r. skip s e = Some r \<Longrightarrow> barred s \<longrightarrow> \<not> at_bars s e"
    and step: "(if e < length s \<and> s ! e = CHR ''|'' then skip s (next_line s e) else Some e) = Some r"
    and b: "barred s" "at_bars s e"
  from barred_step [OF b] step have "skip s (next_line s e) = Some r" "at_bars s (next_line s e)" by simp_all
  with ih b(1) show False by blast
qed

lemma skip_start: "skip_table s 0 = None \<longleftrightarrow> barred s"
proof (cases "barred s")
  case True
  then have "skip_table s 0 \<noteq> Some r" for r using skip_barred [of s 0 r] by (auto simp: at_bars_def)
  with True show ?thesis by (cases "skip_table s 0") auto
next
  case False
  with skip_lines_of [of "[]" s] show ?thesis by simp
qed

lemma skip_ends: "skip_table (pre @ t) (length pre) = None \<longleftrightarrow> barred t \<and> barred (pre @ t)"
  unfolding skip_lines_of [of pre t] using skip_start [of "pre @ t"] by simp

text \<open>
  C28: The script always ends, but for one kind of README: the table is there, it goes to the end of
  the file without a newline behind it, and every line of the file, from the first one on, begins with
  a bar. Then the loop over the lines goes round for ever.\<close>

theorem fill_ends:
  "refill table s = None \<longleftrightarrow> \<not> str_in MARKER s \<and>
    (case str_find TITLE s of None \<Rightarrow> False | Some start \<Rightarrow> barred (drop start s) \<and> barred s)"
proof (cases "str_find TITLE s")
  case (Some k)
  then have "length (take k s) = k" using str_find_Some [OF Some] by simp
  with skip_ends [of "take k s" "drop k s"] Some show ?thesis
    by (auto simp: refill_def str_index_def split: option.splits)
qed (simp add: refill_def str_index_def)

text \<open>
  On a README that is the table alone, without a newline behind it, the script does not end.\<close>

theorem fill_loops: "refill table (join nl HEADER) = None"
proof -
  have m: "\<not> str_in MARKER (join nl HEADER)" "str_find TITLE (join nl HEADER) = Some 0" "barred (join nl HEADER)"
    by code_simp+
  have "skip_table (join nl HEADER) 0 = None"
    using skip_ends [of "[]" "join nl HEADER"] m(3) by simp
  with m show ?thesis by (simp add: refill_def str_index_def)
qed

end
