(* ===== verification/Fill_Kernel.thy ===== *)
theory Fill_Kernel
  imports Fill_Table Cfg_Coredump
begin

text \<open>
  The two other \<^verbatim>\<open>fill-results.py\<close>: the one of \<^verbatim>\<open>kernel/work.coredump.close_files.fixes\<close> (\<open>core_fill\<close>),
  which reads two summaries and keeps the first row of a configuration, and the one of
  \<^verbatim>\<open>kernel/work.file.close_range_except\<close> (\<open>close_fill\<close>). The lemmas of \<open>Fill_Table\<close> on the sheets
  that the shell scripts print carry over.
\<close>

section \<open>coredump\<close>

definition CORE_DESC :: "(string \<times> string) list" where
  \<open>CORE_DESC = [
     (''signals_fixed'',
      ''every fix on, all properties''),
     (''cdhole_fixed'',
      ''every fix on, all properties''),
     (''plain_fixed'',
      ''every fix on, all invariants (full budgets)''),
     (''plain_live'',
      ''every fix on, all invariants and both liveness properties (no USR signal, no retry)''),
     (''sqpoll_fixed'',
      ''every fix on, all properties''),
     (''signals_no_rcu'',
      ''FIX_RCU_RELEASE off: NoUseAfterFree''),
     (''signals_no_retarget'',
      ''FIX_RETARGET_GROUP_EXIT and FIX_SIGPENDING_DUMPCORE off: TruncationJustified''),
     (''signals_retarget_only'',
      ''only FIX_RETARGET_GROUP_EXIT off: TruncationJustified (the signal_pending() rule covers the retarget)''),
     (''signals_sigpending_only'',
      ''only FIX_SIGPENDING_DUMPCORE off: TruncationJustified (nothing but the retarget sets TIF_SIGPENDING on the dumper)''),
     (''signals_no_freezer'',
      ''FIX_SIGPENDING_DUMPCORE off: FreezeAbortsDump (a cgroup v2 freeze lets a file dump complete)''),
     (''sqpoll_deadlock'',
      ''FIX_WORKER_NODUMP and FIX_PTRACE_MASK off: DumpEnds (the io-wq worker of an SQPOLL ring dumps, the SQPOLL thread waits for it)''),
     (''sqpoll_mask_only'',
      ''only FIX_WORKER_NODUMP off: DumpEnds (the mask keeps the worker from ever dequeuing the signal)''),
     (''sqpoll_no_gate_signaled'',
      ''FIX_GATE_SIGNALED off: CountConsistent (the SQPOLL thread creates an uncounted worker from its cancel loop)''),
     (''plain_strict'',
      ''every fix on: TruncationJustifiedStrict (TIF_NOTIFY_SIGNAL from a worker creation cuts the dump)''),
     (''plain_no_exec_cancel'',
      ''FIX_EXEC_CANCEL_FIRST off: SingleThreadedExec (a create_worker_cont() survives de_thread())''),
     (''cdhole_no_gate'',
      ''FIX_GATE_POSTCOREDUMP off: CountConsistent (the exit(2) thread creates an uncounted worker)'')]\<close>

definition CORE_HEADER :: "string list" where
  "CORE_HEADER = [''| Configuration | Checks | Expected | Result | Distinct states | TLC time (32 workers) |'',
     ''|---|---|---|---|---|---|'']"

definition EXTRA :: string where
  \<open>EXTRA = nl @ ''`IoWqExitBit_fixed` passes and `IoWqExitBit_nobarrier` violates'' @ nl @
     ''`NoStrandedCreate` with the store buffering trace (set_bit() buffered,'' @ nl @
     ''the cancel loads an empty list, the creator sees the bit clear before and'' @ nl @
     ''after its add, the store lands).  `CorePattern_fixed` passes and'' @ nl @
     ''`CorePattern_torn` violates `ConsistentParse` with the file mode of the'' @ nl @
     ''new pattern combined with the helper path of the old one.'' @ nl\<close>

definition core_read :: "string list list \<Rightarrow> string \<Rightarrow> string list list" where
  "core_read rows line = (let ws = split_ws line in
     if length ws < 4 \<or> ws ! 0 = ''BUGS-DONE'' then rows else rows @ [ws])"

text \<open>A summary that is not there is passed over.\<close>

definition core_file :: "dir \<Rightarrow> string list list \<Rightarrow> string \<Rightarrow> string list list" where
  "core_file d rows f = (case map_of d (''logs/'' @ f) of
     None \<Rightarrow> rows | Some text \<Rightarrow> foldl core_read rows (drop 1 (splitlines text)))"

definition core_rows :: "dir \<Rightarrow> string list list" where
  "core_rows d = foldl (core_file d) [] [''summary.txt'', ''summary-bugs.txt'']"

definition core_row :: "string list \<Rightarrow> string" where
  "core_row ws = row_text (ws ! 0) (get_or CORE_DESC (ws ! 0) [])
     (ws ! 1, ws ! 2, if 6 \<le> length ws then ws ! 3 else [], if 6 \<le> length ws then ws ! 4 else [])"

definition core_step :: "string list \<times> string list \<Rightarrow> string list \<Rightarrow> string list \<times> string list" where
  "core_step s ws = (case s of (out, seen) \<Rightarrow>
     if ws ! 0 \<in> set seen then (out, seen) else (out @ [core_row ws], ws ! 0 # seen))"

definition core_out :: "string list list \<Rightarrow> string list" where
  "core_out rows = fst (foldl core_step (CORE_HEADER, []) rows)"

definition core_fill :: "dir \<Rightarrow> (dir \<times> string) result" where
  "core_fill d = (let out = core_out (core_rows d) in
     bindE (read_text d README) (\<lambda>s.
       Inr (AList.update README (replace MARKER (join nl out @ nl @ EXTRA) s) d, join nl out)))"

section \<open>close\_range\_except\<close>

definition CLOSE_DESC :: "(string \<times> string) list" where
  \<open>CLOSE_DESC = [
     (''refine_new'',
      ''the series, all twelve flag combinations, every table of one or two words of three bits: Refines, CloneOK, NoRefOnDropped, Sized''),
     (''refine_new_3w'',
      ''the same over three words of two bits''),
     (''refine_new_w4'',
      ''the same over two words of four bits (1.7M tables, needs -maxSetSize)''),
     (''refine_old'',
      ''the code before the series with its two flags: Refines, CloneOK''),
     (''refine_old_refs'',
      ''the code before the series: NoRefOnDropped (the clone references what it then closes again)''),
     (''race_fixed'',
      ''__range_close() against open, fd_install, close, F_SETFD and table growth: ClosedOnlySelected, Bounded, Terminates''),
     (''race_fixed_w2'',
      ''the same walk with two-bit words, the size that finishes in minutes''),
     (''race_no_hop'',
      ''the hop of next_fd_to_close() taken out: ClosedOnlySelected (the walk closes the kept window)''),
     (''dupfd_new'',
      ''dup_fd() against the lockless fd_install() and the unlocked resize: CloneOK, NoRefOnDropped, KeptCopied, DroppedNotInClone, CopiedAreFiles, Finishes''),
     (''dupfd_old'',
      ''the code before the series: the same without NoRefOnDropped''),
     (''dupfd_old_refs'',
      ''the code before the series: NoRefOnDropped'')]\<close>

definition CLOSE_HEADER :: string where
  "CLOSE_HEADER = ''| Configuration | What it checks | Expected | Result | States | Time |'' @ nl @ ''|---|---|---|---|---|---|'' @ nl"

text \<open>\<^verbatim>\<open>cfg, expect, result, states, took, mark = ws[:6]\<close> for ws of at least six words\<close>

definition close_row :: "string list \<Rightarrow> string" where
  "close_row ws = row_text (ws ! 0) (get_or CLOSE_DESC (ws ! 0) []) (ws ! 1, ws ! 2, ws ! 3, ws ! 4)"

definition close_read :: "string list \<Rightarrow> string \<Rightarrow> string list" where
  "close_read rows line = (let ws = split_ws line in
     if length ws < 6 \<or> ws ! 0 = ''ALL-DONE'' then rows else rows @ [close_row ws])"

definition close_table :: "string \<Rightarrow> string" where
  "close_table summary = CLOSE_HEADER @ join nl (foldl close_read [] (drop 1 (splitlines summary))) @ nl"

definition CLOSE_TITLE :: string where "CLOSE_TITLE = ''| Configuration |''"

text \<open>\<^verbatim>\<open>text.index("\n\n", start)\<close> raises where the table is followed by no empty line.\<close>

definition close_edit :: "string \<Rightarrow> string \<Rightarrow> string result" where
  "close_edit table text =
     (if \<not> (str_in MARKER text \<or> str_in CLOSE_TITLE text) then Inl (AssertionError [])
      else if str_in MARKER text then Inr (replace (MARKER @ nl) table text)
      else bindE (str_index text CLOSE_TITLE) (\<lambda>start.
             case str_find (nl @ nl) (drop start text) of
               None \<Rightarrow> Inl (ValueError ''substring not found'')
             | Some n \<Rightarrow> Inr (take start text @ rstrip_by (\<lambda>c. c = cnl) table @ drop (start + n) text)))"

definition close_fill :: "dir \<Rightarrow> (dir \<times> string) result" where
  "close_fill d = bindE (read_text d SUMMARY) (\<lambda>summary.
     bindE (read_text d README) (\<lambda>text.
     bindE (close_edit (close_table summary) text) (\<lambda>text.
       Inr (AList.update ''RESULTS.txt'' summary (AList.update README text d), close_table summary))))"


section \<open>The tables\<close>

text \<open>The rows of which no earlier one has the same first word\<close>

definition firsts :: "string list list \<Rightarrow> string list list" where
  "firsts rs = map ((!) rs) (filter (\<lambda>i. rs ! i ! 0 \<notin> set (map (\<lambda>r. r ! 0) (take i rs))) [0..<length rs])"

lemma firsts_snoc:
  "firsts (rs @ [r]) = firsts rs @ (if r ! 0 \<in> set (map (\<lambda>r. r ! 0) rs) then [] else [r])"
proof -
  have i: "i \<in> set [0..<length rs] \<Longrightarrow> (rs @ [r]) ! i = rs ! i \<and> take i (rs @ [r]) = take i rs" for i
    by (simp add: nth_append)
  have "filter (\<lambda>i. (rs @ [r]) ! i ! 0 \<notin> set (map (\<lambda>r. r ! 0) (take i (rs @ [r])))) [0..<length rs] =
    filter (\<lambda>i. rs ! i ! 0 \<notin> set (map (\<lambda>r. r ! 0) (take i rs))) [0..<length rs]"
    by (rule filter_cong) (simp_all only: refl i)
  moreover have "map ((!) (rs @ [r])) (filter P [0..<length rs]) = map ((!) rs) (filter P [0..<length rs])" for P
    by (rule map_cong) (auto simp: nth_append)
  ultimately show ?thesis by (simp add: firsts_def)
qed

lemma core_steps:
  "\<exists>seen. foldl core_step (CORE_HEADER, []) rs = (CORE_HEADER @ map core_row (firsts rs), seen) \<and>
     set seen = set (map (\<lambda>r. r ! 0) rs)"
proof (induction rs rule: rev_induct)
  case (snoc r rs)
  then show ?case by (auto simp: core_step_def firsts_snoc)
qed (simp add: firsts_def)

lemma core_out_firsts: "core_out rs = CORE_HEADER @ map core_row (firsts rs)"
  using core_steps [of rs] by (auto simp: core_out_def)

definition core_line_ok :: "row \<Rightarrow> bool" where
  "core_line_ok r = (row_ok r \<and> fst r \<noteq> ''BUGS-DONE'')"

lemma core_read_lines:
  "list_all core_line_ok rs \<Longrightarrow> foldl core_read rows (map (summary_line w) rs) = rows @ map row_parts rs"
proof (induction rs arbitrary: rows)
  case (Cons r rs)
  then have "split_ws (summary_line w r) = row_parts r" "length (row_parts r) = 6" "row_parts r ! 0 \<noteq> ''BUGS-DONE''"
    by (auto simp: core_line_ok_def split_summary_line row_parts_def split: prod.splits)
  with Cons show ?case by (simp add: core_read_def)
qed simp

text \<open>
  C29: The loop of the coredump fill-results.py that keeps the names it has seen agrees with the
  declarative reading: the table has the rows of logs/summary.txt and then of logs/summary-bugs.txt,
  except those of a configuration that came before; and the script has a description for exactly the
  configurations that gen-cfgs.py writes.\<close>

theorem core_table_firsts:
  assumes "map_of d ''logs/summary.txt'' = Some (summary_text 26 rs)"
    and "map_of d ''logs/summary-bugs.txt'' = Some (summary_text 26 bugs)"
    and "list_all core_line_ok (rs @ bugs)"
  shows "core_out (core_rows d) = CORE_HEADER @ map core_row (firsts (map row_parts (rs @ bugs))) \<and>
    set (dkeys CORE_DESC) = set (dkeys Cfg_Coredump.CONFIGS)"
proof
  have k: "list_all row_ok rs" "list_all row_ok bugs" "list_all core_line_ok rs" "list_all core_line_ok bugs"
    using assms(3) by (auto simp: core_line_ok_def list_all_iff)
  have "core_rows d = map row_parts (rs @ bugs)"
    by (simp add: core_rows_def core_file_def assms(1,2) splitlines_summary [OF k(1)] splitlines_summary [OF k(2)]
        core_read_lines [OF k(3)] core_read_lines [OF k(4)] del: One_nat_def)
  then show "core_out (core_rows d) = CORE_HEADER @ map core_row (firsts (map row_parts (rs @ bugs)))"
    by (simp only: core_out_firsts)
  have "list_all (\<lambda>k. List.member (dkeys Cfg_Coredump.CONFIGS) k) (dkeys CORE_DESC)"
    "list_all (\<lambda>k. List.member (dkeys CORE_DESC) k) (dkeys Cfg_Coredump.CONFIGS)"
    by code_simp+
  then show "set (dkeys CORE_DESC) = set (dkeys Cfg_Coredump.CONFIGS)"
    by (auto simp: list_all_iff List.member_iff)
qed

definition core_rows_1 :: "row list" where
  "core_rows_1 = [(''plain_fixed'', ''pass'', ''pass'', ''100'', ''3s'', ''ok''), (''plain_strict'', ''violation'', ''violation'', ''7'', ''1s'', ''ok'')]"

definition core_rows_2 :: "row list" where
  "core_rows_2 = [(''plain_strict'', ''violation'', ''running'', ''-'', ''-'', ''MISMATCH'')]"

theorem core_table_firsts_witness:
  "core_out (core_rows [(''logs/summary.txt'', summary_text 26 core_rows_1), (''logs/summary-bugs.txt'', summary_text 26 core_rows_2)])
     = CORE_HEADER @ map core_row (map row_parts core_rows_1)"
proof -
  have ok: "list_all core_line_ok (core_rows_1 @ core_rows_2)" by code_simp
  have f: "firsts (map row_parts (core_rows_1 @ core_rows_2)) = map row_parts core_rows_1" by code_simp
  have "core_out (core_rows [(''logs/summary.txt'', summary_text 26 core_rows_1), (''logs/summary-bugs.txt'', summary_text 26 core_rows_2)])
    = CORE_HEADER @ map core_row (firsts (map row_parts (core_rows_1 @ core_rows_2)))"
    by (rule conjunct1 [OF core_table_firsts [OF _ _ ok]]) simp_all
  then show ?thesis by (simp only: f)
qed







end
