(* ===== verification/Show_Base.thy ===== *)
theory Show_Base
  imports Py_Re_First Py_Lines Py_Json
begin

text \<open>
  What the \<^verbatim>\<open>show-*-trace.py\<close> of the kernel models share: the search for the counterexample in TLC's
  log, the split into states, \<^verbatim>\<open>var()\<close>, which reads the value of a variable out of a state's text, and
  the splitters of records. \<open>show_log\<close> is their common frame; a script is a \<open>printer\<close>, from the number of
  a state, its first line and the values of its variables to the lines printed.

  The lemmas: the frame cuts a log into the states that TLC printed, and \<^verbatim>\<open>var()\<close> reads back what TLC
  printed for a variable, but for the last variable of the last state, whose value runs on to the end of the
  log.
\<close>

section \<open>Reading a state\<close>

definition re_blank :: rx where
  "re_blank = Plus is_space"

text \<open>\<^verbatim>\<open>re.sub(r'\s+', ' ', v).strip()\<close>\<close>

definition squeeze :: "string \<Rightarrow> string" where
  "squeeze v = strip (re_sub re_blank (\<lambda>_. '' '') v)"

definition conj :: string where
  "conj = CHR ''/'' # cbs # '' ''"

text \<open>\<^verbatim>\<open>r'/\\ ' + name + r' = (.*?)(?=\n/\\ |\Z)'\<close> under \<^verbatim>\<open>re.S\<close>; the names are words\<close>

definition VAR :: "string \<Rightarrow> rx" where
  "VAR name = seqs [Lit (conj @ name @ '' = ''), Grp 1 (Rep False all_char), Look (Alt (Lit (nl @ conj)) Eos)]"

definition var :: "string \<Rightarrow> string \<Rightarrow> string \<Rightarrow> string" where
  "var missing body name = (case re_search (VAR name) body of
     None \<Rightarrow> missing | Some m \<Rightarrow> squeeze (group_str m 1))"

text \<open>\<^verbatim>\<open>body.split('\n', 1)[0].strip()\<close>\<close>

definition head_of :: "string \<Rightarrow> string" where
  "head_of body = strip (hd (split_on cnl body))"

text \<open>\<^verbatim>\<open>re.sub(r' line \d+, col \d+ to line \d+, col \d+ of module \w+', '', head)\<close>\<close>

definition WHERE :: rx where
  "WHERE = seqs [Lit '' line '', Plus is_digit, Lit '', col '', Plus is_digit, Lit '' to line '', Plus is_digit,
     Lit '', col '', Plus is_digit, Lit '' of module '', Plus is_word]"

definition act_of :: "string \<Rightarrow> string" where
  "act_of head = re_sub WHERE (\<lambda>_. []) head"

section \<open>The frame\<close>

definition MARK :: string where
  "MARK = ''Error: The behavior up to this point is:''"

definition LASSO_MARK :: string where
  "LASSO_MARK = ''Error: The following behavior constitutes a counter-example:''"

text \<open>\<^verbatim>\<open>log.find(p)\<close> and \<^verbatim>\<open>log.index(p)\<close> of a text that is there\<close>

definition place :: "string \<Rightarrow> string \<Rightarrow> nat" where
  "place p s = (case str_find p s of None \<Rightarrow> length s | Some n \<Rightarrow> n)"

definition STATE :: rx where
  "STATE = seqs [Lit (nl @ ''State ''), Grp 1 (Plus is_digit), Lit '': '']"

definition states :: "string \<Rightarrow> (string \<times> string) list" where
  "states trace = map (\<lambda>(m, t). (group_str m 1, t)) (snd (re_split STATE trace))"

type_synonym 'a printer = "string \<Rightarrow> string \<Rightarrow> (string \<Rightarrow> string) \<Rightarrow> 'a"

definition no_trace :: "nat \<Rightarrow> string \<Rightarrow> string list" where
  "no_trace limit log = [if str_in ''Error'' log then take limit (drop (place ''Error'' log) log) else ''no error in log'']"

text \<open>The text before the trace, from the first error on: \<^verbatim>\<open>log[log.index('Error:'):log.index(mark)].strip()\<close>\<close>

definition reason :: "string \<Rightarrow> string \<Rightarrow> string" where
  "reason mark log = strip (drop (place ''Error:'' log) (take (place mark log) log))"

text \<open>The loop over the states: what the printer makes of each\<close>

definition each_state :: "string \<Rightarrow> 'a printer \<Rightarrow> string \<Rightarrow> 'a list" where
  "each_state missing pr trace = map (\<lambda>(n, body). pr n (head_of body) (var missing body)) (states trace)"

definition show_states :: "string \<Rightarrow> string list printer \<Rightarrow> string \<Rightarrow> string list" where
  "show_states missing pr trace = concat (each_state missing pr trace)"

definition show_log :: "nat \<Rightarrow> string list \<Rightarrow> (string \<Rightarrow> string list) \<Rightarrow> string \<Rightarrow> string list" where
  "show_log limit marks rest log = (case List.find (\<lambda>mk. str_in mk log) marks of
     None \<Rightarrow> no_trace limit log
   | Some mark \<Rightarrow> reason mark log # rest (drop (place mark log) log))"

section \<open>Records\<close>

text \<open>The loop of \<^verbatim>\<open>recs()\<close>: the texts from an opening bracket to the one that closes it\<close>

fun recs_loop :: "string list \<Rightarrow> int \<Rightarrow> string \<Rightarrow> string \<Rightarrow> string list" where
  "recs_loop out depth cur [] = out"
| "recs_loop out depth cur (c # cs) =
     (let depth = (if c = CHR ''['' then depth + 1 else depth);
          cur = (if depth \<noteq> 0 then cur @ [c] else cur) in
      if c = CHR '']'' then
        (let depth = depth - 1 in if depth = 0 then recs_loop (out @ [cur]) depth [] cs else recs_loop out depth cur cs)
      else recs_loop out depth cur cs)"

definition recs :: "string \<Rightarrow> string list" where
  "recs text = recs_loop [] 0 [] text"

text \<open>\<^verbatim>\<open>re.search(r'\b' + name + r' \|-> (...)', rec)\<close> with the alternatives of the script\<close>

definition field_by :: "rx \<Rightarrow> string \<Rightarrow> string \<Rightarrow> string" where
  "field_by alts rec name = (case re_search (seqs [WordB, Lit (name @ '' |-> ''), Grp 1 alts]) rec of
     None \<Rightarrow> ''?'' | Some m \<Rightarrow> group_str m 1)"

definition braced :: rx where "braced = seqs [Lit ''{'', Star (none_of ''}''), Lit ''}'']"
definition bracketed :: rx where "bracketed = seqs [Lit ''['', Star (none_of '']''), Lit '']'']"
definition angled :: rx where "angled = seqs [Lit ''<<'', Star (none_of ''>''), Lit ''>>'']"
definition in_dquotes :: rx where "in_dquotes = seqs [Lit dq, Star (none_of dq), Lit dq]"
definition bare :: rx where "bare = Plus (\<lambda>c. c \<notin> set '',]'' \<and> \<not> is_space c)"

text \<open>\<^verbatim>\<open>''.join(c for c, k in ... if field(rec, k) == 'TRUE')\<close>\<close>

definition letters :: "(string \<Rightarrow> string) \<Rightarrow> (string \<times> string) list \<Rightarrow> string" where
  "letters get cs = concat (map fst (filter (\<lambda>(c, k). get k = ''TRUE'') cs))"

text \<open>\<^verbatim>\<open>r'(\w+) :> \[(.*?)\](?= @@|\)|$)'\<close>: the records of a function\<close>

definition ENTRY :: rx where
  "ENTRY = seqs [Grp 1 (Plus is_word), Lit '' :> ['', Grp 2 (Rep False any_char), Lit '']'',
     Look (Alt (Lit '' @@'') (Alt (Lit '')'') Eol))]"

definition entries :: "string \<Rightarrow> (string \<times> string) list" where
  "entries text = re_findall2 ENTRY text"

text \<open>\<^verbatim>\<open>enumerate(xs, 1)\<close>\<close>

definition numbered :: "'a list \<Rightarrow> (string \<times> 'a) list" where
  "numbered xs = map (\<lambda>(i, x). (show_nat i, x)) (enumerate 1 xs)"

section \<open>Runs of whitespace\<close>

text \<open>A text as the tokens and the runs of whitespace between them\<close>

function runs :: "string \<Rightarrow> string \<times> (string \<times> string) list" where
  "runs w = (let p = takeWhile (\<lambda>c. \<not> is_space c) w; r = dropWhile (\<lambda>c. \<not> is_space c) w in
     if r = [] then (p, [])
     else case runs (dropWhile is_space r) of (q, qs) \<Rightarrow> (p, (takeWhile is_space r, q) # qs))"
  by pat_completeness auto
termination
proof (relation "measure length", goal_cases)
  case (2 w p r)
  from 2(3) obtain c cs where r: "r = c # cs" by (meson neq_Nil_conv)
  then have "is_space c" using 2(2) hd_dropWhile [of "\<lambda>c. \<not> is_space c" w] by simp
  with r have "length (dropWhile is_space r) < length r" by (simp add: length_dropWhile_le le_imp_less_Suc)
  also have "length r \<le> length w" using 2(2) by (simp add: length_dropWhile_le)
  finally show ?case by simp
qed simp

declare runs.simps [simp del]

lemma runs_props:
  "runs w = (p, qs) \<Longrightarrow> w = p @ glued qs \<and> list_all (\<lambda>c. \<not> is_space c) p \<and>
     list_all (\<lambda>(s, q). s \<noteq> [] \<and> list_all is_space s \<and> list_all (\<lambda>c. \<not> is_space c) q) qs \<and>
     split_ws w = filter (\<lambda>t. t \<noteq> []) (p # map snd qs) \<and> list_all (\<lambda>(s, q). q \<noteq> []) (butlast qs)"
proof (induction w arbitrary: p qs rule: runs.induct)
  case (1 w)
  let ?p = "takeWhile (\<lambda>c. \<not> is_space c) w" and ?r = "dropWhile (\<lambda>c. \<not> is_space c) w"
  have p: "list_all (\<lambda>c. \<not> is_space c) ?p" by (auto simp: list_all_iff dest: set_takeWhileD)
  have tok: "split_ws (t @ s) = t # split_ws s"
    if "list_all (\<lambda>c. \<not> is_space c) t" "t \<noteq> []" "s = [] \<or> is_space (hd s)" for t s
    using that by (intro split_ws_word)
  show ?case
  proof (cases "?r = []")
    case True
    then have "?p = w" by (metis append.right_neutral takeWhile_dropWhile_id)
    have "p = ?p \<and> qs = []" using 1(2) unfolding runs.simps [of w] Let_def True by simp
    then have "p = w" "qs = []" using \<open>?p = w\<close> by simp_all
    with p \<open>?p = w\<close> tok [of w "[]"] show ?thesis by (cases "w = []") (simp_all add: split_ws.simps [of "[]"])
  next
    case False
    obtain q ps where q: "runs (dropWhile is_space ?r) = (q, ps)" by fastforce
    have pq: "p = ?p" "qs = (takeWhile is_space ?r, q) # ps"
      using 1(2) unfolding runs.simps [of w] Let_def q by (simp_all only: False if_False prod.case prod.inject)
    from 1(1) [OF refl refl False q] have ih: "dropWhile is_space ?r = q @ glued ps" "list_all (\<lambda>c. \<not> is_space c) q"
      "list_all (\<lambda>(s, q). s \<noteq> [] \<and> list_all is_space s \<and> list_all (\<lambda>c. \<not> is_space c) q) ps"
      "split_ws (dropWhile is_space ?r) = filter (\<lambda>t. t \<noteq> []) (q # map snd ps)" "list_all (\<lambda>(s, q). q \<noteq> []) (butlast ps)"
      by blast+
    have h: "is_space (hd ?r)" using False by (metis hd_dropWhile)
    then have s: "takeWhile is_space ?r \<noteq> []" "list_all is_space (takeWhile is_space ?r)"
      using False by (cases ?r; auto simp: list_all_iff dest: set_takeWhileD)+
    have "w = ?p @ takeWhile is_space ?r @ dropWhile is_space ?r" by simp
    then have w: "w = p @ glued qs" using ih(1) by (simp add: pq)
    have "split_ws w = filter (\<lambda>t. t \<noteq> []) [?p] @ split_ws ?r"
      using tok [OF p, of ?r] h by (cases "?p = []") (simp_all, metis append_Nil takeWhile_dropWhile_id)
    moreover have "split_ws ?r = split_ws (dropWhile is_space ?r)" by (rule split_ws_skip)
    ultimately have sw: "split_ws w = filter (\<lambda>t. t \<noteq> []) (p # map snd qs)" using ih(4) by (simp add: pq)
    have "q \<noteq> []" if ne: "ps \<noteq> []"
    proof
      assume "q = []"
      obtain a b cs where "ps = (a, b) # cs" using ne by (cases ps) auto
      with ih(1,3) \<open>q = []\<close> have "dropWhile is_space ?r \<noteq> [] \<and> is_space (hd (dropWhile is_space ?r))" by (cases a) auto
      then show False by (metis hd_dropWhile)
    qed
    with ih(5) have "list_all (\<lambda>(s, q). q \<noteq> []) (butlast qs)" by (simp add: pq)
    with w sw p s ih(2,3) show ?thesis by (simp add: pq)
  qed
qed

lemma sub_glued:
  assumes "runs w = (p, qs)"
  shows "re_sub re_blank (\<lambda>_. '' '') w = p @ concat (map (\<lambda>(s, q). '' '' @ q) qs)"
proof -
  from runs_props [OF assms] have w: "w = p @ glued qs" and p: "list_all (\<lambda>c. \<not> is_space c) p"
    and q: "list_all (\<lambda>(s, q). s \<noteq> [] \<and> list_all is_space s \<and> list_all (\<lambda>c. \<not> is_space c) q) qs"
    and b: "list_all (\<lambda>(s, q). q \<noteq> []) (butlast qs)" by blast+
  have mute: "mute re_blank t rest" if "list_all (\<lambda>c. \<not> is_space c) t" for t rest
    using that by (induction t) (auto simp: re_blank_def)
  have start: "rest = [] \<or> \<not> is_space (hd rest)" if "qs = rs @ (s, t) # us" "rest = t @ glued us" for rs s t us rest
  proof (cases "us = []")
    case True
    with that q show ?thesis by (cases t) (auto simp: list_all_iff)
  next
    case False
    with that(1) b have "t \<noteq> []" by (auto simp: butlast_append list_all_iff split: if_splits)
    with that q show ?thesis by (cases t) (auto simp: list_all_iff)
  qed
  have "\<exists>ms. re_split re_blank (p @ glued qs) = (p, ms) \<and> map (\<lambda>(m, t). (m_groups m, t)) ms = map (\<lambda>(s, t). (Map.empty, t)) qs"
  proof (rule split_glued)
    show "mt re_blank (pre, [], Map.empty) = []" for pre by (simp add: re_blank_def)
    show "mute re_blank p (glued qs)" by (rule mute [OF p])
    fix s t us rs
    assume e: "qs = rs @ (s, t) # us"
    then have st: "s \<noteq> []" "list_all is_space s" "list_all (\<lambda>c. \<not> is_space c) t" using q by auto
    have "hits re_blank (pre, s @ t @ glued us, Map.empty) (rev s @ pre, t @ glued us, Map.empty)" for pre
      unfolding re_blank_def by (rule hits_plus [OF st(2,1) start [OF e refl]])
    with st(1) mute [OF st(3)] show "s \<noteq> [] \<and> mute re_blank t (glued us) \<and>
      (\<forall>pre. hits re_blank (pre, s @ t @ glued us, Map.empty) (rev s @ pre, t @ glued us, Map.empty))" by blast
  qed
  then obtain ms where ms: "re_split re_blank w = (p, ms)" "map snd ms = map snd qs"
    unfolding w by (auto dest!: arg_cong [of _ _ "map snd"] simp: comp_def case_prod_beta)
  have "map (\<lambda>(m, t). '' '' @ t) ms = map (\<lambda>(s, q). '' '' @ q) qs"
    using arg_cong [OF ms(2), of "map (\<lambda>t. '' '' @ t)"] unfolding map_map comp_def case_prod_beta .
  then show ?thesis by (simp add: re_sub_def ms(1))
qed

lemma join_prepend: "p @ concat (map (\<lambda>q. '' '' @ q) qs) = join '' '' (p # qs)"
proof (induction qs arbitrary: p)
  case (Cons q qs)
  from Cons.IH [of q] show ?case by simp
qed simp

lemma strip_join_tokens:
  assumes "list_all (\<lambda>t. t \<noteq> [] \<and> list_all (\<lambda>c. \<not> is_space c) t) ts"
  shows "strip (join '' '' ts) = join '' '' ts"
proof (cases "ts = []")
  case False
  have ends: "t \<noteq> [] \<and> \<not> is_space (hd t) \<and> \<not> is_space (last t)" if "t \<in> set ts" for t
    using assms that by (auto simp: list_all_iff)
  have "join '' '' ts \<noteq> [] \<and> \<not> is_space (hd (join '' '' ts)) \<and> \<not> is_space (last (join '' '' ts))"
    using False ends
  proof (induction ts)
    case (Cons t ts)
    then show ?case by (cases ts) auto
  qed simp
  then show ?thesis unfolding strip_def by (intro strip_by_noop) blast
qed (simp add: strip_def strip_by_def lstrip_by_def rstrip_by_def)

lemma strip_join:
  assumes "list_all (\<lambda>t. list_all (\<lambda>c. \<not> is_space c) t) (p # us)" "list_all (\<lambda>t. t \<noteq> []) (butlast us)"
  shows "strip (join '' '' (p # us)) = join '' '' (filter (\<lambda>t. t \<noteq> []) (p # us))"
proof -
  have sp: "\<forall>c\<in>set '' ''. is_space c" by (simp add: is_space_def code_def)
  let ?f = "filter (\<lambda>t. t \<noteq> [])"
  have tidy: "strip (join '' '' (?f ts)) = join '' '' (?f ts)" if "list_all (\<lambda>t. list_all (\<lambda>c. \<not> is_space c) t) ts" for ts
    by (rule strip_join_tokens) (use that in \<open>auto simp: list_all_iff\<close>)
  have "\<exists>A B. join '' '' (p # us) = A @ join '' '' (?f (p # us)) @ B \<and> (\<forall>c\<in>set A. is_space c) \<and> (\<forall>c\<in>set B. is_space c)"
  proof (cases us rule: rev_cases)
    case Nil
    then show ?thesis by (intro exI [of _ "[]"]) auto
  next
    case (snoc xs l)
    then have xs: "?f xs = xs" using assms(2) by (simp add: filter_id_conv list_all_iff)
    have "\<exists>A. join '' '' (p # us) = A @ join '' '' (?f [p] @ us) \<and> (\<forall>c\<in>set A. is_space c)"
      using sp snoc by (cases "p = []") (auto simp: join_Cons intro!: exI [of _ "'' ''"] exI [of _ "[]"])
    moreover have "\<exists>B. join '' '' (?f [p] @ us) = join '' '' (?f (p # us)) @ B \<and> (\<forall>c\<in>set B. is_space c)"
    proof (cases "l = []")
      case True
      let ?zs = "?f [p] @ xs"
      have "join '' '' (?zs @ [[]]) = join '' '' ?zs @ (if ?zs = [] then [] else '' '')"
        using join_append [of ?zs "[[]]" "'' ''"] by simp
      then show ?thesis using sp snoc xs True by (intro exI [of _ "if ?zs = [] then [] else '' ''"]) auto
    next
      case False
      then show ?thesis using snoc xs by (intro exI [of _ "[]"]) auto
    qed
    ultimately show ?thesis by (metis append.assoc)
  qed
  then show ?thesis using strip_surround tidy [OF assms(1)] by metis
qed

text \<open>Collapsing the whitespace of a text leaves its tokens, one blank apart.\<close>

lemma squeeze_tokens: "squeeze w = join '' '' (split_ws w)"
proof -
  obtain p qs where r: "runs w = (p, qs)" by fastforce
  from runs_props [OF r] have p: "list_all (\<lambda>c. \<not> is_space c) p"
    and q: "list_all (\<lambda>(s, q). s \<noteq> [] \<and> list_all is_space s \<and> list_all (\<lambda>c. \<not> is_space c) q) qs"
    and t: "split_ws w = filter (\<lambda>t. t \<noteq> []) (p # map snd qs)" and b: "list_all (\<lambda>(s, q). q \<noteq> []) (butlast qs)" by blast+
  have sp: "is_space CHR '' ''" by (simp add: is_space_def code_def)
  let ?ts = "p # map snd qs"
  have c: "p @ concat (map (\<lambda>(s, q). '' '' @ q) qs) = join '' '' ?ts"
  proof -
    have "(\<lambda>(s, q). '' '' @ q) = (\<lambda>q. '' '' @ q) \<circ> (snd :: string \<times> string \<Rightarrow> string)" by (rule ext) (simp add: case_prod_beta)
    then show ?thesis using join_prepend [of p "map snd qs"] by (simp only: map_map)
  qed
  have ns: "list_all (\<lambda>t. list_all (\<lambda>c. \<not> is_space c) t) ?ts" using p q by (auto simp: list_all_iff)
  have "strip (join '' '' ?ts) = join '' '' (filter (\<lambda>t. t \<noteq> []) ?ts)" by (rule strip_join) (use ns b in \<open>auto simp: map_butlast [symmetric] list_all_iff\<close>)
  then show ?thesis by (simp only: squeeze_def sub_glued [OF r] c t)
qed

section \<open>What TLC prints\<close>

text \<open>A state: its number, its first line, and its variables with the texts of their values\<close>

type_synonym tstate = "string \<times> string \<times> (string \<times> string) list"

definition var_line :: "string \<times> string \<Rightarrow> string" where
  "var_line kv = (case kv of (k, v) \<Rightarrow> conj @ k @ '' = '' @ v)"

definition body_text :: "string \<Rightarrow> (string \<times> string) list \<Rightarrow> string" where
  "body_text head kvs = head @ concat (map (\<lambda>kv. nl @ var_line kv) kvs)"

definition state_mark :: "string \<Rightarrow> string" where
  "state_mark n = nl @ ''State '' @ n @ '': ''"

definition tlc_log :: "string \<Rightarrow> tstate list \<Rightarrow> string \<Rightarrow> string" where
  "tlc_log before ss after = before @ MARK @
     concat (map (\<lambda>(n, h, kvs). state_mark n @ body_text h kvs @ nl) ss) @ after"

text \<open>The value of a variable: the tokens of its text. The text of the last variable goes on to the end of
  the state's block, where \<open>after\<close> stands.\<close>

definition value_of :: "string \<Rightarrow> (string \<times> string) list \<Rightarrow> string \<Rightarrow> string \<Rightarrow> string" where
  "value_of missing kvs after k = (case map_of kvs k of
     None \<Rightarrow> missing
   | Some v \<Rightarrow> join '' '' (split_ws (if k = fst (last kvs) then v @ after else v)))"

definition name_ok :: "string \<Rightarrow> bool" where
  "name_ok k = (k \<noteq> [] \<and> list_all is_word k)"

definition vars_ok :: "(string \<times> string) list \<Rightarrow> bool" where
  "vars_ok kvs = (distinct (map fst kvs) \<and> list_all (\<lambda>(k, v). name_ok k \<and> \<not> List.member v cbs) kvs)"

section \<open>Reading a variable back\<close>

lemma name_chars: "name_ok k \<Longrightarrow> c \<in> set k \<Longrightarrow> c \<noteq> CHR '' '' \<and> c \<noteq> cbs \<and> c \<noteq> cnl"
  by (auto simp: name_ok_def list_all_iff is_word_def is_digit_def code_def)

lemma VAR_unfold: "VAR k = Seq (Lit (conj @ k @ '' = '')) (Seq (Grp 1 (Rep False all_char)) (Look (Alt (Lit (nl @ conj)) Eos)))"
  by (simp add: VAR_def)

lemma mt_VAR_none: "\<not> prefix (conj @ k @ '' = '') rest \<Longrightarrow> mt (VAR k) (pre, rest, g) = []"
  by (simp only: VAR_unfold mt.simps(5) mt.simps(3) if_False list.map concat.simps)

lemma mute_no_bs: "cbs \<notin> set a \<Longrightarrow> rest = [] \<or> hd rest \<noteq> cbs \<Longrightarrow> mute (VAR k) a rest"
proof (induction a)
  case (Cons x a)
  have "\<not> prefix (conj @ k @ '' = '') (x # a @ rest)"
    using Cons.prems by (cases "a @ rest") (auto simp: conj_def Cons_eq_append_conv append_eq_Cons_conv)
  then have "\<forall>pre. mt (VAR k) (pre, x # a @ rest, Map.empty) = []" by (blast intro: mt_VAR_none)
  with Cons show ?case by simp
qed simp

lemma prefix_name: "name_ok k \<Longrightarrow> name_ok k' \<Longrightarrow> prefix (k @ '' = '') (k' @ '' = '' @ v) \<Longrightarrow> k = k'"
proof (induction k arbitrary: k')
  case Nil
  then show ?case by (simp add: name_ok_def)
next
  case (Cons x k)
  show ?case
  proof (cases k')
    case Nil
    then show ?thesis using Cons.prems(2) by (simp add: name_ok_def)
  next
    case (Cons y k2)
    with Cons.prems have xy: "x = y" and p: "prefix (k @ '' = '') (k2 @ '' = '' @ v)" by simp_all
    have blank: "\<not> is_word CHR '' ''" by (simp add: is_word_def is_digit_def code_def)
    have w: "list_all is_word k" "list_all is_word k2" using Cons.prems(1,2) Cons by (simp_all add: name_ok_def)
    show ?thesis
    proof (cases "k = [] \<or> k2 = []")
      case True
      then have "k = k2" using p w blank by (cases k; cases k2) auto
      with xy Cons show ?thesis by simp
    next
      case False
      with w have "name_ok k" "name_ok k2" by (simp_all add: name_ok_def)
      from Cons.IH [OF this p] xy Cons show ?thesis by simp
    qed
  qed
qed

lemma mute_line:
  assumes "name_ok k" "name_ok k'" "k \<noteq> k'" "cbs \<notin> set v" "rest = [] \<or> hd rest \<noteq> cbs"
  shows "mute (VAR k) (var_line (k', v)) rest"
proof -
  have "cbs \<notin> set ('' '' @ k' @ '' = '' @ v)" using name_chars [OF assms(2)] assms(4) by auto
  then have 1: "mute (VAR k) ('' '' @ k' @ '' = '' @ v) rest" using assms(5) by (rule mute_no_bs)
  have "\<not> prefix (conj @ k @ '' = '') (conj @ k' @ '' = '' @ v @ rest)"
    using prefix_name [OF assms(1,2), of "v @ rest"] assms(3) by (auto simp: conj_def)
  then have 2: "\<forall>pre. mt (VAR k) (pre, conj @ k' @ '' = '' @ v @ rest, Map.empty) = []" by (blast intro: mt_VAR_none)
  have "\<not> prefix (conj @ k @ '' = '') (cbs # '' '' @ k' @ '' = '' @ v @ rest)" by (simp add: conj_def)
  then have 3: "\<forall>pre. mt (VAR k) (pre, cbs # '' '' @ k' @ '' = '' @ v @ rest, Map.empty) = []" by (blast intro: mt_VAR_none)
  have l: "var_line (k', v) = CHR ''/'' # cbs # '' '' @ k' @ '' = '' @ v" by (simp add: var_line_def conj_def)
  show ?thesis unfolding l mute.simps using 1 2 3 by (simp add: conj_def)
qed

lemma mute_lines:
  assumes "name_ok k" "list_all (\<lambda>(k', v). name_ok k' \<and> k' \<noteq> k \<and> cbs \<notin> set v) kvs" "rest = [] \<or> hd rest \<noteq> cbs"
  shows "mute (VAR k) (concat (map (\<lambda>kv. nl @ var_line kv) kvs)) rest"
  using assms(2)
proof (induction kvs)
  case (Cons kv kvs)
  obtain k' v where kv: "kv = (k', v)" by (cases kv)
  let ?r = "concat (map (\<lambda>kv. nl @ var_line kv) kvs) @ rest"
  have "?r = [] \<or> hd ?r \<noteq> cbs" using assms(3) by (cases kvs) auto
  then have "mute (VAR k) (var_line (k', v)) ?r" by (intro mute_line) (use Cons.prems assms(1) kv in auto)
  moreover have "mute (VAR k) nl (var_line (k', v) @ ?r)"
    by (rule mute_no_bs) (simp_all add: var_line_def conj_def)
  ultimately show ?case using Cons by (simp add: kv mute_append del: append_assoc mute.simps) (simp add: mute_append)
qed simp

lemma hits_VAR:
  assumes "cbs \<notin> set v" "rest = [] \<or> prefix (nl @ conj) rest"
  shows "\<exists>t. hits (VAR k) (pre, conj @ k @ '' = '' @ v @ rest, Map.empty) t \<and> fst t \<noteq> pre \<and> snd (snd t) = [1 \<mapsto> v]"
proof -
  let ?p = "rev (conj @ k @ '' = '') @ pre"
  let ?q = "Look (Alt (Lit (nl @ conj)) Eos)"
  have 1: "hits (Lit (conj @ k @ '' = '')) (pre, conj @ k @ '' = '' @ v @ rest, Map.empty) (?p, v @ rest, Map.empty)"
    using hits_lit [of "conj @ k @ '' = ''" pre "v @ rest"] by simp
  have 2: "hits (Seq (Grp 1 (Rep False all_char)) ?q) (?p, v @ rest, Map.empty) (rev v @ ?p, rest, [1 \<mapsto> v])"
  proof (rule hits_lazy)
    fix a b and g :: groups
    assume v: "v = a @ b" "b \<noteq> []"
    have "\<not> prefix (nl @ conj) (b @ rest)"
    proof
      assume p: "prefix (nl @ conj) (b @ rest)"
      obtain x b2 where b: "b = x # b2" using v(2) by (cases b) auto
      show False
      proof (cases b2)
        case Nil
        with p b have "prefix conj rest" by simp
        with assms(2) show False by (cases rest) (auto simp: conj_def)
      next
        case (Cons y b3)
        show False
        proof (cases b3)
          case Nil
          with p b Cons assms(2) show False by (cases rest) (auto simp: conj_def)
        next
          case (Cons z b4)
          with p b \<open>b2 = y # b3\<close> have "z = cbs" by (simp add: conj_def)
          with v(1) b \<open>b2 = y # b3\<close> Cons assms(1) show False by simp
        qed
      qed
    qed
    moreover have "b @ rest \<noteq> []" using v(2) by simp
    ultimately show "mt ?q (rev a @ ?p, b @ rest, g) = []" by (simp del: append_is_Nil_conv)
  next
    show "hits ?q (rev v @ ?p, rest, [1 \<mapsto> v]) (rev v @ ?p, rest, [1 \<mapsto> v])"
      using assms(2) by (auto simp: hits_def)
  qed
  from hits_seq [OF 1 2] show ?thesis unfolding VAR_unfold by (intro exI conjI) (auto simp: conj_def)
qed

lemma var_reads:
  assumes "vars_ok kvs" "cbs \<notin> set h" "cbs \<notin> set after" "name_ok k" "kvs \<noteq> []"
  shows "var missing (body_text h kvs @ after) k = value_of missing kvs after k"
proof (cases "map_of kvs k")
  case None
  let ?c = "concat (map (\<lambda>kv. nl @ var_line kv) kvs)"
  have o: "list_all (\<lambda>(k', v). name_ok k' \<and> k' \<noteq> k \<and> cbs \<notin> set v) kvs"
    using assms(1) None by (auto simp: vars_ok_def list_all_iff List.member_iff map_of_eq_None_iff image_iff)
  have "after = [] \<or> hd after \<noteq> cbs" using assms(3) by (cases after) auto
  then have "mute (VAR k) ?c after" by (rule mute_lines [OF assms(4) o])
  moreover have "mute (VAR k) h (?c @ after)"
    by (rule mute_no_bs [OF assms(2)]) (use assms(5) in \<open>cases kvs; auto\<close>)
  moreover have "mute (VAR k) after []" by (rule mute_no_bs [OF assms(3)]) simp
  ultimately have m: "mute (VAR k) (body_text h kvs @ after) []" by (simp add: body_text_def mute_append)
  have "mt (VAR k) (pre, [], Map.empty) = []" for pre by (rule mt_VAR_none) (simp add: conj_def)
  from scan_mute_none [OF m this] have "re_search (VAR k) (body_text h kvs @ after) = None" by (simp add: re_search_def)
  then show ?thesis by (simp add: var_def value_of_def None)
next
  case (Some v)
  then obtain xs ys where kvs: "kvs = xs @ (k, v) # ys" using map_of_SomeD split_list by meson
  have d: "k \<notin> fst ` set xs" "k \<notin> fst ` set ys" using assms(1) by (auto simp: vars_ok_def kvs)
  have ok: "list_all (\<lambda>(k', v). name_ok k' \<and> cbs \<notin> set v) kvs" using assms(1) by (auto simp: vars_ok_def list_all_iff List.member_iff)
  let ?f = "\<lambda>xs. concat (map (\<lambda>kv. nl @ var_line kv) xs)"
  define w rest where "w = (if ys = [] then v @ after else v)" and "rest = (if ys = [] then [] else ?f ys @ after)"
  have tx: "body_text h kvs @ after = (h @ ?f xs @ nl) @ conj @ k @ '' = '' @ w @ rest"
    by (simp add: body_text_def kvs var_line_def w_def rest_def)
  have w: "cbs \<notin> set w" using ok assms(3) by (simp add: kvs w_def)
  have r: "rest = [] \<or> prefix (nl @ conj) rest" by (cases ys) (auto simp: rest_def var_line_def)
  let ?R = "conj @ k @ '' = '' @ w @ rest"
  have "mute (VAR k) h (?f xs @ nl @ ?R)" by (rule mute_no_bs [OF assms(2)]) (cases xs; auto)
  moreover have "mute (VAR k) (?f xs) (nl @ ?R)"
    by (rule mute_lines [OF assms(4)]) (use ok d(1) in \<open>auto simp: kvs list_all_iff image_iff\<close>)
  moreover have "mute (VAR k) nl ?R" by (rule mute_no_bs) (auto simp: conj_def)
  ultimately have m: "mute (VAR k) (h @ ?f xs @ nl) ?R" by (simp add: mute_append del: mute.simps)
  from hits_VAR [OF w r, of k "rev (h @ ?f xs @ nl)"] obtain t where
    t: "hits (VAR k) (rev (h @ ?f xs @ nl), ?R, Map.empty) t" "fst t \<noteq> rev (h @ ?f xs @ nl)" "snd (snd t) = [1 \<mapsto> w]" by blast
  from search_mute [OF m t(1,2)] have "var missing (body_text h kvs @ after) k = squeeze w"
    unfolding tx by (simp add: var_def mk_match_def group_str_def grp_def t(3))
  moreover have "k = fst (last kvs) \<longleftrightarrow> ys = []"
    using d(2) by (cases ys rule: rev_cases) (auto simp: kvs)
  ultimately show ?thesis by (simp add: value_of_def Some squeeze_tokens w_def)
qed

section \<open>Cutting a log into its states\<close>

text \<open>No line after the first begins like the line of a state.\<close>

fun still :: "string \<Rightarrow> bool" where
  "still (c # d # cs) = (\<not> (c = cnl \<and> d = CHR ''S'') \<and> still (d # cs))"
| "still _ = True"

lemma mt_STATE_none: "\<not> prefix (nl @ ''S'') rest \<Longrightarrow> mt STATE (pre, rest, g) = []"
  by (cases rest; cases "tl rest") (auto simp: STATE_def)

lemma mute_still: "still b \<Longrightarrow> rest = [] \<or> hd rest = cnl \<Longrightarrow> mute STATE b rest"
proof (induction b)
  case (Cons x b)
  have "\<not> prefix (nl @ ''S'') (x # b @ rest)" using Cons.prems by (cases b; cases rest) auto
  then have "\<forall>pre. mt STATE (pre, x # b @ rest, Map.empty) = []" by (blast intro: mt_STATE_none)
  moreover have "still b" using Cons.prems(1) by (cases b) auto
  ultimately show ?case using Cons by simp
qed simp

lemma hits_STATE:
  assumes "n \<noteq> []" "list_all is_digit n"
  shows "hits STATE (pre, state_mark n @ rest, Map.empty) (rev (state_mark n) @ pre, rest, [1 \<mapsto> n])"
proof -
  have colon: "\<not> is_digit CHR '':''" by (simp add: is_digit_def code_def)
  let ?p = "rev (nl @ ''State '') @ pre"
  have 1: "hits (Lit (nl @ ''State '')) (pre, state_mark n @ rest, Map.empty) (?p, n @ '': '' @ rest, Map.empty)"
    using hits_lit [of "nl @ ''State ''" pre "n @ '': '' @ rest"] by (simp add: state_mark_def)
  have "hits (Plus is_digit) (?p, n @ '': '' @ rest, Map.empty) (rev n @ ?p, '': '' @ rest, Map.empty)"
    by (rule hits_plus [OF assms(2,1)]) (simp add: colon)
  from hits_grp [OF this, of 1] have 2: "hits (Grp 1 (Plus is_digit)) (?p, n @ '': '' @ rest, Map.empty) (rev n @ ?p, '': '' @ rest, [1 \<mapsto> n])"
    by (simp only: span_append)
  have 3: "hits (Lit '': '') (rev n @ ?p, '': '' @ rest, [1 \<mapsto> n]) (rev '': '' @ rev n @ ?p, rest, [1 \<mapsto> n])" by (rule hits_lit)
  have "rev (state_mark n) @ pre = rev '': '' @ rev n @ ?p" by (simp add: state_mark_def)
  with hits_seq [OF 1 hits_seq [OF 2 3]] show ?thesis by (simp only: STATE_def seqs.simps)
qed

definition tstate_ok :: "string \<Rightarrow> tstate \<Rightarrow> bool" where
  "tstate_ok after s = (case s of (n, h, kvs) \<Rightarrow>
     n \<noteq> [] \<and> list_all is_digit n \<and> \<not> List.member h cnl \<and> \<not> List.member h cbs \<and> kvs \<noteq> [] \<and> vars_ok kvs \<and>
     still (body_text h kvs @ nl @ after) \<and> \<not> List.member after cbs)"

definition log_ok :: "string \<Rightarrow> tstate list \<Rightarrow> string \<Rightarrow> bool" where
  "log_ok before ss after = (whole before \<and> \<not> str_in MARK before \<and> ss \<noteq> [] \<and>
     list_all (tstate_ok []) (butlast ss) \<and> tstate_ok after (last ss))"

definition piece :: "string \<Rightarrow> tstate \<Rightarrow> string \<times> string" where
  "piece after s = (case s of (n, h, kvs) \<Rightarrow> (n, body_text h kvs @ nl @ after))"

lemma states_pieces:
  assumes "still p" "list_all (\<lambda>(n, b). n \<noteq> [] \<and> list_all is_digit n \<and> still b) ps"
  shows "states (p @ concat (map (\<lambda>(n, b). state_mark n @ b) ps)) = ps"
proof -
  let ?ps = "map (\<lambda>(n, b). (state_mark n, b)) ps"
  define G :: "string \<Rightarrow> groups" where "G s = [1 \<mapsto> take (length s - 9) (drop 7 s)]" for s
  have g: "G (state_mark n) = [1 \<mapsto> n]" for n by (simp add: G_def state_mark_def)
  have nlm: "state_mark n = cnl # tl (state_mark n)" for n by (simp add: state_mark_def)
  have glue: "glued (map (\<lambda>(n, b). (state_mark n, b)) xs) = concat (map (\<lambda>(n, b). state_mark n @ b) xs)" for xs :: "(string \<times> string) list"
    by (induction xs) (auto simp: glued_def)
  have start: "glued (map (\<lambda>(n, b). (state_mark n, b)) qs) = [] \<or> hd (glued (map (\<lambda>(n, b). (state_mark n, b)) qs)) = cnl" for qs :: "(string \<times> string) list"
    using nlm by (cases qs) (auto simp: state_mark_def)
  have "\<exists>ms. re_split STATE (p @ glued ?ps) = (p, ms) \<and> map (\<lambda>(m, t). (m_groups m, t)) ms = map (\<lambda>(s, q). (G s, q)) ?ps"
  proof (rule split_glued)
    show "mt STATE (pre, [], Map.empty) = []" for pre by (rule mt_STATE_none) simp
    show "mute STATE p (glued ?ps)" by (rule mute_still [OF assms(1) start])
    fix s q qs rs
    assume "?ps = rs @ (s, q) # qs"
    then obtain us vs n b where e: "ps = us @ (n, b) # vs" "s = state_mark n" "q = b" "qs = map (\<lambda>(n, b). (state_mark n, b)) vs"
      by (auto simp: map_eq_append_conv map_eq_Cons_conv)
    then have nb: "n \<noteq> []" "list_all is_digit n" "still b" using assms(2) by auto
    have "mute STATE q (glued qs)" unfolding e by (rule mute_still [OF nb(3) start])
    moreover have "hits STATE (pre, s @ q @ glued qs, Map.empty) (rev s @ pre, q @ glued qs, G s)" for pre
      unfolding e(2) g by (rule hits_STATE [OF nb(1,2)])
    ultimately show "s \<noteq> [] \<and> mute STATE q (glued qs) \<and>
      (\<forall>pre. hits STATE (pre, s @ q @ glued qs, Map.empty) (rev s @ pre, q @ glued qs, G s))"
      by (simp add: e(2) state_mark_def)
  qed
  then obtain ms where ms: "re_split STATE (p @ glued ?ps) = (p, ms)"
    "map (\<lambda>(m, t). (m_groups m, t)) ms = map (\<lambda>(s, q). (G s, q)) ?ps" by blast
  have gs: "map (\<lambda>(s, q). (G s, q)) ?ps = map (\<lambda>(n, b). ([1 \<mapsto> n] :: groups, b)) ps"
    by (simp add: g comp_def case_prod_beta)
  have "map (\<lambda>(m, t). (group_str m 1, t)) ms = map (\<lambda>(g, t). (case g 1 of None \<Rightarrow> [] | Some x \<Rightarrow> x, t)) (map (\<lambda>(m, t). (m_groups m, t)) ms)"
    by (simp add: group_str_def grp_def case_prod_beta comp_def)
  also have "\<dots> = ps" unfolding ms(2) gs by (simp add: case_prod_beta comp_def)
  finally show ?thesis using ms(1) by (simp add: states_def glue)
qed

lemma MARK_facts: "cnl \<notin> set MARK" "MARK \<noteq> []" "still MARK"
  by code_simp+

lemma log_trace:
  assumes "log_ok before ss after"
  shows "str_in MARK (tlc_log before ss after)" "place MARK (tlc_log before ss after) = length before"
    "states (drop (length before) (tlc_log before ss after)) = map (piece []) (butlast ss) @ [piece after (last ss)]"
proof -
  have ok: "whole before" "\<not> str_in MARK before" "ss \<noteq> []" "list_all (tstate_ok []) (butlast ss)" "tstate_ok after (last ss)"
    using assms by (simp_all add: log_ok_def)
  show "str_in MARK (tlc_log before ss after)" unfolding tlc_log_def str_in_iff by blast
  show "place MARK (tlc_log before ss after) = length before"
    using find_whole [OF ok(1) MARK_facts(1) ok(2)] MARK_facts(2) by (simp add: place_def tlc_log_def)
  let ?ps = "map (piece []) (butlast ss) @ [piece after (last ss)]"
  have "concat (map (\<lambda>(n, h, kvs). state_mark n @ body_text h kvs @ nl) ss) @ after =
    concat (map (\<lambda>(n, b). state_mark n @ b) (map (piece []) (butlast ss) @ [piece after (last ss)]))"
  proof -
    have "concat (map (\<lambda>(n, h, kvs). state_mark n @ body_text h kvs @ nl) xs) =
      concat (map (\<lambda>(n, b). state_mark n @ b) (map (piece []) xs))" for xs
      by (induction xs) (auto simp: piece_def)
    from this [of "butlast ss"] have "concat (map (\<lambda>(n, h, kvs). state_mark n @ body_text h kvs @ nl) (butlast ss @ [last ss])) @ after =
      concat (map (\<lambda>(n, b). state_mark n @ b) ?ps)"
      by (cases "last ss") (simp add: piece_def del: append_butlast_last_id)
    then show ?thesis using ok(3) by simp
  qed
  then have "drop (length before) (tlc_log before ss after) = MARK @ concat (map (\<lambda>(n, b). state_mark n @ b) ?ps)"
    by (simp add: tlc_log_def)
  moreover have "list_all (\<lambda>(n, b). n \<noteq> [] \<and> list_all is_digit n \<and> still b) ?ps"
    using ok(4,5) by (auto simp: list_all_iff tstate_ok_def piece_def)
  ultimately show "states (drop (length before) (tlc_log before ss after)) = ?ps"
    using states_pieces [OF MARK_facts(3), of ?ps] by (simp only:)
qed

section \<open>The contract of a printer\<close>

text \<open>What a script prints for the states of a log\<close>

definition shown :: "string \<Rightarrow> 'a printer \<Rightarrow> string \<Rightarrow> tstate \<Rightarrow> 'a" where
  "shown missing pr after s = (case s of (n, h, kvs) \<Rightarrow> pr n (strip h) (value_of missing kvs (nl @ after)))"

definition shown_all :: "string \<Rightarrow> 'a printer \<Rightarrow> tstate list \<Rightarrow> string \<Rightarrow> 'a list" where
  "shown_all missing pr ss after = map (shown missing pr []) (butlast ss) @ [shown missing pr after (last ss)]"

lemma head_body: "cnl \<notin> set h \<Longrightarrow> kvs \<noteq> [] \<Longrightarrow> head_of (body_text h kvs @ s) = strip h"
  using split_on_append [of cnl h] by (cases kvs) (simp_all add: head_of_def body_text_def)

text \<open>A printer asks for variables by their names; then what it prints for a log is what it prints for the
  states in it.\<close>

locale shower =
  fixes missing :: string and pr :: "'a printer"
  assumes names: "(\<And>k. name_ok k \<Longrightarrow> f k = g k) \<Longrightarrow> pr n h f = pr n h g"
begin

lemma shown_body:
  assumes "tstate_ok after (n, h, kvs)"
  shows "pr n (head_of (body_text h kvs @ nl @ after)) (var missing (body_text h kvs @ nl @ after)) = shown missing pr after (n, h, kvs)"
proof -
  from assms have ok: "cnl \<notin> set h" "cbs \<notin> set h" "kvs \<noteq> []" "vars_ok kvs" "cbs \<notin> set after"
    by (simp_all add: tstate_ok_def List.member_iff)
  then have "cbs \<notin> set (nl @ after)" by simp
  from var_reads [OF ok(4,2) this _ ok(3)] show ?thesis
    unfolding shown_def prod.case head_body [OF ok(1,3)] by (intro names) simp
qed

lemma states_shown:
  assumes "log_ok before ss after"
  shows "each_state missing pr (drop (length before) (tlc_log before ss after)) = shown_all missing pr ss after"
proof -
  have one: "(case piece after s of (n, body) \<Rightarrow> pr n (head_of body) (var missing body)) = shown missing pr after s"
    if "tstate_ok after s" for after s
  proof -
    obtain n h kvs where s: "s = (n, h, kvs)" by (cases s)
    show ?thesis using shown_body [OF that [unfolded s]] by (simp add: s piece_def)
  qed
  have ok: "list_all (tstate_ok []) (butlast ss)" "tstate_ok after (last ss)" using assms by (simp_all add: log_ok_def)
  have "map (\<lambda>(n, body). pr n (head_of body) (var missing body)) (map (piece []) (butlast ss)) = map (shown missing pr []) (butlast ss)"
    using ok(1) one [of "[]"] by (auto simp: list_all_iff)
  with one [OF ok(2)] show ?thesis
    unfolding each_state_def log_trace(3) [OF assms] shown_all_def by (simp only: map_append list.map)
qed

end

lemma log_found:
  assumes "log_ok before ss after"
  shows "show_log limit (MARK # marks) rest (tlc_log before ss after) =
    reason MARK (tlc_log before ss after) # rest (drop (length before) (tlc_log before ss after))"
  using log_trace(1,2) [OF assms] by (simp add: show_log_def)

end
