(* ===== verification/Show_Scripts.thy ===== *)
theory Show_Scripts
  imports Show_Base Tlc_Cfg Py_Out
begin

text \<open>
  The \<^verbatim>\<open>show-*-trace.py\<close> of the kernel models, one after the other: what each prints for a state, from
  the number of the state, its first line and the values of its variables, and the script around it.
\<close>

section \<open>Shared\<close>

definition MARKS :: "string list" where
  "MARKS = [MARK, LASSO_MARK]"

text \<open>The fields of an f-string: a text and the value of a variable or a field behind it\<close>

definition vals :: "(string \<Rightarrow> string) \<Rightarrow> (string \<times> string) list \<Rightarrow> string" where
  "vals get fs = concat (map (\<lambda>(lit, k). lit @ get k) fs)"

definition BACK :: rx where
  "BACK = seqs [Lit ''Back to state '', Grp 1 (Plus is_digit)]"

definition back_lines :: "string \<Rightarrow> string list" where
  "back_lines trace = (case re_search BACK trace of
     None \<Rightarrow> [] | Some m \<Rightarrow> [''... back to state '' @ group_str m 1 @ '' (stuttering/lasso)''])"

section \<open>MountWalk\<close>

definition walk_field :: "string \<Rightarrow> string \<Rightarrow> string" where
  "walk_field = field_by (Alt braced (Alt in_dquotes (Alt bracketed bare)))"

definition MOUNTED :: rx where
  "MOUNTED = seqs [Grp 1 (Plus is_word), Lit '' :> TRUE'']"

text \<open>The state's fields of the second and third line and those of a mount differ between the copies.\<close>

definition walk_mount :: "(string \<times> string) list \<Rightarrow> string \<times> string \<Rightarrow> string list" where
  "walk_mount fs = (\<lambda>(i, rec). let f = walk_field rec in
     if f ''alive'' = ''TRUE'' \<or> f ''freed'' = ''TRUE'' then
       [''    m'' @ i @ '':'' @ vals f fs @ '' ['' @ letters f [(''H'', ''hashed''), (''N'', ''ns''), (''F'', ''freed'')] @ '']'']
     else [])"

definition walk_state_with :: "(string \<times> string) list \<Rightarrow> (string \<times> string) list \<Rightarrow> string list printer" where
  "walk_state_with last_fs mount_fs n h get =
     [''--- '' @ n @ '' '' @ act_of h @ vals get [(''  seq='', ''seqv''), ('' pc='', ''pc'')],
      vals get [(''    mode='', ''mode''), ('' path='', ''path''), ('' nxt='', ''nxt''), ('' ip='', ''ip''), ('' mseq='', ''mseq''), ('' restarts='', ''restarts'')],
      vals get last_fs]
     @ concat (map (walk_mount mount_fs) (numbered (recs (get ''mnt''))))
     @ (let on = re_findall1 MOUNTED (get ''mounted'') in if on \<noteq> [] then [''    mounted='' @ repr_strs on] else [])"

definition walk_last :: "(string \<times> string) list" where
  "walk_last = [(''    res='', ''res''), ('' held='', ''held''), ('' rcu='', ''rcu''), ('' gp='', ''gp''), ('' tgt='', ''tgt''), ('' ctgt='', ''ctgt''), ('' victim='', ''victim'')]"

definition walk_state :: "string list printer" where
  "walk_state = walk_state_with walk_last
     [('' parent='', ''parent''), ('' mp='', ''mp''), ('' root='', ''root''), ('' count='', ''count'')]"

definition show_walk :: "string \<Rightarrow> string list" where
  "show_walk log = show_log 1500 MARKS (show_states ''?'' walk_state) log"

definition walk4_state :: "string list printer" where
  "walk4_state = walk_state_with (walk_last @ [('' hist='', ''hist'')])
     [('' parent='', ''parent''), ('' mp='', ''mp''), ('' root='', ''root''), ('' sb='', ''sb''), ('' count='', ''count'')]"

definition show_walk4 :: "string \<Rightarrow> string list" where
  "show_walk4 log = show_log 1500 MARKS (show_states ''?'' walk4_state) log"

definition show_walk7 :: "string \<Rightarrow> string list" where
  "show_walk7 = show_walk4"

section \<open>LockMount\<close>

definition lock_field :: "string \<Rightarrow> string \<Rightarrow> string" where
  "lock_field = field_by (Alt braced (Alt in_dquotes bare))"

definition lock_mount :: "string \<times> string \<Rightarrow> string list" where
  "lock_mount = (\<lambda>(i, rec). let f = lock_field rec in
     if f ''alive'' = ''TRUE'' \<or> f ''freed'' = ''TRUE'' then
       [''    m'' @ i @ '':'' @ vals f [('' parent='', ''parent''), ('' mp='', ''mp''), ('' ns='', ''ns''), ('' count='', ''count'')] @
        '' ['' @ letters f [(''H'', ''hashed''), (''U'', ''umount''), (''F'', ''freed'')] @ '']'']
     else [])"

definition lock_dentry :: "string \<times> string \<Rightarrow> string list" where
  "lock_dentry = (\<lambda>(d, rec). let f = lock_field rec;
       fl = letters f [(''u'', ''unhashed''), (''M'', ''mounted''), (''c'', ''cant''), (''P'', ''mp'')] in
     if fl \<noteq> [] \<or> f ''pins'' \<noteq> ''{}'' then [''    d:'' @ d @ '' ['' @ fl @ ''] pins='' @ f ''pins''] else [])"

definition lock_state :: "string list printer" where
  "lock_state n h get =
     [''--- '' @ n @ '' '' @ act_of h,
      vals get [(''    pc='', ''pc''), ('' nsem='', ''nsem''), ('' ilock='', ''ilock''), ('' err='', ''err''), ('' budget='', ''budget''),
        ('' loops='', ''loops''), ('' tmp='', ''tmp''), ('' wm='', ''wm''), ('' todo='', ''todo''), ('' bad='', ''bad'')]]
     @ concat (map lock_mount (numbered (recs (get ''mnt''))))
     @ concat (map lock_dentry (entries (get ''den'')))"

definition lasso :: "string \<Rightarrow> string list result" where
  "lasso trace = (if str_in ''Back to state'' trace then
       (case re_search BACK trace of
          None \<Rightarrow> Inl (AttributeError ''group'')
        | Some m \<Rightarrow> Inr [''... lasso: '' @ group_str m 1])
     else Inr [])"

definition show_lock :: "string \<Rightarrow> string list ran" where
  "show_lock log = (case List.find (\<lambda>mk. str_in mk log) MARKS of
     None \<Rightarrow> (no_trace 1500 log, None)
   | Some mark \<Rightarrow> (let trace = drop (place mark log) log in
       say_then (reason mark log # show_states ''?'' lock_state trace, None) (say_result (lasso trace))))"

section \<open>MntPut\<close>

definition mnt_flags :: "string \<Rightarrow> string" where
  "mnt_flags rec = concat (map fst (filter (\<lambda>(c, k). str_in (k @ '' |-> TRUE'') rec)
     [(''H'', ''hashed''), (''N'', ''ns''), (''U'', ''umount''), (''S'', ''sync''), (''D'', ''doomed''), (''F'', ''freed'')]))"

definition BUFFERED :: rx where
  "BUFFERED = seqs [Lit (''[f |-> '' @ dq), Grp 1 (Plus is_word), Lit dq,
     Opt (seqs [Lit '', c |-> '', Grp 2 (Plus is_digit)]), Lit '', '', Alt (Lit ''d'') (Lit ''v''), Lit '' |-> '',
     Grp 3 (Plus (none_of '']'')), Lit '']'']"

definition short :: "string \<Rightarrow> string" where
  "short rec = re_sub BUFFERED (\<lambda>m. group_str m 1 @
     (if group_str m 2 \<noteq> [] then ''['' @ group_str m 2 @ '']'' else []) @ ''='' @ group_str m 3) rec"

text \<open>\<^verbatim>\<open>b.replace(' ', '').strip('[]').split('|->')[-1]\<close>\<close>

definition last_value :: "string \<Rightarrow> string" where
  "last_value b = (let s = strip_by (one_of ''[]'') (filter (\<lambda>c. c \<noteq> CHR '' '') b) in
     case after_last ''|->'' s of None \<Rightarrow> s | Some t \<Rightarrow> t)"

definition put_state :: "string list printer" where
  "put_state n h get =
     (rjust 3 n @ '' '' @ ljust 22 (act_of h) @ vals get [('' pc='', ''pc''), ('' seq='', ''seqv''), ('' cnt='', ''cntv''), ('' lock='', ''lockv'')] @
      '' m=['' @ mnt_flags (get ''m'') @ '']'' @
      vals get [('' rcu='', ''rcu''), ('' refs='', ''refs''), ('' nsref='', ''nsref''), ('' acc='', ''acc''), ('' ci='', ''ci''), ('' gp='', ''gp''),
        ('' gpfree='', ''gpfree''), ('' res='', ''uresult''), ('' cleaner='', ''cleaner'')])
     # (let b = short (get ''buf'') in
        if b \<noteq> [] \<and> b \<noteq> ''?'' \<and> last_value b \<noteq> ''<<>>'' then [''      buf='' @ b] else [])"

definition show_put :: "string \<Rightarrow> string list" where
  "show_put log = show_log 1500 MARKS (\<lambda>trace. show_states ''?'' put_state trace @ back_lines trace) log"

definition show_put_ondemand :: "string \<Rightarrow> string list" where
  "show_put_ondemand = show_put"

section \<open>MntVacant\<close>

definition TAIL :: rx where
  "TAIL = seqs [Lit nl, Plus is_digit, Lit '' states generated'']"

definition cut_tail :: "string \<Rightarrow> string" where
  "cut_tail trace = (case re_search TAIL trace of None \<Rightarrow> trace | Some m \<Rightarrow> m_pre m)"

definition RECORD :: rx where
  "RECORD = seqs [Lit ''['', Grp 1 (Rep False any_char), Lit '']'',
     Look (Alt (Lit '', ['') (Alt (seqs [Opt (Lit '' ''), Lit ''>>'']) Eol))]"

definition PAIR :: rx where
  "PAIR = seqs [Grp 1 (Plus is_word), Lit '' |-> '', Grp 2 (seqs [Plus (none_of '',]''), Opt braced])]"

definition PLAIN_PAIR :: rx where
  "PLAIN_PAIR = seqs [Grp 1 (Plus is_word), Lit '' |-> '', Grp 2 (Plus (none_of '',]''))]"

definition WARN :: rx where
  "WARN = seqs [Lit ''warn |-> '', Grp 1 braced]"

definition dict_of :: "rx \<Rightarrow> string \<Rightarrow> (string, string) dict" where
  "dict_of r s = dmerge [] (re_findall2 r s)"

definition vacant_mount :: "string \<times> string \<Rightarrow> string" where
  "vacant_mount = (\<lambda>(i, rec). let f = dict_of PAIR rec; get = get_or f;
       flags = concat (map fst (filter (\<lambda>(c, k). map_of f k = Some ''TRUE'')
         [(''H'', ''hashed''), (''D'', ''doomed''), (''V'', ''vacant''), (''O'', ''oldroot''), (''F'', ''freed''), (''R'', ''rcufree''), (''M'', ''mpgone'')]))
         @ (if map_of f ''mark'' = Some ''TRUE'' then ''K'' else []) in
     i @ '':'' @ get ''count'' ''?'' @ flags @ ''/'' @ strip_by (\<lambda>c. c = cdq) (get ''inst'' ''?'') @ ''p'' @ get ''parent'' ''?''
     @ (case map_of f ''stuck'' of None \<Rightarrow> [] | Some s \<Rightarrow> if s \<noteq> ''{}'' then ''s'' @ s else []))"

definition vacant_mounts :: "string \<Rightarrow> string" where
  "vacant_mounts txt = join '' '' (map vacant_mount (numbered (re_findall1 RECORD txt)))"

definition vacant_state :: "string list printer" where
  "vacant_state n h get = (let hist = get ''hist''; hd = dict_of PLAIN_PAIR hist in
     [rjust 3 n @ '' '' @ ljust 11 (strip_by (one_of ''<>'') (act_of h)) @ '' '' @ vacant_mounts (get ''mt'') @ '' |'' @
      vals get [('' U='', ''upc''), ([], ''uhead''), ('' ext='', ''ext''), ('' W='', ''wpc''), (''/'', ''wres''), ('' D='', ''dpc''), ([], ''dhead''),
        ('' tw='', ''tw''), ('' pins='', ''pins''), ('' owed='', ''vq''), ('' sb='', ''sbact''), ('' watched='', ''watched'')] @
      '' vac='' @ get_or hd ''vacates'' ''None'' @
      '' warn='' @ (case re_search WARN hist of None \<Rightarrow> ''?'' | Some m \<Rightarrow> group_str m 1)])"

definition show_vacant :: "string \<Rightarrow> string list" where
  "show_vacant log = show_log 1500 MARKS (\<lambda>trace. show_states ''?'' vacant_state (cut_tail trace)) log"

definition show_vacant7 :: "string \<Rightarrow> string list" where
  "show_vacant7 = show_vacant"

section \<open>MountOps: the trees\<close>

definition tree_field :: "string \<Rightarrow> string \<Rightarrow> string" where
  "tree_field = field_by (Alt angled (Alt braced (Alt bracketed bare)))"

definition TREE_FLAGS :: "string list" where
  "TREE_FLAGS = [''tucked'', ''locktransfer'', ''reparented'', ''slaveofslave'', ''skippedmaster'',
     ''lockedkept'', ''connected'', ''syncbusy'', ''putns'', ''expired'', ''trimmed'']"

definition tree_mount :: "string \<times> string \<Rightarrow> string list" where
  "tree_mount = (\<lambda>(i, rec). let f = tree_field rec in
     if f ''alive'' \<noteq> ''TRUE'' then []
     else [''  m'' @ i @ '':'' @ vals f [('' '', ''sb''), ('':'', ''root''), ('' parent='', ''parent''), (''@'', ''mp''), ('' ns='', ''ns''), ('' gid='', ''gid''),
         ('' master='', ''master''), ('' npeer='', ''npeer''), ('' slaves='', ''slaves''), ('' over='', ''over''), ('' kids='', ''children'')] @
       '' ['' @ letters f [(''S'', ''shared''), (''U'', ''unbind''), (''L'', ''locked''), (''X'', ''umount''), (''H'', ''hashed''), (''A'', ''attached''),
         (''E'', ''onexp''), (''e'', ''expmark''), (''k'', ''shrink''), (''M'', ''marked''), (''C'', ''cand'')] @ '']''])"

definition tree_ns :: "string \<times> string \<Rightarrow> string list" where
  "tree_ns = (\<lambda>(i, rec). let f = tree_field rec in
     if f ''alive'' = ''TRUE'' then
       [''  ns'' @ i @ '':'' @ vals f [('' root='', ''root''), ('' user='', ''user''), ('' anon='', ''anon''), ('' origin='', ''origin'')]]
     else [])"

definition tree_proc :: "string \<times> string \<Rightarrow> string" where
  "tree_proc = (\<lambda>(p, rec). ''  '' @ p @ '':'' @
     vals (tree_field rec) [('' ns='', ''ns''), ('' root='', ''root''), ('' cwd='', ''cwd''), ('' fds='', ''fds''), ('' nsfds='', ''nsfds'')])"

definition unless_empty :: "string \<Rightarrow> string \<Rightarrow> string list" where
  "unless_empty lit v = (if v \<noteq> [] \<and> v \<noteq> ''{}'' then [lit @ v] else [])"

definition tree_state :: "string list printer" where
  "tree_state n h get = (let hist = get ''hist'' in
     [nl @ ''=== State '' @ n @ '': '' @ h @ ''  ['' @ tree_field hist ''kind'' @ '' '' @
        join '' '' (filter (\<lambda>k. tree_field hist k = ''TRUE'') TREE_FLAGS) @ '']'' @ vals get [(''  ok='', ''ok''), ('' ops='', ''ops'')]]
     @ concat (map tree_mount (numbered (recs (get ''mt''))))
     @ concat (map tree_ns (numbered (recs (get ''nst''))))
     @ map tree_proc (entries (get ''pr''))
     @ unless_empty ''  covers: '' (get ''covers'')
     @ unless_empty ''  dead dentries: '' (get ''ddead''))"

definition show_tree :: "string \<Rightarrow> string list" where
  "show_tree log =
     (if \<not> str_in MARK log then no_trace 2000 log
      else reason ''Error: The behavior'' log # show_states [] tree_state (drop (place MARK log) log))"

definition show_tree7 :: "string \<Rightarrow> string list" where
  "show_tree7 = show_tree"

section \<open>MntPut with two mounts\<close>

definition PER_MOUNT :: rx where
  "PER_MOUNT = seqs [WordB, Grp 1 (Cls (one_of ''AB'')), Lit '' |-> '',
     Grp 2 (Alt (seqs [Lit ''['', Star (none_of ''[]''), Lit '']'']) angled)]"

definition per_mount :: "string \<Rightarrow> (string, string) dict" where
  "per_mount txt = dmerge [] (map (\<lambda>(k, v). (k, strip v)) (re_findall2 PER_MOUNT txt))"

definition counters :: "string \<Rightarrow> string" where
  "counters rec = strip_by (one_of ''<>'') (filter (\<lambda>c. \<not> is_space c) rec)"

definition STORED :: rx where
  "STORED = seqs [Grp 1 (Plus is_word), Lit '' |-> '', Grp 2 (seqs [Opt (Lit dq), Opt (Lit ''-''), Plus is_word, Opt (Lit dq)])]"

definition unquote :: "string \<Rightarrow> string" where
  "unquote s = strip_by (\<lambda>c. c = cdq) s"

definition store :: "string \<Rightarrow> string result" where
  "store rec = (let f = dict_of STORED rec; k = unquote (get_or f ''f'' ''?'') in
     if k = ''cnt'' then
       bindE (item f ''x'') (\<lambda>x. bindE (item f ''c'') (\<lambda>c. bindE (item f ''d'') (\<lambda>d.
         Inr (''cnt'' @ unquote x @ ''['' @ c @ '']'' @ (if \<not> startswith d ''-'' then ''+'' else []) @ d))))
     else if k \<in> set [''hashed'', ''ns''] then
       bindE (item f ''x'') (\<lambda>x. bindE (item f ''v'') (\<lambda>v. Inr (k @ unquote x @ ''='' @ v)))
     else if k \<in> set [''seq'', ''lock''] then
       bindE (item f ''v'') (\<lambda>v. Inr (k @ ''='' @ unquote v))
     else Inr k)"

definition FLAT_RECORD :: rx where
  "FLAT_RECORD = seqs [Lit ''['', Star (none_of ''[]''), Lit '']'']"

definition short_buf :: "string \<Rightarrow> string result" where
  "short_buf txt = bindE (re_subE FLAT_RECORD (\<lambda>m. store (m_text m)) txt) (\<lambda>t. Inr (re_sub re_blank (\<lambda>_. '' '') t))"

definition NONEMPTY :: rx where
  "NONEMPTY = seqs [Lit ''<<'', Cls (none_of ''>'')]"

definition put2_state :: "string list ran printer" where
  "put2_state n h get =
     (let ms = per_mount (get ''m''); cn = per_mount (get ''cntv''); pu = per_mount (get ''putv'');
          mounts = join '' '' (map (\<lambda>x. x @ ''['' @ mnt_flags (get_or ms x []) @ ''] cnt='' @ counters (get_or cn x ''?'') @
            '' puts='' @ counters (get_or pu x ''?'')) [''A'', ''B'']) in
      say_then
        ([rjust 3 n @ '' '' @ ljust 16 (act_of h) @ vals get [('' pc='', ''pc''), ('' seq='', ''seqv''), ('' lock='', ''lockv'')],
          ''      '' @ mounts @ '' own='' @ get ''own'',
          vals get [(''      um='', ''um''), ('' ownput='', ''ownput''), ('' bi='', ''bi''), ('' head='', ''head''), ('' held='', ''held''),
            ('' fin='', ''fin''), ('' synced='', ''synced''), ('' res='', ''uresult'')],
          vals get [(''      refs='', ''refs''), ('' rcu='', ''rcu''), ('' gp='', ''gp''), ('' gpfree='', ''gpfree''), ('' acc='', ''acc''), ('' ci='', ''ci''),
            ('' cleaner='', ''cleaner'')]], None)
        (say_with (short_buf (get ''buf'')) (\<lambda>b.
          (case re_search NONEMPTY b of None \<Rightarrow> [] | Some _ \<Rightarrow> [''      buf='' @ b], None))))"

definition show_put2 :: "string \<Rightarrow> string list ran" where
  "show_put2 log = (case List.find (\<lambda>mk. str_in mk log) MARKS of
     None \<Rightarrow> (no_trace 1500 log, None)
   | Some mark \<Rightarrow> (let trace = drop (place mark log) log in
       say_all ([([reason mark log], None)] @ each_state ''?'' put2_state trace @ [(back_lines trace, None)])))"

end
