(* ===== verification/Show_Props.thy ===== *)
theory Show_Props
  imports Show_Scripts
begin

text \<open>
  The scripts print what TLC printed: each printer keeps the contract of \<open>shower\<close>, so that a log of TLC
  is read as its states and the values of their variables.
\<close>

section \<open>The printers ask for variables by name\<close>

definition WALK_VARS :: "string list" where
  "WALK_VARS = [''seqv'', ''pc'', ''mode'', ''path'', ''nxt'', ''ip'', ''mseq'', ''restarts'', ''res'', ''held'', ''rcu'', ''gp'', ''tgt'',
     ''ctgt'', ''victim'', ''hist'', ''mnt'', ''mounted'']"

definition LOCK_VARS :: "string list" where
  "LOCK_VARS = [''pc'', ''nsem'', ''ilock'', ''err'', ''budget'', ''loops'', ''tmp'', ''wm'', ''todo'', ''bad'', ''mnt'', ''den'']"

definition PUT_VARS :: "string list" where
  "PUT_VARS = [''pc'', ''seqv'', ''cntv'', ''putv'', ''lockv'', ''m'', ''own'', ''um'', ''ownput'', ''bi'', ''head'', ''held'', ''fin'', ''synced'',
     ''rcu'', ''refs'', ''nsref'', ''acc'', ''ci'', ''gp'', ''gpfree'', ''uresult'', ''cleaner'', ''buf'']"

definition VACANT_VARS :: "string list" where
  "VACANT_VARS = [''mt'', ''upc'', ''uhead'', ''ext'', ''wpc'', ''wres'', ''dpc'', ''dhead'', ''tw'', ''pins'', ''vq'', ''sbact'', ''watched'', ''hist'']"

definition TREE_VARS :: "string list" where
  "TREE_VARS = [''hist'', ''ok'', ''ops'', ''mt'', ''nst'', ''pr'', ''covers'', ''ddead'']"

lemma names_ok:
  "list_all name_ok WALK_VARS" "list_all name_ok LOCK_VARS" "list_all name_ok PUT_VARS" "list_all name_ok VACANT_VARS"
  "list_all name_ok TREE_VARS"
  by code_simp+

lemma agree: "(\<And>k. name_ok k \<Longrightarrow> f k = g k) \<Longrightarrow> list_all name_ok ks \<Longrightarrow> \<forall>k\<in>set ks. f k = g k"
  by (auto simp: list_all_iff)

interpretation walk: shower "''?''" walk_state
proof
  fix f g :: "string \<Rightarrow> string" and n h
  assume "\<And>k. name_ok k \<Longrightarrow> f k = g k"
  from agree [of f g, OF this names_ok(1)] show "walk_state n h f = walk_state n h g"
    by (simp add: WALK_VARS_def walk_state_def walk_state_with_def walk_last_def vals_def)
qed

interpretation walk4: shower "''?''" walk4_state
proof
  fix f g :: "string \<Rightarrow> string" and n h
  assume "\<And>k. name_ok k \<Longrightarrow> f k = g k"
  from agree [of f g, OF this names_ok(1)] show "walk4_state n h f = walk4_state n h g"
    by (simp add: WALK_VARS_def walk4_state_def walk_state_with_def walk_last_def vals_def)
qed

interpretation lock: shower "''?''" lock_state
proof
  fix f g :: "string \<Rightarrow> string" and n h
  assume "\<And>k. name_ok k \<Longrightarrow> f k = g k"
  from agree [of f g, OF this names_ok(2)] show "lock_state n h f = lock_state n h g"
    by (simp add: LOCK_VARS_def lock_state_def vals_def)
qed

interpretation put: shower "''?''" put_state
proof
  fix f g :: "string \<Rightarrow> string" and n h
  assume "\<And>k. name_ok k \<Longrightarrow> f k = g k"
  from agree [of f g, OF this names_ok(3)] show "put_state n h f = put_state n h g"
    by (simp add: PUT_VARS_def put_state_def vals_def)
qed

interpretation put2: shower "''?''" put2_state
proof
  fix f g :: "string \<Rightarrow> string" and n h
  assume "\<And>k. name_ok k \<Longrightarrow> f k = g k"
  from agree [of f g, OF this names_ok(3)] show "put2_state n h f = put2_state n h g"
    by (simp add: PUT_VARS_def put2_state_def vals_def)
qed

interpretation vacant: shower "''?''" vacant_state
proof
  fix f g :: "string \<Rightarrow> string" and n h
  assume "\<And>k. name_ok k \<Longrightarrow> f k = g k"
  from agree [of f g, OF this names_ok(4)] show "vacant_state n h f = vacant_state n h g"
    by (simp add: VACANT_VARS_def vacant_state_def vals_def)
qed

interpretation tree: shower "[]" tree_state
proof
  fix f g :: "string \<Rightarrow> string" and n h
  assume "\<And>k. name_ok k \<Longrightarrow> f k = g k"
  from agree [of f g, OF this names_ok(5)] show "tree_state n h f = tree_state n h g"
    by (simp add: TREE_VARS_def tree_state_def vals_def)
qed

section \<open>The scripts\<close>

definition trace_text :: "tstate list \<Rightarrow> string \<Rightarrow> string" where
  "trace_text ss after = MARK @ concat (map (\<lambda>(n, h, kvs). state_mark n @ body_text h kvs @ nl) ss) @ after"

lemma log_trace_text: "drop (length before) (tlc_log before ss after) = trace_text ss after"
  by (simp add: tlc_log_def trace_text_def)

lemma find_mark: "log_ok before ss after \<Longrightarrow> List.find (\<lambda>mk. str_in mk (tlc_log before ss after)) MARKS = Some MARK"
  using log_trace(1) by (simp add: MARKS_def)

text \<open>
  C32: On a log of TLC the scripts print the reason and then, for every state, what its number, its
  first line and the values of its variables say, whitespace collapsed. Only the last variable of the last
  state is not its value: everything that TLC printed behind the trace goes with it. Where a script raises an
  exception, the lines before it are printed.\<close>

theorem show_prints:
  assumes "log_ok before ss after"
  shows "show_walk (tlc_log before ss after) = reason MARK (tlc_log before ss after) # concat (shown_all ''?'' walk_state ss after) \<and>
    show_walk4 (tlc_log before ss after) = reason MARK (tlc_log before ss after) # concat (shown_all ''?'' walk4_state ss after) \<and>
    show_put (tlc_log before ss after) = reason MARK (tlc_log before ss after) # concat (shown_all ''?'' put_state ss after)
      @ back_lines (trace_text ss after) \<and>
    show_tree (tlc_log before ss after) = reason ''Error: The behavior'' (tlc_log before ss after) # concat (shown_all [] tree_state ss after) \<and>
    show_lock (tlc_log before ss after) = say_then
      (reason MARK (tlc_log before ss after) # concat (shown_all ''?'' lock_state ss after), None) (say_result (lasso (trace_text ss after))) \<and>
    show_put2 (tlc_log before ss after) = say_then ([reason MARK (tlc_log before ss after)], None)
      (say_then (say_all (shown_all ''?'' put2_state ss after)) (back_lines (trace_text ss after), None))"
  using log_trace(1,2) [OF assms] log_found [OF assms] find_mark [OF assms] walk.states_shown [OF assms] walk4.states_shown [OF assms]
    put.states_shown [OF assms] tree.states_shown [OF assms] lock.states_shown [OF assms] put2.states_shown [OF assms]
  by (simp add: show_walk_def show_walk4_def show_put_def show_tree_def show_lock_def show_put2_def MARKS_def show_states_def
      log_trace_text say_all_append)

definition two_states :: "tstate list" where
  "two_states =
     [(''1'', ''<Initial predicate>'', [(''pc'', ''[U |-> '' @ dq @ ''u_lock'' @ dq @ '']''), (''m'', ''[ A |-> [hashed |-> TRUE, ns |-> FALSE],'' @ nl @ ''  B |-> [hashed |-> FALSE, ns |-> TRUE] ]''),
        (''buf'', ''<<>>''), (''rcu'', ''[U |-> FALSE]'')]),
      (''2'', ''<TaskStep line 10, col 3 to line 20, col 5 of module MntPut>'', [(''pc'', ''[U |-> '' @ dq @ ''u_tree'' @ dq @ '']''), (''m'', ''<<>>''),
        (''buf'', ''<<[f |-> '' @ dq @ ''seq'' @ dq @ '', v |-> 1]>>''), (''rcu'', ''[U |-> TRUE]'')])]"

definition BEFORE :: string where
  "BEFORE = ''TLC2 Version 2.18'' @ nl @ ''Error: Invariant NoUAF is violated.'' @ nl"

definition AFTER :: string where
  "AFTER = nl @ ''12 states generated, 7 distinct states found.'' @ nl"

text \<open>The last line but one of the second state has the end of TLC's output in it.\<close>

theorem show_prints_witness:
  "show_put2 (tlc_log BEFORE two_states AFTER) = ([''Error: Invariant NoUAF is violated.'',
     concat [''  1 <Initial predicate> pc=[U |-> '', dq, ''u_lock'', dq, ''] seq=? lock=?''],
     ''      A[H] cnt=? puts=? B[N] cnt=? puts=? own=?'',
     ''      um=? ownput=? bi=? head=? held=? fin=? synced=? res=?'',
     ''      refs=? rcu=[U |-> FALSE] gp=? gpfree=? acc=? ci=? cleaner=?'',
     concat [''  2 <TaskStep>       pc=[U |-> '', dq, ''u_tree'', dq, ''] seq=? lock=?''],
     ''      A[] cnt=? puts=? B[] cnt=? puts=? own=?'',
     ''      um=? ownput=? bi=? head=? held=? fin=? synced=? res=?'',
     ''      refs=? rcu=[U |-> TRUE] 12 states generated, 7 distinct states found. gp=? gpfree=? acc=? ci=? cleaner=?'',
     ''      buf=<<seq=1>>''], None)"
proof -
  have ok: "log_ok BEFORE two_states AFTER" by code_simp
  have "shown_all ''?'' put2_state two_states AFTER = [([
     concat [''  1 <Initial predicate> pc=[U |-> '', dq, ''u_lock'', dq, ''] seq=? lock=?''],
     ''      A[H] cnt=? puts=? B[N] cnt=? puts=? own=?'',
     ''      um=? ownput=? bi=? head=? held=? fin=? synced=? res=?'',
     ''      refs=? rcu=[U |-> FALSE] gp=? gpfree=? acc=? ci=? cleaner=?''], None), ([
     concat [''  2 <TaskStep>       pc=[U |-> '', dq, ''u_tree'', dq, ''] seq=? lock=?''],
     ''      A[] cnt=? puts=? B[] cnt=? puts=? own=?'',
     ''      um=? ownput=? bi=? head=? held=? fin=? synced=? res=?'',
     ''      refs=? rcu=[U |-> TRUE] 12 states generated, 7 distinct states found. gp=? gpfree=? acc=? ci=? cleaner=?'',
     ''      buf=<<seq=1>>''], None)]" by code_simp
  moreover have "reason MARK (tlc_log BEFORE two_states AFTER) = ''Error: Invariant NoUAF is violated.''" by code_simp
  moreover have "back_lines (trace_text two_states AFTER) = []" by code_simp
  ultimately show ?thesis using show_prints [OF ok] by simp
qed

section \<open>The script that cuts the end of the log off\<close>

text \<open>No line after the first begins with a digit.\<close>

fun no_count :: "string \<Rightarrow> bool" where
  "no_count (c # d # cs) = (\<not> (c = cnl \<and> is_digit d) \<and> no_count (d # cs))"
| "no_count _ = True"

lemma mt_TAIL_none: "rest = [] \<or> hd rest \<noteq> cnl \<or> tl rest = [] \<or> \<not> is_digit (hd (tl rest)) \<Longrightarrow> mt TAIL (pre, rest, g) = []"
  by (cases rest; cases "tl rest") (auto simp: TAIL_def)

lemma mute_TAIL: "no_count b \<Longrightarrow> rest = [] \<or> hd rest = cnl \<Longrightarrow> mute TAIL b rest"
proof (induction b)
  case (Cons x b)
  have "\<not> is_digit cnl" by (simp add: is_digit_def code_def)
  then have "\<forall>pre. mt TAIL (pre, x # b @ rest, Map.empty) = []"
    using Cons.prems by (intro allI mt_TAIL_none) (cases b; cases rest; auto)
  moreover have "no_count b" using Cons.prems(1) by (cases b) auto
  ultimately show ?case using Cons by simp
qed simp

definition counted :: "string \<Rightarrow> string \<Rightarrow> string" where
  "counted n rest = nl @ n @ '' states generated'' @ rest"

lemma cut_counted:
  assumes "no_count trace" "n \<noteq> []" "list_all is_digit n"
  shows "cut_tail (trace @ counted n rest) = trace"
proof -
  have blank: "\<not> is_digit CHR '' ''" by (simp add: is_digit_def code_def)
  let ?c = "counted n rest" and ?p = "rev trace"
  have 1: "hits (Lit nl) (?p, ?c, Map.empty) (cnl # ?p, n @ '' states generated'' @ rest, Map.empty)"
    using hits_lit [of nl ?p] by (simp add: counted_def)
  have 2: "hits (Plus is_digit) (cnl # ?p, n @ '' states generated'' @ rest, Map.empty)
      (rev n @ cnl # ?p, '' states generated'' @ rest, Map.empty)"
    by (rule hits_plus [OF assms(3,2)]) (simp add: blank)
  have 3: "hits (Lit '' states generated'') (rev n @ cnl # ?p, '' states generated'' @ rest, Map.empty)
      (rev '' states generated'' @ rev n @ cnl # ?p, rest, Map.empty)" by (rule hits_lit)
  have h: "hits TAIL (?p, ?c, Map.empty) (rev '' states generated'' @ rev n @ cnl # ?p, rest, Map.empty)"
    unfolding TAIL_def seqs.simps by (rule hits_seq [OF 1 hits_seq [OF 2 3]])
  have m: "mute TAIL trace ?c" by (rule mute_TAIL [OF assms(1)]) (simp add: counted_def)
  from search_mute [OF m h] show ?thesis by (simp add: cut_tail_def mk_match_def)
qed

lemma MARK_place: "log_ok before ss after \<Longrightarrow> place MARK (tlc_log before ss after @ rest) = length before \<and> str_in MARK (tlc_log before ss after @ rest)"
  using find_whole [of before MARK] MARK_facts(1,2) by (auto simp: log_ok_def place_def tlc_log_def str_in_iff)

text \<open>
  C33: show-vacant-trace.py cuts the end of the log off before it reads the states: it prints every
  state of the trace, the last one too, from the values of its variables alone.\<close>

theorem show_vacant_prints:
  assumes "log_ok before ss []" "no_count (trace_text ss [])" "n \<noteq> [] \<and> list_all is_digit n"
  shows "show_vacant (tlc_log before ss [] @ counted n rest) =
    reason MARK (tlc_log before ss [] @ counted n rest) # concat (shown_all ''?'' vacant_state ss [])"
proof -
  let ?log = "tlc_log before ss [] @ counted n rest"
  have p: "place MARK ?log = length before" "str_in MARK ?log" using MARK_place [OF assms(1)] by blast+
  have "drop (length before) ?log = trace_text ss [] @ counted n rest" by (simp add: tlc_log_def trace_text_def)
  then have "cut_tail (drop (length before) ?log) = trace_text ss []" using cut_counted assms(2,3) by simp
  then show ?thesis
    using p vacant.states_shown [OF assms(1)]
    by (simp add: show_vacant_def show_log_def MARKS_def show_states_def log_trace_text)
qed

theorem show_vacant_prints_witness:
  "show_vacant (tlc_log BEFORE two_states [] @ counted ''12'' '', 7 distinct states found.'') =
    reason MARK (tlc_log BEFORE two_states [] @ counted ''12'' '', 7 distinct states found.'')
      # concat (shown_all ''?'' vacant_state two_states [])"
proof (rule show_vacant_prints)
  show "log_ok BEFORE two_states []" "no_count (trace_text two_states [])" "''12'' \<noteq> [] \<and> list_all is_digit ''12''" by code_simp+
qed

end
