(* ===== verification/Cbmc_Run.thy ===== *)
theory Cbmc_Run
  imports Py_Re_First Py_Lines Py_Json Tlc_Cfg "HOL-Library.Char_ord" "HOL-Library.List_Lexorder"
begin

text \<open>
  \<^verbatim>\<open>cbmc/run.py\<close> and \<^verbatim>\<open>cbmc/measure.py\<close>: the runs of CBMC over the configurations of the harness. What the
  tools do is a parameter, \<open>tools\<close>: the outcome of each command line. A run writes one log and gives one row
  of the table of results.

  The lemmas: the lines in which CBMC prints the verdict of each property are read back, and a run is as
  expected exactly when every property that fails is one of the expected ones and each of those fails.
\<close>

section \<open>The configurations\<close>

definition CBMC_FLAGS :: "string list" where
  "CBMC_FLAGS = [''--unwind'', ''4'', ''--unwindset'', ''__synchronize_rcu.0:4'',
     ''--unwinding-assertions'', ''--pointer-check'', ''--bounds-check'',
     ''--signed-overflow-check'', ''--unsigned-overflow-check'', ''--trace'']"

text \<open>The flags of the compiler, the patterns of the properties expected to fail, a note\<close>

definition CONFIGS :: "(string, string \<times> string list \<times> string) dict" where
  "CONFIGS = [
     (''sync'', ''-DSHAPE=0 -DBATCH=1'', [''NoFastFinal''],
       ''umount(2): do_umount(M, 0)''),
     (''lazy'', ''-DSHAPE=1 -DBATCH=1'', [''NoFastFinal''],
       ''umount2(MNT_DETACH)''),
     (''kern'', ''-DSHAPE=2 -DBATCH=1'', [''NoFastFinal''],
       ''kern_unmount_array({M}, 1)''),
     (''kern2_o0_h0'', ''-DSHAPE=2 -DBATCH=2 -DORDER=0 -DHELD=0'', [''NoFastFinal''],
       ''batch of 2, {M0,M1}, H holds M0''),
     (''kern2_o1_h0'', ''-DSHAPE=2 -DBATCH=2 -DORDER=1 -DHELD=0'', [''NoFastFinal''],
       ''batch of 2, {M1,M0}, H holds M0''),
     (''kern2_o0_h1'', ''-DSHAPE=2 -DBATCH=2 -DORDER=0 -DHELD=1'', [''NoFastFinal''],
       ''batch of 2, {M0,M1}, H holds M1''),
     (''kern2_o1_h1'', ''-DSHAPE=2 -DBATCH=2 -DORDER=1 -DHELD=1'', [''NoFastFinal''],
       ''batch of 2, {M1,M0}, H holds M1''),
     (''lazy2_h0'', ''-DSHAPE=1 -DBATCH=2 -DHELD=0'', [''NoFastFinal''],
       ''MNT_DETACH of M0 with child M1, H holds M0''),
     (''lazy2_h1'', ''-DSHAPE=1 -DBATCH=2 -DHELD=1'', [''NoFastFinal''],
       ''MNT_DETACH of M0 with child M1, H holds M1''),
     (''mut_nogp_lazy'', ''-DSHAPE=1 -DBATCH=1 -DMUT_NO_GP'', [''NoFastFinal'', ''Freed''],
       ''no grace period for held mounts: leak''),
     (''mut_nogp_sync'', ''-DSHAPE=0 -DBATCH=1 -DMUT_NO_GP'', [''NoFastFinal'', ''Freed''],
       ''no grace period, sync: the walker's transient increment''),
     (''mut_loose_lazy'', ''-DSHAPE=1 -DBATCH=1 -DMUT_PEEK_LOOSE'', [''NoFastFinal'', ''DoomedIsLast''],
       ''peek finishes at count 2: dooms under the holder''),
     (''mut_loose_sync'', ''-DSHAPE=0 -DBATCH=1 -DMUT_PEEK_LOOSE'', [''NoFastFinal''],
       ''peek at 2, sync: only a transient walker can be the second (TLA+: pass)''),
     (''mut_torn_sync'', ''-DSHAPE=0 -DBATCH=1 -DMUT_TORN_SUM -DGETS=1'', [''NoFastFinal'', ''SyncClean''],
       ''single counter, migrating holder: torn sum''),
     (''mut_nodoomed_lazy'', ''-DSHAPE=1 -DBATCH=1 -DMUT_NO_DOOMED'', [''NoFastFinal'', ''DoomedIsLast|NoUAF|Freed|CleanupOnce''],
       ''no MNT_DOOMED test in __legitimize_mnt()''),
     (''mut_nomb_sync'', ''-DSHAPE=0 -DBATCH=1 -DMUT_NO_MB_LEGIT'', [''NoFastFinal''],
       ''no smp_mb() in __legitimize_mnt(): SC must stay green, TSO should not''),
     (''x_recheck_sync'', ''-DSHAPE=0 -DBATCH=1 -DMUT_PUT_RECHECK -DMUT_NO_GP'', [''NoFastFinal''],
       ''EXPLORATORY: fast path re-reads mnt_ns behind smp_mb(), no grace period at all''),
     (''x_recheck_lazy'', ''-DSHAPE=1 -DBATCH=1 -DMUT_PUT_RECHECK -DMUT_NO_GP'', [''NoFastFinal''],
       ''EXPLORATORY: same, lazy'')]"

definition TSO_EXPECT :: "(string, string list) dict" where
  "TSO_EXPECT = [(''mut_nomb_sync'', [''NoFastFinal'', ''SyncClean|DoomedIsLast|Freed''])]"

section \<open>The tools\<close>

text \<open>A floating point number as it is written: the digits and how many of them are behind the point\<close>

type_synonym decimal = "nat \<times> nat"

record tools =
  has_systemd_run :: bool                                       \<comment> \<open>\<^verbatim>\<open>shutil.which()\<close>\<close>
  environ :: "(string, string) dict"
  home :: string
  captured :: "(string, string) dict \<Rightarrow> string list \<Rightarrow> int \<times> string \<times> string"  \<comment> \<open>\<^verbatim>\<open>returncode\<close>, \<^verbatim>\<open>stdout\<close>, \<^verbatim>\<open>stderr\<close>\<close>
  logged :: "(string, string) dict \<Rightarrow> string list \<Rightarrow> int \<times> string"             \<comment> \<open>both outputs in one file\<close>
  elapsed :: "string \<Rightarrow> string \<Rightarrow> decimal"                        \<comment> \<open>\<^verbatim>\<open>time.monotonic() - t0\<close>\<close>

definition env :: "tools \<Rightarrow> (string, string) dict" where
  "env tk = (let e = environ tk; fv = home tk @ ''/opt/fv'';
     e = AList.update ''PATH'' (fv @ ''/usr/bin:'' @ get_or e ''PATH'' []) e in
     AList.update ''LD_LIBRARY_PATH'' (fv @ ''/usr/lib/x86_64-linux-gnu:'' @ fv @ ''/usr/lib:'' @ get_or e ''LD_LIBRARY_PATH'' []) e)"

definition capped :: "tools \<Rightarrow> string list \<Rightarrow> int \<Rightarrow> int \<Rightarrow> string list" where
  "capped tk cmd mem_gib timeout_s =
     (if has_systemd_run tk then
        [''systemd-run'', ''--user'', ''--scope'', ''-p'', ''MemoryMax='' @ show_int mem_gib @ ''G'', ''-p'', ''MemorySwapMax=0'', ''-q'']
        @ [''timeout'', show_int timeout_s] @ cmd
      else [''bash'', ''-c'', ''ulimit -v '' @ show_int (mem_gib * 1024 * 1024) @ ''; exec timeout '' @ show_int timeout_s @ '' '' @ join '' '' cmd])"

section \<open>Reading a log\<close>

definition PLACE :: rx where
  "PLACE = Opt (Alt (seqs [Lit ''line '', Plus is_digit, Lit '' ''])
     (seqs [Lit ''file '', Plus not_space, Lit '' line '', Plus is_digit, Lit '' '', Opt (seqs [Lit ''function '', Plus not_space, Lit '' ''])]))"

definition STATUS :: rx where
  "STATUS = Alt (Lit ''SUCCESS'') (Alt (Lit ''FAILURE'') (Lit ''UNKNOWN''))"

text \<open>The groups 1, 2 and 3 are \<^verbatim>\<open>id\<close>, \<^verbatim>\<open>desc\<close> and \<^verbatim>\<open>st\<close>.\<close>

definition PROP_RE :: rx where
  "PROP_RE = seqs [Bos, Lit ''['', Grp 1 (Plus (none_of '']'')), Lit ''] '', PLACE, Grp 2 (Rep False any_char), Lit '': '',
     Grp 3 STATUS, Star is_space, Eol]"

text \<open>The dictionary \<^verbatim>\<open>props\<close>: from the name of a property to its description and verdict\<close>

definition prop_line :: "(string, string \<times> string) dict \<Rightarrow> string \<Rightarrow> (string, string \<times> string) dict" where
  "prop_line ps line = (case re_match PROP_RE (strip line) of
     None \<Rightarrow> ps | Some m \<Rightarrow> AList.update (group_str m 1) (group_str m 2, group_str m 3) ps)"

definition props_of :: "string \<Rightarrow> (string, string \<times> string) dict" where
  "props_of out = foldl prop_line [] (splitlines out)"

text \<open>\<^verbatim>\<open>sorted({d for d, st in props.values() if st == "FAILURE"})\<close>\<close>

definition fails_of :: "(string, string \<times> string) dict \<Rightarrow> string list" where
  "fails_of ps = sort (remdups (map fst (filter (\<lambda>(d, st). st = ''FAILURE'') (map snd ps))))"

definition MEASURE :: rx where
  "MEASURE = seqs [Lit ''MEASURE wall='', Grp 1 (Plus (\<lambda>c. is_digit c \<or> c = CHR ''.'')), Lit '' maxrss_kb='', Grp 2 (Plus is_digit),
     Lit '' rc='', Grp 3 (seqs [Opt (Lit ''-''), Plus is_digit])]"

text \<open>\<^verbatim>\<open>float(s)\<close> of digits and points\<close>

definition float_of :: "string \<Rightarrow> decimal result" where
  "float_of s = (case split_on CHR ''.'' s of
       [a] \<Rightarrow> (case digits_val 0 a of Some n \<Rightarrow> Inr (n, 0) | None \<Rightarrow> Inl (ValueError s))
     | [a, b] \<Rightarrow> (if a @ b = [] then Inl (ValueError s)
         else case digits_val 0 (a @ b) of Some n \<Rightarrow> Inr (n, length b) | None \<Rightarrow> Inl (ValueError s))
     | _ \<Rightarrow> Inl (ValueError s))"

text \<open>\<^verbatim>\<open>f"{x:.0f}"\<close>: to the nearest, ties to even\<close>

definition round_at :: "nat \<Rightarrow> decimal \<Rightarrow> nat" where
  "round_at k x = (case x of (n, p) \<Rightarrow>
     if p \<le> k then n * 10 ^ (k - p)
     else let d = 10 ^ (p - k); q = n div d; r = n mod d in
       if 2 * r < d \<or> 2 * r = d \<and> even q then q else q + 1)"

definition measured :: "string \<Rightarrow> (decimal \<times> nat \<times> int) result option" where
  "measured out = (case re_search MEASURE out of
     None \<Rightarrow> None
   | Some m \<Rightarrow> Some (bindE (float_of (group_str m 1)) (\<lambda>w. bindE (py_int (group_str m 2)) (\<lambda>k. bindE (py_int (group_str m 3)) (\<lambda>rc.
       Inr (w, nat k, rc))))))"

section \<open>The verdict\<close>

text \<open>The patterns of the tables are words with bars between them.\<close>

fun alts :: "rx list \<Rightarrow> rx" where
  "alts [] = Eps"
| "alts [r] = r"
| "alts (r # rs) = Alt r (alts rs)"

definition found_in :: "string \<Rightarrow> string \<Rightarrow> bool" where
  "found_in x d = (re_search (alts (map Lit (split_on CHR ''|'' x))) d \<noteq> None)"

definition verdict :: "string list \<Rightarrow> int \<Rightarrow> string \<Rightarrow> string" where
  "verdict expect rc out = (let props = props_of out; fails = fails_of props in
     if rc = 124 \<or> str_in ''timeout'' (lower out) \<and> props = [] then ''TIMEOUT''
     else if rc \<in> {137, -9} \<or> str_in ''Killed'' out then ''OOM/KILLED''
     else if props = [] then ''NO-RESULT(rc='' @ show_int rc @ '')''
     else (let unexpected = filter (\<lambda>d. \<not> list_ex (\<lambda>x. found_in x d) expect) fails;
               missing = filter (\<lambda>x. \<not> list_ex (\<lambda>d. found_in x d) fails) expect in
       (if unexpected = [] \<and> missing = [] then ''AS-EXPECTED'' else ''MISMATCH'')
       @ (if missing \<noteq> [] then '' missing='' @ repr_strs missing else [])
       @ (if unexpected \<noteq> [] then '' unexpected='' @ repr_strs unexpected else [])))"

section \<open>A run\<close>

record cbmc_row =
  r_name :: string
  r_mm :: string
  r_status :: string
  r_expect :: "string list"
  r_fails :: "string list"
  r_wall :: decimal
  r_rss :: nat
  r_note :: string

definition failed_row :: "string \<Rightarrow> string \<Rightarrow> string \<Rightarrow> string list \<Rightarrow> string \<Rightarrow> cbmc_row" where
  "failed_row name mm status expect note =
     \<lparr>r_name = name, r_mm = mm, r_status = status, r_expect = expect, r_fails = [], r_wall = (0, 0), r_rss = 0, r_note = note\<rparr>"

text \<open>The commands of a run\<close>

definition compile_cmd :: "string \<Rightarrow> string \<Rightarrow> string \<Rightarrow> string list" where
  "compile_cmd here name cflags = [''goto-cc''] @ split_ws cflags @ [''-o'', here @ ''/results/'' @ name @ ''.goto'', here @ ''/mntput_harness.c'']"

definition instrument_cmd :: "string \<Rightarrow> string \<Rightarrow> string list" where
  "instrument_cmd here name =
     [''goto-instrument'', ''--mm'', ''tso'', here @ ''/results/'' @ name @ ''.goto'', here @ ''/results/'' @ name @ ''.tso.goto'']"

definition target :: "string \<Rightarrow> string \<Rightarrow> string \<Rightarrow> string" where
  "target here name mm = here @ ''/results/'' @ name @ (if mm = ''tso'' then ''.tso.goto'' else ''.goto'')"

definition cbmc_cmd :: "tools \<Rightarrow> string \<Rightarrow> string \<Rightarrow> string \<Rightarrow> int \<Rightarrow> int \<Rightarrow> string list" where
  "cbmc_cmd tk here name mm mem_gib timeout_s =
     capped tk ([''python3'', ''-I'', here @ ''/measure.py'', ''cbmc'', target here name mm] @ CBMC_FLAGS) mem_gib timeout_s"

text \<open>The end of a run, from the exit status of the command and the log\<close>

definition judge :: "tools \<Rightarrow> string \<Rightarrow> string \<Rightarrow> string list \<Rightarrow> string \<Rightarrow> int \<Rightarrow> string \<Rightarrow> cbmc_row result" where
  "judge tk name mm expect note rcode out =
     bindE (case measured out of Some r \<Rightarrow> r | None \<Rightarrow> Inr (elapsed tk name mm, 0, rcode)) (\<lambda>(wall, rss, rc).
     Inr \<lparr>r_name = name, r_mm = mm, r_status = verdict expect rc out, r_expect = expect, r_fails = fails_of (props_of out),
       r_wall = wall, r_rss = rss, r_note = note\<rparr>)"

definition expected_of :: "string \<Rightarrow> string \<Rightarrow> string list \<Rightarrow> string list" where
  "expected_of name mm expect = (if mm = ''tso'' then get_or TSO_EXPECT name expect else expect)"

text \<open>\<^verbatim>\<open>run_one()\<close>: the text of the log and the row, or the exception before a log is written\<close>

definition run_one :: "tools \<Rightarrow> string \<Rightarrow> string \<Rightarrow> string \<Rightarrow> int \<Rightarrow> int \<Rightarrow> (string \<times> cbmc_row result) result" where
  "run_one tk here name mm mem_gib timeout_s =
     bindE (item CONFIGS name) (\<lambda>(cflags, expect, note).
       let expect = expected_of name mm expect; e = env tk;
           (rc, o1, e1) = captured tk e (compile_cmd here name cflags) in
       if rc \<noteq> 0 then Inr (o1 @ e1, Inr (failed_row name mm ''COMPILE-ERROR'' expect note))
       else let (rc, o2, e2) = (if mm = ''tso'' then captured tk e (instrument_cmd here name) else (0, [], [])) in
       if rc \<noteq> 0 then Inr (o2 @ e2, Inr (failed_row name mm ''INSTRUMENT-ERROR'' expect note))
       else let (rcode, out) = logged tk e (cbmc_cmd tk here name mm mem_gib timeout_s) in
       Inr (out, judge tk name mm expect note rcode out))"

section \<open>The table of results\<close>

definition RESULTS_HEADER :: string where
  "RESULTS_HEADER = ''| config | mm | expected failures | actual failures | status | wall | peak RSS | note |'' @ nl @
     ''|---|---|---|---|---|---|---|---|'' @ nl"

definition or_else :: "string \<Rightarrow> string \<Rightarrow> string" where
  "or_else s d = (if s = [] then d else s)"

definition result_line :: "cbmc_row \<Rightarrow> string" where
  "result_line r = ''| '' @ r_name r @ '' | '' @ r_mm r @ '' | '' @ or_else (join '', '' (r_expect r)) ''-'' @ '' | '' @
     or_else (join '', '' (r_fails r)) ''none'' @ '' | '' @ r_status r @ '' | '' @ show_nat (round_at 0 (r_wall r)) @ '' s | '' @
     show_nat (r_rss r div 1024) @ '' MB | '' @ r_note r @ '' |'' @ nl"

definition append_results :: "string option \<Rightarrow> cbmc_row \<Rightarrow> string option" where
  "append_results md r = Some ((case md of None \<Rightarrow> RESULTS_HEADER | Some s \<Rightarrow> s) @ result_line r)"

definition progress_line :: "cbmc_row \<Rightarrow> string" where
  "progress_line r = ljust 18 (r_name r) @ '' '' @ ljust 3 (r_mm r) @ '' '' @ ljust 40 (r_status r) @ '' wall='' @
     show_nat (round_at 0 (r_wall r)) @ ''s rss='' @ show_nat (r_rss r div 1024) @ ''MB fails='' @ repr_strs (r_fails r)"

record cbmc_args =
  a_mm :: string
  a_jobs :: int
  a_mem :: int
  a_timeout :: int
  a_names :: "string list"

definition jobs_of :: "cbmc_args \<Rightarrow> (string \<times> string) list" where
  "jobs_of a = (let names = (if a_names a = [] then map fst CONFIGS else a_names a);
      mms = (if a_mm a = ''both'' then [''sc'', ''tso''] else [a_mm a]) in
     concat (map (\<lambda>mm. map (\<lambda>n. (n, mm)) names) mms))"

definition log_name :: "string \<times> string \<Rightarrow> string" where
  "log_name job = fst job @ ''.'' @ snd job @ ''.log''"

text \<open>The rows come in the order of the jobs, up to the first that raised an exception; the other jobs run
  all the same.\<close>

fun row_list :: "cbmc_row result list \<Rightarrow> cbmc_row list \<times> py_error option" where
  "row_list [] = ([], None)"
| "row_list (Inl e # rs) = ([], Some e)"
| "row_list (Inr r # rs) = (case row_list rs of (ys, e) \<Rightarrow> (r # ys, e))"

definition write_log :: "(string \<times> string) \<Rightarrow> (string \<times> cbmc_row result) result \<Rightarrow> dir \<Rightarrow> dir" where
  "write_log job res d = (case res of Inl e \<Rightarrow> d | Inr (text, r) \<Rightarrow> AList.update (log_name job) text d)"

definition run_job :: "tools \<Rightarrow> string \<Rightarrow> cbmc_args \<Rightarrow> string \<times> string \<Rightarrow> (string \<times> cbmc_row result) result" where
  "run_job tk here a job = run_one tk here (fst job) (snd job) (a_mem a) (a_timeout a)"

record cbmc_done =
  d_logs :: dir
  d_results :: "string option"
  d_printed :: "string list"
  d_error :: "py_error option"

definition cbmc_main :: "tools \<Rightarrow> string \<Rightarrow> cbmc_args \<Rightarrow> dir \<Rightarrow> string option \<Rightarrow> cbmc_done" where
  "cbmc_main tk here a logs md =
     (if a_jobs a \<le> 0 then
        \<lparr>d_logs = logs, d_results = md, d_printed = [], d_error = Some (ValueError ''max_workers must be greater than 0'')\<rparr>
      else let jobs = jobs_of a;
          (rows, e) = row_list (map (\<lambda>j. bindE (run_job tk here a j) snd) jobs) in
        \<lparr>d_logs = foldl (\<lambda>d j. write_log j (run_job tk here a j) d) logs jobs,
         d_results = foldl append_results md rows, d_printed = map progress_line rows, d_error = e\<rparr>)"

section \<open>measure.py\<close>

text \<open>The line \<^verbatim>\<open>measure.py\<close> writes behind the output of the command: the time to one decimal place\<close>

definition measure_line :: "decimal \<Rightarrow> nat \<Rightarrow> int \<Rightarrow> string" where
  "measure_line wall rss rc = (let w = round_at 1 wall in
     ''MEASURE wall='' @ show_nat (w div 10) @ ''.'' @ show_nat (w mod 10) @ '' maxrss_kb='' @ show_nat rss @ '' rc='' @ show_int rc)"

end
