(* ===== verification/Cbmc_Props.thy ===== *)
theory Cbmc_Props
  imports Cbmc_Run "HOL-Library.Multiset"
begin

text \<open>
  The runner of CBMC reads what CBMC and \<^verbatim>\<open>measure.py\<close> print, and its verdict is the comparison it stands for.
\<close>

section \<open>What CBMC prints for a property\<close>









section \<open>Reading it back\<close>














section \<open>The properties of a log\<close>








section \<open>The line of measure.py\<close>






section \<open>The verdict\<close>






section \<open>A run that ends\<close>








section \<open>The order in which the jobs end\<close>

text \<open>Every job has a log of its own, so that the threads of the pool may end in any order.\<close>

lemma log_name_inj:
  assumes "snd j \<in> {''sc'', ''tso''}" "snd k \<in> {''sc'', ''tso''}" "log_name j = log_name k"
  shows "j = k"
proof -
  obtain n m n' m' where jk: "j = (n, m)" "k = (n', m')" by (cases j; cases k)
  have "rev (log_name (n, m)) = rev (log_name (n', m'))" using assms(3) by (simp add: jk)
  then have "rev (m @ ''.log'') @ rev (n @ ''.'') = rev (m' @ ''.log'') @ rev (n' @ ''.'')" by (simp add: log_name_def)
  with assms(1,2) have "m = m' \<and> rev n = rev n'" by (auto simp: jk)
  then show ?thesis by (simp add: jk)
qed

definition noted :: "(string \<times> string \<Rightarrow> (string \<times> cbmc_row result) result) \<Rightarrow> string \<times> string \<Rightarrow>
    (string \<Rightarrow> string option) \<Rightarrow> string \<Rightarrow> string option" where
  "noted run j m = (case run j of Inl e \<Rightarrow> m | Inr (text, r) \<Rightarrow> m(log_name j \<mapsto> text))"

lemma logs_noted: "map_of (foldl (\<lambda>d j. write_log j (run j) d) d js) = fold (noted run) js (map_of d)"
proof (induction js arbitrary: d)
  case (Cons j js)
  have "map_of (write_log j (run j) d) = noted run j (map_of d)"
    by (auto simp: write_log_def noted_def map_of_update_dict split: sum.splits)
  with Cons show ?case by simp
qed simp

theorem cbmc_any_order:
  assumes "a_mm a \<in> {''sc'', ''tso'', ''both''}" "0 < a_jobs a" "mset js = mset (jobs_of a)"
  shows "map_of (foldl (\<lambda>d j. write_log j (run_job tk here a j) d) logs js) = map_of (d_logs (cbmc_main tk here a logs md))"
proof -
  let ?f = "noted (run_job tk here a)"
  have mm: "snd j \<in> {''sc'', ''tso''}" if "j \<in> set js" for j
    using mset_eq_setD [OF assms(3)] assms(1) that by (auto simp: jobs_of_def Let_def split: if_splits)
  have "?f j \<circ> ?f k = ?f k \<circ> ?f j" if "j \<in> set js" "k \<in> set js" for j k
  proof (cases "j = k")
    case False
    with log_name_inj [of j k] mm that have "log_name j \<noteq> log_name k" by blast
    then show ?thesis by (auto simp: noted_def fun_eq_iff split: sum.splits)
  qed simp
  from fold_multiset_equiv [OF this assms(3)] have "fold ?f js = fold ?f (jobs_of a)" .
  then have "map_of (foldl (\<lambda>d j. write_log j (run_job tk here a j) d) logs js) =
      map_of (foldl (\<lambda>d j. write_log j (run_job tk here a j) d) logs (jobs_of a))"
    by (simp add: logs_noted)
  also have "\<dots> = map_of (d_logs (cbmc_main tk here a logs md))"
    using assms(2) by (simp add: cbmc_main_def Let_def split: prod.split)
  finally show ?thesis .
qed

section \<open>A run and its verdict\<close>







end
