(* ===== verification/Cbmc_Trace.thy ===== *)
theory Cbmc_Trace
  imports Cbmc_Run
begin

text \<open>
  \<^verbatim>\<open>cbmc/trace2.py\<close> and \<^verbatim>\<open>cbmc/trace_summary.py\<close>: the assignments of a counterexample in a log of CBMC. Both
  take the text of the log and a part of the description of a property.

  The two scripts expect the fields of a state's line in different orders: what the first reads is never read
  by the second, which prints nothing of the traces that CBMC writes.
\<close>

section \<open>Shared\<close>

text \<open>\<^verbatim>\<open>r"^\[([^\]]+)\] (.*): FAILURE\s*$"\<close> under \<^verbatim>\<open>re.M\<close>\<close>

definition FAILED :: rx where
  "FAILED = seqs [BolM, Lit ''['', Grp 1 (Plus (none_of '']'')), Lit ''] '', Grp 2 (Star any_char), Lit '': FAILURE'', Star is_space, EolM]"

definition failed_props :: "string \<Rightarrow> (string, string) dict" where
  "failed_props log = dmerge [] (re_findall2 FAILED log)"

definition wanted :: "string \<Rightarrow> (string, string) dict \<Rightarrow> string list" where
  "wanted want props = map fst (filter (\<lambda>(i, d). str_in want d) props)"

definition TRACE_OF :: "string \<Rightarrow> rx" where
  "TRACE_OF pid = seqs [BolM, Lit (''Trace for '' @ pid @ '':'' @ nl), Grp 1 (Rep False all_char), Look (Alt (Seq BolM (Lit ''Trace for '')) Eos)]"

text \<open>\<^verbatim>\<open>m.group(1)\<close> of the search for the trace\<close>

definition trace_of :: "string \<Rightarrow> string \<Rightarrow> string result" where
  "trace_of log pid = (case re_search (TRACE_OF pid) log of
     None \<Rightarrow> Inl (AttributeError ''group'') | Some m \<Rightarrow> Inr (group_str m 1))"

section \<open>trace2.py\<close>

definition KEEP :: rx where
  "KEEP = seqs [Bos, Star is_space, alts (
     [Seq (Lit ''ghost_'') (alts (map Lit [''refs'', ''transient'', ''hashed'', ''cleaned'', ''cleaner'', ''freed'', ''sb_torn'', ''fast_final'',
         ''umounted'', ''gps'', ''caller_put''])),
      Seq (Lit ''mounts[0l].'') (Alt (Lit ''mnt_ns'') (Alt (Lit ''mnt.mnt_flags'')
        (seqs [Lit ''mnt_pcp['', Cls is_digit, Lit ''].'', Plus is_word]))),
      Lit ''in_rcu'', Seq (Lit ''mount_lock.'') (Alt (Lit ''sequence'') (Lit ''locked''))]
     @ map Lit [''thread_done'', ''retval'', ''count='', ''res='', ''found='', ''seq='', ''cpu='', ''c='', ''idx='', ''i='', ''k=''])]"

definition HDR :: rx where
  "HDR = seqs [Bos, Lit ''State '', Plus is_digit, Lit '' file '', Plus not_space, Lit '' function '', Grp 1 (Plus not_space),
     Lit '' line '', Grp 2 (Plus is_digit), Lit '' thread '', Grp 3 (Plus is_digit)]"

text \<open>\<^verbatim>\<open>re.sub(r" \(\d[\d ]*\)$", "", a)\<close>\<close>

definition BITS :: rx where
  "BITS = seqs [Lit '' ('', Cls is_digit, Star (\<lambda>c. is_digit c \<or> c = CHR '' ''), Lit '')'', Eol]"

text \<open>The loop over the lines: a state's line, and the assignment two lines below it\<close>

definition step_line :: "string \<Rightarrow> string \<Rightarrow> string list" where
  "step_line l a = (case re_match HDR l of
     None \<Rightarrow> []
   | Some h \<Rightarrow> if re_match KEEP a \<noteq> None \<and> \<not> str_in ''__CPROVER'' a then
       [''T'' @ group_str h 3 @ '' '' @ group_str h 1 @ '':'' @ ljust 5 (group_str h 2) @ '' '' @ re_sub BITS (\<lambda>_. []) (strip a)]
     else [])"

fun step_lines :: "string list \<Rightarrow> string list" where
  "step_lines (l # m # a # ls) = step_line l a @ step_lines (m # a # ls)"
| "step_lines _ = []"

definition trace2 :: "string \<Rightarrow> string \<Rightarrow> string list result" where
  "trace2 log want = (let props = failed_props log in
     case wanted want props of
       [] \<Rightarrow> Inl IndexError
     | pid # _ \<Rightarrow> bindE (trace_of log pid) (\<lambda>tr. bindE (item props pid) (\<lambda>d.
         Inr ((''property: '' @ d) # step_lines (splitlines tr)))))"

section \<open>trace\_summary.py\<close>

definition INTERESTING :: rx where
  "INTERESTING = alts (map Lit [''ghost_'', ''mnt_flags'', ''mnt_ns'', ''mnt_gets'', ''mnt_puts'', ''mnt_count'', ''in_rcu'', ''mount_lock'',
     ''thread_done'', ''task_work'', ''tid'', ''retval'', ''count'', ''seq'', ''found'', ''cpu'', ''res''])"

text \<open>The groups 1 to 4: line, function, thread, assignment\<close>

definition STATE_RE :: rx where
  "STATE_RE = seqs [BolM, Lit ''State '', Plus is_digit, Lit '' file '', Plus not_space, Lit '' line '', Grp 1 (Plus is_digit),
     Lit '' function '', Grp 2 (Plus not_space), Lit '' thread '', Grp 3 (Plus is_digit), Lit nl, Plus (\<lambda>c. c = CHR ''-''), Lit nl,
     Star is_space, Grp 4 (Rep False any_char), Lit nl]"

definition summary_line :: "rmatch \<Rightarrow> string list" where
  "summary_line m = (let a = group_str m 4 in
     if re_search INTERESTING a = None \<or> str_in ''__CPROVER'' a \<or> CHR ''#'' \<in> set (hd (split_on CHR ''='' a)) then []
     else [ljust 45 (''T'' @ group_str m 3 @ '' '' @ group_str m 2 @ '':'' @ group_str m 1) @ '' '' @ take 90 a])"

text \<open>What is printed and the exit status\<close>

definition trace_summary :: "string \<Rightarrow> string \<Rightarrow> (string list \<times> nat) result" where
  "trace_summary log want = (let props = failed_props log in
     case wanted want props of
       [] \<Rightarrow> Inr ([''no failing property matching '' @ want], 1)
     | pid # _ \<Rightarrow> bindE (trace_of log pid) (\<lambda>tr. bindE (item props pid) (\<lambda>d.
         let out = concat (map summary_line (re_finditer STATE_RE tr)) in
         Inr ([''property: '' @ pid @ '': '' @ d, join nl (drop (length out - 70) out)], 0))))"

section \<open>The lines of a state in the two scripts\<close>

text \<open>What the steps of a match take\<close>

lemma took_lit: "t \<in> set (mt (Lit w) s) \<Longrightarrow> fst (snd s) = w @ fst (snd t)"
  by (cases s) (auto split: if_splits elim!: prefixE)

lemma took_plus: "t \<in> set (mt (Plus c) s) \<Longrightarrow> \<exists>w. w \<noteq> [] \<and> list_all c w \<and> fst (snd s) = w @ fst (snd t)"
proof (erule mt_SeqE)
  fix u
  assume u: "u \<in> set (mt (Cls c) s)" "t \<in> set (mt (Star c) u)"
  from u(1) obtain x where x: "c x" "fst (snd s) = x # fst (snd u)" by (cases s) (auto split: list.splits if_splits)
  from u(2) obtain w where "list_all c w" "fst (snd u) = w @ fst (snd t)"
    by (cases u) (auto simp: set_rep_greedy list_all_iff)
  with x show ?thesis by (intro exI [of _ "x # w"]) simp
qed

lemma words_apart:
  assumes "a @ CHR '' '' # u = b @ CHR '' '' # v" "list_all not_space a" "list_all not_space b"
  shows "a = b \<and> u = v"
proof -
  have "\<not> not_space CHR '' ''" by (simp add: not_space_def is_space_def code_def)
  then have "CHR '' '' \<notin> set a" "CHR '' '' \<notin> set b" using assms(2,3) by (auto simp: list_all_iff)
  with assms(1) show ?thesis by (auto simp: append_eq_append_conv2 append_eq_Cons_conv Cons_eq_append_conv)
qed

lemma took_start:
  assumes "t \<in> set (mt (Seq (Lit ''State '') (Seq (Plus is_digit) (Seq (Lit '' file '') (Seq (Plus not_space) (Seq (Lit w) q))))) s)"
  shows "\<exists>n f r. fst (snd s) = ''State '' @ n @ '' file '' @ f @ w @ r \<and> list_all is_digit n \<and> list_all not_space f"
proof -
  obtain u where u: "u \<in> set (mt (Lit ''State '') s)" "t \<in> set (mt (Seq (Plus is_digit) (Seq (Lit '' file '') (Seq (Plus not_space) (Seq (Lit w) q)))) u)"
    using assms by (rule mt_SeqE)
  obtain v where v: "v \<in> set (mt (Plus is_digit) u)" "t \<in> set (mt (Seq (Lit '' file '') (Seq (Plus not_space) (Seq (Lit w) q))) v)"
    using u(2) by (rule mt_SeqE)
  obtain x where x: "x \<in> set (mt (Lit '' file '') v)" "t \<in> set (mt (Seq (Plus not_space) (Seq (Lit w) q)) x)" using v(2) by (rule mt_SeqE)
  obtain y where y: "y \<in> set (mt (Plus not_space) x)" "t \<in> set (mt (Seq (Lit w) q) y)" using x(2) by (rule mt_SeqE)
  obtain z where z: "z \<in> set (mt (Lit w) y)" using y(2) by (rule mt_SeqE)
  obtain n where n: "list_all is_digit n" "fst (snd u) = n @ fst (snd v)" using took_plus [OF v(1)] by blast
  obtain f where f: "list_all not_space f" "fst (snd x) = f @ fst (snd y)" using took_plus [OF y(1)] by blast
  have "fst (snd s) = ''State '' @ n @ '' file '' @ f @ w @ fst (snd z)"
    by (simp only: took_lit [OF u(1)] n(2) took_lit [OF x(1)] f(2) took_lit [OF z])
  with n(1) f(1) show ?thesis by blast
qed

lemma digits_words: "list_all is_digit n \<Longrightarrow> list_all not_space n"
  using is_digit_not_space by (auto simp: list_all_iff not_space_def)

text \<open>Where a line that \<open>HDR\<close> reads begins, \<open>STATE_RE\<close> does not match.\<close>

lemma state_re_none:
  assumes "re_match HDR l \<noteq> None"
  shows "mt STATE_RE (pre, l @ rest, g) = []"
proof (rule ccontr)
  assume "mt STATE_RE (pre, l @ rest, g) \<noteq> []"
  then obtain t where t: "t \<in> set (mt STATE_RE (pre, l @ rest, g))" by (cases "mt STATE_RE (pre, l @ rest, g)") auto
  define q where "q = seqs [Grp 1 (Plus is_digit),
     Lit '' function '', Grp 2 (Plus not_space), Lit '' thread '', Grp 3 (Plus is_digit), Lit nl, Plus (\<lambda>c. c = CHR ''-''), Lit nl,
     Star is_space, Grp 4 (Rep False any_char), Lit nl]"
  have e: "STATE_RE = Seq BolM (Seq (Lit ''State '') (Seq (Plus is_digit) (Seq (Lit '' file '') (Seq (Plus not_space) (Seq (Lit '' line '') q)))))"
    by (simp add: STATE_RE_def q_def)
  obtain u where u: "u \<in> set (mt BolM (pre, l @ rest, g))"
    "t \<in> set (mt (Seq (Lit ''State '') (Seq (Plus is_digit) (Seq (Lit '' file '') (Seq (Plus not_space) (Seq (Lit '' line '') q))))) u)"
    using t unfolding e by (rule mt_SeqE)
  then have "u = (pre, l @ rest, g)" by (simp split: if_splits)
  with took_start [OF u(2)] obtain n f r where a: "l @ rest = ''State '' @ n @ '' file '' @ f @ '' line '' @ r"
    "list_all is_digit n" "list_all not_space f" by auto
  obtain t2 where t2: "t2 \<in> set (mt HDR ([], l, Map.empty))"
    using assms by (cases "mt HDR ([], l, Map.empty)") (auto simp: re_match_def)
  define q2 where "q2 = seqs [Grp 1 (Plus not_space), Lit '' line '', Grp 2 (Plus is_digit), Lit '' thread '', Grp 3 (Plus is_digit)]"
  have e2: "HDR = Seq Bos (Seq (Lit ''State '') (Seq (Plus is_digit) (Seq (Lit '' file '') (Seq (Plus not_space) (Seq (Lit '' function '') q2)))))"
    by (simp add: HDR_def q2_def)
  obtain u2 where u2: "u2 \<in> set (mt Bos ([], l, Map.empty))"
    "t2 \<in> set (mt (Seq (Lit ''State '') (Seq (Plus is_digit) (Seq (Lit '' file '') (Seq (Plus not_space) (Seq (Lit '' function '') q2))))) u2)"
    using t2 unfolding e2 by (rule mt_SeqE)
  then have "u2 = ([], l, Map.empty)" by simp
  with took_start [OF u2(2)] obtain n' f' r' where b: "l = ''State '' @ n' @ '' file '' @ f' @ '' function '' @ r'"
    "list_all is_digit n'" "list_all not_space f'" by auto
  from a(1) b(1) have "n @ CHR '' '' # (''file '' @ f @ '' line '' @ r) = n' @ CHR '' '' # (''file '' @ f' @ '' function '' @ r' @ rest)" by simp
  from words_apart [OF this] a(2) b(2) digits_words have "f @ CHR '' '' # (''line '' @ r) = f' @ CHR '' '' # (''function '' @ r' @ rest)" by auto
  from words_apart [OF this a(3) b(3)] show False by simp
qed

lemma scan_none: "(\<And>a b. p = a @ b \<Longrightarrow> mt r (rev a @ pre, b, Map.empty) = []) \<Longrightarrow> scan r adv pre p = None"
proof (induction p arbitrary: adv pre)
  case Nil
  then show ?case by (simp add: scan.simps [of r adv pre])
next
  case (Cons x p)
  have "mt r (pre, x # p, Map.empty) = []" using Cons.prems [of "[]" "x # p"] by simp
  moreover have "scan r False (x # pre) p = None"
    by (rule Cons.IH) (use Cons.prems [of "x # _"] in simp)
  ultimately show ?case by (simp add: scan.simps [of r adv pre])
qed

lemma line_start:
  "lines_text ls = a @ b \<Longrightarrow> whole a \<Longrightarrow> list_all (\<lambda>l. cnl \<notin> set l) ls \<Longrightarrow> \<exists>us vs. ls = us @ vs \<and> b = lines_text vs"
proof (induction ls arbitrary: a)
  case (Cons l ls)
  show ?case
  proof (cases "a = []")
    case True
    then have "l # ls = [] @ (l # ls) \<and> b = lines_text (l # ls)" using Cons.prems(1) by simp
    then show ?thesis by blast
  next
    case False
    then obtain q where q: "a = q @ nl" using whole_cases [OF Cons.prems(2)] by blast
    have "l @ cnl # lines_text ls = q @ cnl # b" using Cons.prems(1) by (simp add: q lines_text_def)
    moreover have "cnl \<notin> set l" using Cons.prems(3) by simp
    ultimately obtain c where c: "q @ nl = (l @ nl) @ c" "lines_text ls = c @ b"
      by (auto simp: append_eq_append_conv2 append_eq_Cons_conv Cons_eq_append_conv)
    have "whole c"
    proof (cases "c = []")
      case False
      then have "last c = cnl" using c(1) by (metis last_appendR last_snoc)
      then show ?thesis by (simp add: whole_def)
    qed (simp add: whole_def)
    from Cons.IH [OF c(2) this] Cons.prems(3) obtain us vs where "ls = us @ vs \<and> b = lines_text vs" by auto
    then show ?thesis by (intro exI [of _ "l # us"] exI [of _ vs]) simp
  qed
qed (auto simp: lines_text_def)

lemma mt_STATE_RE_other: "\<not> prefix ''State '' s \<or> \<not> whole (rev pre) \<Longrightarrow> mt STATE_RE (pre, s, g) = []"
  by (auto simp: STATE_RE_def whole_def last_rev)

definition as_trace2 :: "string \<Rightarrow> bool" where
  "as_trace2 l = (\<not> List.member l cnl \<and> (startswith l ''State '' \<longrightarrow> re_match HDR l \<noteq> None))"

lemma no_states:
  assumes "list_all as_trace2 ls"
  shows "re_finditer STATE_RE (lines_text ls) = []"
proof -
  have n: "list_all (\<lambda>l. cnl \<notin> set l) ls" using assms by (auto simp: list_all_iff as_trace2_def List.member_iff)
  have "scan STATE_RE False [] (lines_text ls) = None"
  proof (rule scan_none)
    fix a b
    assume ab: "lines_text ls = a @ b"
    show "mt STATE_RE (rev a @ [], b, Map.empty) = []"
    proof (cases "prefix ''State '' b \<and> whole a")
      case True
      with line_start [OF ab _ n] obtain us vs where v: "ls = us @ vs" "b = lines_text vs" by blast
      obtain l vs' where l: "vs = l # vs'" using True v(2) by (cases vs) (auto simp: lines_text_def)
      have b: "b = l @ nl @ lines_text vs'" by (simp add: v(2) l lines_text_def)
      have "prefix ''State '' l" using prefix_nl [of "''State ''" l "lines_text vs'"] True b by simp
      then have "re_match HDR l \<noteq> None" using assms by (simp add: v l as_trace2_def)
      then show ?thesis unfolding b by (rule state_re_none)
    qed (use mt_STATE_RE_other [of b "rev a"] in auto)
  qed
  then show ?thesis by (simp add: re_finditer_def finditer_from.simps [of STATE_RE False "[]"])
qed

text \<open>
  On a trace whose states have lines that trace2.py reads, trace\_summary.py prints the property and
  nothing of the trace.\<close>

theorem summary_silent:
  assumes "wanted want (failed_props log) = pid # ids" "trace_of log pid = Inr (lines_text ls)" "list_all as_trace2 ls"
  shows "\<exists>d. trace_summary log want = Inr ([''property: '' @ pid @ '': '' @ d, []], 0)"
proof -
  have "pid \<in> set (wanted want (failed_props log))" by (simp add: assms(1))
  then have "pid \<in> set (dkeys (failed_props log))" by (auto simp: wanted_def)
  then obtain d where "map_of (failed_props log) pid = Some d" using dkeys_lookup by metis
  then have "item (failed_props log) pid = Inr d" by (simp add: item_def)
  then show ?thesis using no_states [OF assms(3)] by (simp add: trace_summary_def assms(1,2) Let_def)
qed

end
