(* ===== verification/Vm_Run.thy ===== *)
theory Vm_Run
  imports Py_Lines Cbmc_Run
begin

text \<open>
  \<^verbatim>\<open>executor/tla/vm-run-tests.py\<close> and \<^verbatim>\<open>nsresourced/tla/vm-probe.py\<close>: both hand a unit to a virtual machine, in
  credentials on the command line of \<^verbatim>\<open>mkosi\<close>, and print lines of the journal it leaves. What \<^verbatim>\<open>mkosi\<close> and
  \<^verbatim>\<open>journalctl\<close> do is a parameter.

  The lemmas: \<^verbatim>\<open>shlex.quote()\<close> gives one word of the shell that stands for the text, and a script's name and
  pattern that pass the check cannot end the quoted command of the unit.
\<close>

section \<open>Shell words\<close>

text \<open>\<^verbatim>\<open>[^\w@%+=:,./-]\<close> of ASCII characters\<close>

definition sh_safe :: "char \<Rightarrow> bool" where
  "sh_safe c = (code c < 128 \<and> is_word c \<or> c \<in> set ''@%+=:,./-'')"

abbreviation cq :: char where "cq \<equiv> CHR 0x27"

definition sh_quote :: "string \<Rightarrow> string" where
  "sh_quote s = (if s = [] then [cq, cq]
     else if list_all sh_safe s then s
     else [cq] @ replace [cq] [cq, cdq, cq, cdq, cq] s @ [cq])"

text \<open>The text that a word of the shell stands for, where it is made of safe characters and of parts in
  single and in double quotes; no expansion takes place in such a word.\<close>

datatype quoting = Plain | Single | Double

fun sh_read :: "quoting \<Rightarrow> string \<Rightarrow> string option" where
  "sh_read q [] = (if q = Plain then Some [] else None)"
| "sh_read Plain (c # cs) =
     (if c = cq then sh_read Single cs else if c = cdq then sh_read Double cs
      else if sh_safe c then map_option (Cons c) (sh_read Plain cs) else None)"
| "sh_read Single (c # cs) = (if c = cq then sh_read Plain cs else map_option (Cons c) (sh_read Single cs))"
| "sh_read Double (c # cs) =
     (if c = cdq then sh_read Plain cs
      else if c \<in> {CHR ''$'', CHR 0x60, cbs} then None else map_option (Cons c) (sh_read Double cs))"

section \<open>Running mkosi\<close>

datatype waited = Exited int | TimedOut

text \<open>What \<^verbatim>\<open>mkosi\<close> does with a command line, how long it takes, and what \<^verbatim>\<open>journalctl\<close> prints afterwards\<close>

record machine =
  vm_wait :: "string list \<Rightarrow> int \<Rightarrow> waited"
  vm_time :: "string list \<Rightarrow> decimal"
  vm_journal :: "string list \<Rightarrow> string"

record vm_done =
  v_cmd :: "string list"
  v_signals :: "string list"
  v_printed :: "string list"

text \<open>A process that the wait gave up on is still there to be killed.\<close>

definition signals_of :: "waited \<Rightarrow> string list" where
  "signals_of w = (case w of Exited rc \<Rightarrow> [] | TimedOut \<Rightarrow> [''SIGTERM'', ''SIGKILL''])"

definition exit_text :: "waited \<Rightarrow> string" where
  "exit_text w = (case w of Exited rc \<Rightarrow> show_int rc | TimedOut \<Rightarrow> ''timeout'')"

definition vm_report :: "string \<Rightarrow> waited \<Rightarrow> decimal \<Rightarrow> string \<Rightarrow> string" where
  "vm_report name w t out = ''mkosi: exit '' @ exit_text w @ '' after '' @ show_nat (round_at 0 t) @ ''s, output in '' @ out @ ''/'' @ name @
     ''.out, journal in '' @ out @ ''/'' @ name @ ''.journal''"

definition run_vm :: "machine \<Rightarrow> string \<Rightarrow> string \<Rightarrow> string \<Rightarrow> string list \<Rightarrow> int \<Rightarrow> (string \<Rightarrow> bool) \<Rightarrow> vm_done" where
  "run_vm vm name serv out cmd timeout_s keep =
     (let w = vm_wait vm cmd timeout_s in
      \<lparr>v_cmd = cmd, v_signals = signals_of w,
       v_printed = vm_report name w (vm_time vm cmd) out #
         filter keep (splitlines (vm_journal vm [''journalctl'', ''--file'', out @ ''/'' @ name @ ''.journal'', ''-o'', ''cat'', ''--no-pager'', ''-u'', serv @ ''.service'']))\<rparr>)"

section \<open>vm-run-tests.py\<close>

record vm_args =
  x_tree :: string
  x_tests :: string
  x_cpus :: string
  x_machine :: string
  x_installed :: bool
  x_out :: string
  x_timeout :: int
  x_scripts :: "string list"

text \<open>\<^verbatim>\<open>(a.split("=", 1) + [""])[:2]\<close>\<close>

definition script_of :: "string \<Rightarrow> string \<times> string" where
  "script_of a = (case partition a ''='' of (n, sep, m) \<Rightarrow> (n, m))"

definition credential :: "dir \<Rightarrow> string \<Rightarrow> string list result" where
  "credential units name = (case map_of units name of
     None \<Rightarrow> Inl (FileNotFoundError name)
   | Some t \<Rightarrow> Inr [''--credential'', ''test.'' @ name @ ''='' @ sh_quote t])"

definition credentials :: "vm_args \<Rightarrow> dir \<Rightarrow> string list result" where
  "credentials a units = (if x_installed a then Inr []
     else bindE (mapE (credential units) ([''test-control.sh'', ''util.sh''] @ map (fst \<circ> script_of) (x_scripts a))) (\<lambda>cs. Inr (concat cs)))"

definition unsupported :: "string \<times> string \<Rightarrow> bool" where
  "unsupported s = (list_ex (\<lambda>c. c \<in> set [cdq, CHR ''$'', CHR 0x60, cbs, cq]) (snd s) \<or> cq \<in> set (fst s))"

definition check_scripts :: "vm_args \<Rightarrow> unit result" where
  "check_scripts a = (case List.find unsupported (map script_of (x_scripts a)) of
     None \<Rightarrow> Inr () | Some (n, m) \<Rightarrow> Inl (SystemExit (''unsupported character in '' @ n @ ''='' @ m)))"

definition run_script :: "string \<times> string \<Rightarrow> string" where
  "run_script s = (case s of (n, m) \<Rightarrow>
     ''if TEST_MATCH_SUBTEST='' @ dq @ m @ dq @ '' TEST_MATCH_TESTCASE='' @ dq @ m @ dq @ '' '' @ dq @ ''$D/'' @ n @ dq @
     ''; then echo '' @ dq @ ''RESULT PASS '' @ n @ dq @ ''; else echo '' @ dq @ ''RESULT FAIL '' @ n @ dq @ ''; fi'')"

definition bash_script :: "vm_args \<Rightarrow> string" where
  "bash_script a = ''D=/usr/lib/systemd/tests/testdata/units; mkdir -p '' @ dq @ ''$D'' @ dq @ ''; for f in '' @ dq @ ''$CREDENTIALS_DIRECTORY'' @ dq @
     ''/test.*; do n=$${f##*/test.}; cp '' @ dq @ ''$f'' @ dq @ '' '' @ dq @ ''$D/$n'' @ dq @ ''; chmod +x '' @ dq @ ''$D/$n'' @ dq @ ''; done; '' @
     join ''; '' (map (run_script \<circ> script_of) (x_scripts a)) @ ''; exit 0''"

definition vm_unit :: "vm_args \<Rightarrow> string" where
  "vm_unit a = lines_text [''[Unit]'', ''Description=run integration subtests'', ''After=multi-user.target'', ''Wants=multi-user.target'',
     ''SuccessAction=poweroff-force'', ''FailureAction=poweroff-force'', [], ''[Service]'', ''Type=oneshot'',
     ''TimeoutStartSec='' @ show_int (x_timeout a - 60), ''ImportCredential=test.*'', ''StandardOutput=journal+console'',
     ''StandardError=journal+console'', ''ExecStart=/bin/bash -c '' @ [cq] @ bash_script a @ [cq]]"

definition mkosi_head :: "string \<Rightarrow> string \<Rightarrow> string \<Rightarrow> string list" where
  "mkosi_head tree name journal = [''mkosi'', ''--directory'', tree, ''--machine'', name, ''--ephemeral=yes'',
     ''--runtime-network=none'', ''--runtime-build-sources=no'', ''--tools-tree=no'', ''--tpm=no'',
     ''--register=no'', ''--console=read-only'', ''--forward-journal'', journal]"

definition kernel_args :: "string \<Rightarrow> string" where
  "kernel_args name = ''systemd.hostname='' @ name @ '' systemd.unit='' @ name @ ''.service '' @
     ''systemd.mask=systemd-networkd-wait-online.service systemd.mask=serial-getty@.service '' @
     ''systemd.show_status=error systemd.crash_shell=0 systemd.crash_action=poweroff loglevel=4''"

definition tests_cmd :: "vm_args \<Rightarrow> string list \<Rightarrow> string list" where
  "tests_cmd a creds = mkosi_head (x_tree a) (x_machine a) (x_out a @ ''/vm-run-tests.journal'') @ [''--cpus'', x_cpus a] @
     [''--credential'', ''systemd.extra-unit.runtests.service='' @ sh_quote (vm_unit a)] @ creds @
     [''--kernel-command-line-extra'', kernel_args ''runtests'', ''vm'']"

definition test_line :: "string \<Rightarrow> bool" where
  "test_line l = (startswith l ''RESULT '' \<or> str_in ''assert'' (lower l) \<or> startswith l ''+ '' \<and> (str_in ''exit'' l \<or> str_in ''test '' l))"

text \<open>The script: \<open>units\<close> are the files of the directory of the tests.\<close>

definition vm_run_tests :: "machine \<Rightarrow> vm_args \<Rightarrow> dir \<Rightarrow> vm_done result" where
  "vm_run_tests vm a units =
     bindE (credentials a units) (\<lambda>creds.
     bindE (check_scripts a) (\<lambda>_.
     Inr (run_vm vm ''vm-run-tests'' ''runtests'' (x_out a) (tests_cmd a creds) (x_timeout a) test_line)))"

section \<open>vm-probe.py\<close>

definition PROBE_UNIT :: string where
  "PROBE_UNIT = lines_text [''[Unit]'', ''Description=fd store probe'', ''After=multi-user.target'', ''Wants=multi-user.target'',
     ''SuccessAction=poweroff-force'', ''FailureAction=poweroff-force'', [], ''[Service]'', ''Type=oneshot'', ''TimeoutStartSec=180'',
     ''LoadCredential=probe.py'', ''StandardOutput=journal+console'', ''StandardError=journal+console'',
     ''ExecStart=/bin/sh -c '' @ [cq] @ ''echo PROBE lsm: $(cat /sys/kernel/security/lsm 2>&1); echo PROBE kernel: $(uname -r); systemctl start systemd-nsresourced.socket; python3 '' @
       dq @ ''$CREDENTIALS_DIRECTORY/probe.py'' @ dq @ [cq]]"

definition probe_cmd :: "string \<Rightarrow> string \<Rightarrow> string \<Rightarrow> string \<Rightarrow> string list" where
  "probe_cmd tree out cmdline probe = mkosi_head tree ''fdprobe'' (out @ ''/vm-probe.journal'') @
     [''--credential'', ''systemd.extra-unit.fdprobe.service='' @ sh_quote PROBE_UNIT, ''--credential'', ''probe.py='' @ sh_quote probe,
      ''--kernel-command-line-extra'', kernel_args ''fdprobe'' @ '' '' @ cmdline, ''vm'']"

definition probe_line :: "string \<Rightarrow> bool" where
  "probe_line l = (startswith l ''PROBE'' \<or> str_in ''Traceback'' l \<or> str_in ''Error'' l \<or> str_in ''error'' (lower l))"

text \<open>The script: \<open>probe\<close> is the text of \<^verbatim>\<open>probe-fdstore-root.py\<close> beside it.\<close>

definition vm_probe :: "machine \<Rightarrow> string \<Rightarrow> string \<Rightarrow> string \<Rightarrow> int \<Rightarrow> string \<Rightarrow> vm_done" where
  "vm_probe vm tree out cmdline timeout_s probe = run_vm vm ''vm-probe'' ''fdprobe'' out (probe_cmd tree out cmdline probe) timeout_s probe_line"

section \<open>Quoting\<close>

lemma read_safe: "list_all sh_safe s \<Longrightarrow> sh_read Plain s = Some s"
proof (induction s)
  case (Cons c s)
  have "\<not> sh_safe cq" "\<not> sh_safe cdq" by code_simp+
  with Cons show ?case by auto
qed simp

lemma read_single: "sh_read Single (s @ [cq]) = Some s" if "cq \<notin> set s"
  using that by (induction s) auto

lemma replace_char: "replace [c] q (x # s) = (if x = c then q @ replace [c] q s else x # replace [c] q s)"
proof (cases "x = c")
  case True
  then show ?thesis by (simp add: replace.simps [of "[c]" q "c # s"])
next
  case False
  show ?thesis
  proof (cases "str_find [c] s")
    case None
    then show ?thesis using False by (simp add: replace.simps [of "[c]" q "x # s"] replace.simps [of "[c]" q s])
  next
    case (Some n)
    then show ?thesis using False by (simp add: replace.simps [of "[c]" q "x # s"] replace.simps [of "[c]" q s])
  qed
qed

lemma read_replaced: "sh_read Single (replace [cq] [cq, cdq, cq, cdq, cq] s @ [cq]) = Some s"
proof (induction s)
  case (Cons c s)
  then show ?case by (simp add: replace_char)
qed (simp add: replace.simps)

text \<open>A quoted text is one word of the shell, and stands for the text.\<close>

theorem sh_read_quote: "sh_read Plain (sh_quote s) = Some s"
  by (auto simp: sh_quote_def read_safe read_replaced)

text \<open>The command of the unit is one quoted word when the check has passed.\<close>

lemma join_without: "c \<notin> set sep \<Longrightarrow> \<forall>w\<in>set ws. c \<notin> set w \<Longrightarrow> c \<notin> set (join sep ws)"
  using set_join [of sep ws] by auto

lemma checked_scripts:
  assumes "check_scripts a = Inr ()" "w \<in> set (x_scripts a)"
  shows "cq \<notin> set (fst (script_of w)) \<and> cq \<notin> set (snd (script_of w))"
proof -
  have "List.find unsupported (map script_of (x_scripts a)) = None" using assms(1) by (auto simp: check_scripts_def split: option.splits prod.splits)
  with assms(2) have "\<not> unsupported (script_of w)" by (auto simp: find_None_iff)
  then show ?thesis by (auto simp: unsupported_def list_ex_iff)
qed

theorem unit_command:
  assumes "check_scripts a = Inr ()"
  shows "\<exists>before. vm_unit a = before @ ''ExecStart=/bin/bash -c '' @ [cq] @ bash_script a @ [cq] @ nl \<and>
    sh_read Plain ([cq] @ bash_script a @ [cq]) = Some (bash_script a)"
proof -
  have "cq \<notin> set (run_script (script_of w))" if "w \<in> set (x_scripts a)" for w
    using checked_scripts [OF assms that] by (cases "script_of w") (auto simp: run_script_def)
  then have "cq \<notin> set (join ''; '' (map (run_script \<circ> script_of) (x_scripts a)))" by (intro join_without) auto
  then have "cq \<notin> set (bash_script a)" by (simp add: bash_script_def)
  then have "sh_read Plain ([cq] @ bash_script a @ [cq]) = Some (bash_script a)" using read_single by simp
  moreover have "\<exists>before. vm_unit a = before @ ''ExecStart=/bin/bash -c '' @ [cq] @ bash_script a @ [cq] @ nl"
  proof -
    define ls l where "ls = [''[Unit]'', ''Description=run integration subtests'', ''After=multi-user.target'', ''Wants=multi-user.target'',
     ''SuccessAction=poweroff-force'', ''FailureAction=poweroff-force'', [], ''[Service]'', ''Type=oneshot'',
     ''TimeoutStartSec='' @ show_int (x_timeout a - 60), ''ImportCredential=test.*'', ''StandardOutput=journal+console'',
     ''StandardError=journal+console'']" and "l = ''ExecStart=/bin/bash -c '' @ [cq] @ bash_script a @ [cq]"
    have "vm_unit a = lines_text (ls @ [l])" by (simp add: vm_unit_def ls_def l_def)
    then have "vm_unit a = lines_text ls @ l @ nl" by (simp only: lines_text_append) (simp add: lines_text_def)
    then show ?thesis by (auto simp: l_def)
  qed
  ultimately show ?thesis by blast
qed

end
