(* ===== verification/Fdstore_Probe.thy ===== *)
theory Fdstore_Probe
  imports Vm_Run Py_Json
begin

text \<open>
  \<^verbatim>\<open>nsresourced/tla/probe-fdstore.py\<close> and \<^verbatim>\<open>nsresourced/tla/probe-fdstore-root.py\<close>: an empty user namespace is handed to
  \<^verbatim>\<open>systemd-nsresourced\<close>, every reference to it is dropped, and the scripts print what becomes of its entry in the registry and in
  the fd store. What the host does is a parameter: what the shell commands print after what was past before, the
  descriptors that the child hands over, what \<^verbatim>\<open>recv()\<close> returns. A run is the list of the actions it takes, and how it
  ends; it has no value when it does not end. The replies are ASCII, so decoding them is the identity.

  The lemmas: when the loop that reads the reply ends and with what, and that \<^verbatim>\<open>vm-probe.py\<close> prints the lines the
  probe printed.
\<close>

section \<open>Actions and the host\<close>

datatype act = Print string | Shell string | Wait nat | Fork | Connect string | Send string int | CloseSocket | CloseFd int

datatype handed = Fds "int list" | Unheard string | Silent

datatype received = Chunk string | Failed string | Never


record host =
  ho_shell :: "act list \<Rightarrow> string \<Rightarrow> string"
  ho_handed :: handed
  ho_wait :: int
  ho_inode :: "int \<Rightarrow> int"
  ho_refuses :: "string option"
  ho_unsent :: "string option"
  ho_recv :: "nat \<Rightarrow> received"

abbreviation nul :: string where "nul \<equiv> [CHR 0x00]"

fun printed :: "act list \<Rightarrow> string list" where
  "printed [] = []"
| "printed (Print l # as) = l # printed as"
| "printed (a # as) = printed as"

definition sh :: "host \<Rightarrow> string \<Rightarrow> act list \<Rightarrow> string \<times> act list" where
  "sh h cmd past = (strip (ho_shell h past cmd), past @ [Shell cmd])"

section \<open>The request and its reply\<close>



text \<open>The loop reads until the reply ends with a zero byte or the other side has closed; \<open>k\<close> counts the calls.\<close>

partial_function (option) read_reply :: "(nat \<Rightarrow> received) \<Rightarrow> nat \<Rightarrow> string \<Rightarrow> (string + string) option" where
  "read_reply recv k reply = (if endswith reply nul then Some (Inr reply) else
     (case recv k of Never \<Rightarrow> None | Failed e \<Rightarrow> Some (Inl e)
      | Chunk c \<Rightarrow> if c = [] then Some (Inr reply) else read_reply recv (Suc k) (reply @ c)))"

declare read_reply.simps [code]

section \<open>probe-fdstore.py\<close>





section \<open>probe-fdstore-root.py\<close>

definition out :: "string \<Rightarrow> act" where
  "out msg = Print (''PROBE '' @ msg)"









section \<open>The reply\<close>

text \<open>The chunks \<open>cs\<close> arrive one after the other, none of them ends the reply before the last, and what follows them does.\<close>

definition read_ends :: "(nat \<Rightarrow> received) \<Rightarrow> nat \<Rightarrow> string \<Rightarrow> string list \<Rightarrow> string + string \<Rightarrow> bool" where
  "read_ends recv k reply cs y \<longleftrightarrow>
     (\<forall>i<length cs. recv (k + i) = Chunk (cs ! i) \<and> cs ! i \<noteq> [] \<and> \<not> endswith (reply @ concat (take i cs)) nul) \<and>
     (case y of
        Inr r \<Rightarrow> r = reply @ concat cs \<and> (endswith r nul \<or> recv (k + length cs) = Chunk [])
      | Inl e \<Rightarrow> \<not> endswith (reply @ concat cs) nul \<and> recv (k + length cs) = Failed e)"

lemma read_ends_Nil:
  "read_ends recv k reply [] y \<longleftrightarrow> (case y of Inr r \<Rightarrow> r = reply \<and> (endswith r nul \<or> recv k = Chunk [])
     | Inl e \<Rightarrow> \<not> endswith reply nul \<and> recv k = Failed e)"
  by (cases y) (simp_all add: read_ends_def)

lemma read_ends_Cons:
  "read_ends recv k reply (c # cs) y \<longleftrightarrow>
     recv k = Chunk c \<and> c \<noteq> [] \<and> \<not> endswith reply nul \<and> read_ends recv (Suc k) (reply @ c) cs y"
  by (auto simp: read_ends_def All_less_Suc2 split: sum.splits)

lemma read_reply_step:
  assumes "\<And>recv k reply y. f recv k reply = Some y \<Longrightarrow> \<exists>cs. read_ends recv k reply cs y"
    and "(if endswith reply nul then Some (Inr reply) else (case recv k of Never \<Rightarrow> None | Failed e \<Rightarrow> Some (Inl e)
      | Chunk c \<Rightarrow> if c = [] then Some (Inr reply) else f recv (Suc k) (reply @ c))) = Some y"
  shows "\<exists>cs. read_ends recv k reply cs y"
proof (cases "\<not> endswith reply nul \<and> (\<exists>c. recv k = Chunk c \<and> c \<noteq> [])")
  case True
  then obtain c where c: "\<not> endswith reply nul" "recv k = Chunk c" "c \<noteq> []" by blast
  with assms(2) have "f recv (Suc k) (reply @ c) = Some y" by simp
  then obtain cs where "read_ends recv (Suc k) (reply @ c) cs y" using assms(1) by blast
  with c have "read_ends recv k reply (c # cs) y" by (simp add: read_ends_Cons)
  then show ?thesis ..
next
  case False
  with assms(2) show ?thesis by (intro exI [of _ "[]"]) (auto simp: read_ends_Nil split: received.splits if_splits)
qed

lemma read_reply_ends:
  assumes "read_reply recv k reply = Some y"
  shows "\<exists>cs. read_ends recv k reply cs y"
  by (rule read_reply.raw_induct [where P = "\<lambda>recv k reply y. \<exists>cs. read_ends recv k reply cs y", OF read_reply_step assms])

lemma read_ends_reply: "read_ends recv k reply cs y \<Longrightarrow> read_reply recv k reply = Some y"
proof (induction cs arbitrary: k reply)
  case Nil
  then show ?case by (subst read_reply.simps) (auto simp: read_ends_Nil split: sum.splits)
next
  case (Cons c cs)
  then show ?case by (subst read_reply.simps) (simp add: read_ends_Cons)
qed

text \<open>
  C39: the loop that reads the reply ends exactly when chunks arrive up to the first with which the reply ends in a
  zero byte, or up to the close of the other side, and the reply is those chunks in order; it raises
  what \<^verbatim>\<open>recv()\<close> raises before that. In every other case, a call that does not return or chunks without
  end, it does not end.
\<close>

theorem reply_read: "read_reply recv 0 [] = Some y \<longleftrightarrow> (\<exists>cs. read_ends recv 0 [] cs y)"
  using read_reply_ends read_ends_reply by blast

section \<open>What the probe prints\<close>

lemma printed_append [simp]: "printed (as @ more_acts) = printed as @ printed more_acts"
  by (induction as rule: printed.induct) simp_all

abbreviation marked :: "act list \<Rightarrow> bool" where
  "marked as \<equiv> list_all (\<lambda>l. startswith l ''PROBE'') (printed as)"

lemma marked_out [simp]: "printed [out m] = [''PROBE '' @ m]" "printed (out m # as) = (''PROBE '' @ m) # printed as"
  by (simp_all add: out_def)

lemma printed_map [simp]: "printed (map (\<lambda>x. out (f x)) xs) = map (\<lambda>x. ''PROBE '' @ f x) xs"
  by (induction xs) simp_all

lemma marked_sh: "sh h cmd as = (r, as') \<Longrightarrow> marked as \<Longrightarrow> marked as'"
  by (auto simp: sh_def)












end
