(* ===== verification/Spec2Isabelle.thy ===== *)
theory Spec2Isabelle
  imports Pipelines Cfg_Mount_Props Cfg_Verity Cfg_Userns Cfg_Executor Cfg_Fiber_Props
    Cfg_Order Cfg_Own Cfg_Coredump Cfg_Ondemand Cfg_Proposal_Props Fiber_Trace Fill_Kernel
    Show_Props Cbmc_Props Cbmc_Trace Fdstore_Probe
begin

text \<open>
  The Python programs beside the TLA+ models of the repository: what they compute, and that it is
  right.

  The repository holds TLA+ models of kernel and systemd code. Around the models there are programs:
  generators of TLC's configuration files (\<^verbatim>\<open>gen-cfgs.py\<close>), a generator of assembly litmus tests
  (\<^verbatim>\<open>litmus/gen-asm.py\<close>), a converter of kernel traces into the event lists that a model replays
  (\<^verbatim>\<open>trace/trace2ndjson.py\<close>), and scripts that read TLC's output: tables of results
  (\<^verbatim>\<open>fill-results.py\<close>) and printers of counterexamples (\<^verbatim>\<open>trace.py\<close>, \<^verbatim>\<open>show-*-trace.py\<close>). They
  meet in files: what a generator writes is what the shell scripts and TLC read, what TLC and the shell
  scripts print is what the readers parse. The development models each program as a function over the
  files it reads and writes; \<open>Pipelines\<close> is about the programs that read what another of them wrote.

  \<^bold>\<open>The Python layer.\<close>
  \<open>Py_Base\<close>: exceptions as the left side of a sum (\<open>py_error + 'a\<close>), the loops that may raise
  (\<open>foldE\<close>, \<open>mapE\<close>, \<open>filterE\<close>), insertion-ordered dictionaries as association lists.
  \<open>Py_Str\<close>: the \<^verbatim>\<open>str\<close> methods on Latin-1 text, \<^verbatim>\<open>int()\<close> and the decimal rendering.
  \<open>Py_Re\<close>: the \<^verbatim>\<open>re\<close> module, a backtracking matcher in the order of Python's, sound and complete
  for the declarative \<open>matches\<close>; \<open>Py_Re_First\<close>: rules for the match that is found first. \<open>Py_Lines\<close>: texts made of lines and
  tokens.
  \<open>Py_Json\<close>: \<^verbatim>\<open>json.dumps()\<close> and \<^verbatim>\<open>repr()\<close>.
  A script is a function from its arguments and the directory (\<open>dir\<close>, names to texts) to the
  directory afterwards and what it prints, or the exception it ends with. \<open>Py_Out\<close>: where a script writes or prints
  before an exception can end it, its result is a \<open>ran\<close>: what it had written or printed, beside the exception.

  \<^bold>\<open>trace2ndjson.py\<close> (\<^verbatim>\<open>kernel/work.mount.gp_on_demand.proposal/trace\<close>).
  \<open>Trace_Parse\<close>: \<^verbatim>\<open>parse()\<close>, \<^verbatim>\<open>locked()\<close>, \<^verbatim>\<open>is_put()\<close>. \<open>Trace_Convert\<close>: \<^verbatim>\<open>convert()\<close>, one
  definition for each of its loops over the state \<open>cstate\<close>; the events are mutable dictionaries that
  several lists share, so that they live in a heap and the lists hold their positions. \<open>Trace_Main\<close>: the
  output file and the command line. \<open>Trace_Frame\<close>: what each phase leaves alone; \<open>Trace_Ledger\<close>: the
  invariant that ties tasks, heap and open references; \<open>Trace_Account\<close>: what is emitted.
  \<open>Trace_Props\<close> (C1 to C8): no event the model needs is lost, the events of a walker and of a holder are
  runs of the model's tasks, every emitted event names a task of the configuration, the locked events are
  ranked without gaps, the result is a subsequence of the input with only bookkeeping keys changed, a
  trace without an umount is skipped, and the file written is read back record by record, whole or up to the record that
  could not be written. \<open>Trace_Files\<close> (C9): the events of a dump are divided among the mounts, and every mount
  is accounted for in the files, the summary and the lines printed; a run that an exception ends has printed nothing (\<open>main_stops\<close>).

  \<^bold>\<open>gen-asm.py\<close> (\<^verbatim>\<open>.../litmus\<close>).
  \<open>Asm_Ops\<close>: abstract operations, the tests, register allocation. \<open>Asm_Backend\<close>: the translation to
  AArch64 and PPC and the litmus file. \<open>Asm_Sem\<close>: what the operations and the instructions do on one
  thread; all branches go forward, so that both are recursions on the rest of the code. \<open>Asm_Correct\<close>: translation is a simulation, for straight lines, labels and the lock.
  \<open>Asm_Props\<close> (C11 to C14): every thread of every test runs to its end on both architectures with the
  result of its abstract operations, no two names share a register and all registers are ones the machine has for
  it, and the table of a litmus file reads back as its columns.
  Concurrency is not modelled: the tests are about memory orders, which the tools that run them check.

  \<^bold>\<open>gen-cfgs.py\<close>, eleven of them.
  \<open>Tlc_Cfg\<close>: configuration files, \<open>read_cfg\<close> that reads them back, the \<^verbatim>\<open>sed\<close> commands of the
  runner scripts, the loop that writes a table, and the contracts between a table and its lines as locales
  (\<open>cfg_table\<close>, \<open>cfg_runs\<close>, \<open>cfg_suite\<close>), which the generators interpret. \<open>Cfg_Mount\<close>,
  \<open>Cfg_Mount_Props\<close> (\<^verbatim>\<open>kernel/mount\<close>), \<open>Cfg_Vacate\<close> (\<^verbatim>\<open>work.mount.knullfs.4\<close>), \<open>Cfg_Order\<close>
  (\<^verbatim>\<open>work.mount.knullfs.7.order\<close>), \<open>Cfg_Own\<close> (\<^verbatim>\<open>mount-ownership\<close>), \<open>Cfg_Coredump\<close>
  (\<^verbatim>\<open>work.coredump.close_files.fixes\<close>), \<open>Cfg_Ondemand\<close> and \<open>Cfg_Proposal\<close> (\<^verbatim>\<open>gp_on_demand\<close> and its
  proposal), \<open>Cfg_Defaults\<close> with \<open>Cfg_Verity\<close> (\<^verbatim>\<open>systemd/mountfsd\<close>), \<open>Cfg_Userns\<close>
  (\<^verbatim>\<open>nsresourced\<close>), \<open>Cfg_Executor\<close> and \<open>Cfg_Fiber\<close>. Each has its tables word for word, the
  lines of an entry and the script \<open>gen\<close>. C15 to C23 (three systemd generators and three of the kernel's
  together, at the end of this theory): a run raises nothing, leaves every other file
  alone, and each file it writes reads back as its entry, assigns exactly the constants the TLA+ module
  declares, and tells the runner scripts the expectation of its entry; stale files go; and what the tables
  mean: the families of fixes of the fiber model, answers that exclude each other, tasks that agree with
  the layouts.

  \<^bold>\<open>fill-results.py\<close>, six of them. \<open>Fill_Table\<close> (the script of the four systemd models),
  \<open>Fill_Kernel\<close> (coredump and close\_range\_except). C25 to C30: what \<^verbatim>\<open>summarize.sh\<close> prints is read
  back row by row; filling a README twice is filling it once with the newer table; when the loop over the
  lines of the old table ends, exactly; what happens at the end of a file without a newline; the loop with
  the names it has seen agrees with its declarative reading.

  \<^bold>\<open>trace.py\<close> (\<^verbatim>\<open>systemd/fiber\<close>). \<open>Fiber_Parse\<close>: the reader of TLA+ values; \<open>Fiber_Trace\<close>:
  the printer. C24, C31: every value in the notation of TLC is read back, unless a function of several
  entries lies inside a function (\<open>fiber_parse_nested\<close>); every state is printed in full but the last, of which only the action is.

  \<^bold>\<open>show-*-trace.py\<close>, eleven of them, six different printers in copies. \<open>Show_Base\<close>: what the scripts share, the search for the trace in TLC's log, the split
  into states, \<^verbatim>\<open>var()\<close> and the readers of records, with the contract \<open>shower\<close> of a printer;
  \<open>Show_Scripts\<close>: the scripts; \<open>Show_Props\<close> (C32, C33): on the log of a counterexample a script prints what
  TLC printed, state by state, the values with their whitespace collapsed; the last variable of the last
  state takes the end of the log with it, but in \<^verbatim>\<open>show-vacant-trace.py\<close>, which cuts it off.

  \<^bold>\<open>The tools of the proposal\<close> (\<^verbatim>\<open>kernel/work.mount.gp_on_demand.proposal\<close>). \<open>Memo_Table\<close>
  (\<^verbatim>\<open>litmus/update-memo-table.py\<close>, C34): the table of the litmus results is written anew from the columns that
  \<^verbatim>\<open>collect-results.sh\<close> prints. \<open>Cbmc_Run\<close>, \<open>Cbmc_Props\<close> (\<^verbatim>\<open>cbmc/run.py\<close>, \<^verbatim>\<open>cbmc/measure.py\<close>, C36): the
  runs of CBMC; the verdict of a run is the comparison of the failing with the expected properties, and the
  logs do not depend on the order in which the threads end (\<open>cbmc_any_order\<close>). \<open>Cbmc_Trace\<close>
  (\<^verbatim>\<open>cbmc/trace2.py\<close>, \<^verbatim>\<open>cbmc/trace_summary.py\<close>): the two readers of CBMC's traces, of which the second reads
  none of the lines the first one does (\<open>summary_silent\<close>). \<open>Ftrace_Extract\<close> (\<^verbatim>\<open>trace/jens/extract.py\<close>,
  C37): the image of a virtual machine is split into the files of its runs.

  \<^bold>\<open>Pipelines.\<close> C38: the lines of a run reach \<^verbatim>\<open>parse()\<close> of trace2ndjson.py through the image and
  extract.py. C10: its events are typed as the properties of \<^verbatim>\<open>convert()\<close> ask for, also mount by mount. C35: the tests that
  gen-asm.py writes are the rows of the memo. C40: what the probe of the fd store prints is what vm-probe.py shows.

  \<^bold>\<open>Virtual machines.\<close> \<open>Vm_Run\<close> (\<^verbatim>\<open>executor/tla/vm-run-tests.py\<close>, \<^verbatim>\<open>nsresourced/tla/vm-probe.py\<close>): the
  command line of \<^verbatim>\<open>mkosi\<close> and the lines of the journal that are printed; quoting is read back
  (\<open>sh_read_quote\<close>), and names and patterns that pass the check leave the unit's command one quoted word
  (\<open>unit_command\<close>).

  \<^bold>\<open>The probes of the fd store.\<close> \<open>Fdstore_Probe\<close> (\<^verbatim>\<open>nsresourced/tla/probe-fdstore.py\<close>,
  \<^verbatim>\<open>nsresourced/tla/probe-fdstore-root.py\<close>): a run is the list of its actions (\<open>act\<close>: lines printed, shell commands, waits,
  what is done to the sockets), and the shell answers by the actions before the command. C39: when the loop that reads the
  reply ends, and with what; C40.

  \<^bold>\<open>Termination and bounds.\<close> Every loop of the programs is a structural recursion or a \<open>function\<close> with
  its measure, but for two, which may run for ever: the loop of \<^verbatim>\<open>fill-results.py\<close> and the one that reads the
  reply in the probes. They are option-valued partial functions, and C28 and C39 say when they end. There is no fuel. Python's integers have no
  width, and the programs compute with no machine words.

  \<^bold>\<open>Parameters.\<close> The compiler, CBMC and the clock of \<^verbatim>\<open>cbmc/run.py\<close> (the record \<open>tools\<close>: the outcome of each
  command line, about which nothing is assumed), \<^verbatim>\<open>mkosi\<close> and \<^verbatim>\<open>journalctl\<close> (the record \<open>machine\<close>), the host of the probes (the
  record \<open>host\<close>: the shell, the child that makes the namespace, \<^verbatim>\<open>connect()\<close>, \<^verbatim>\<open>sendmsg()\<close> and \<^verbatim>\<open>recv()\<close>), and the time of day in \<open>update_memo\<close>. Else the programs use the
  standard library only, and what they use of it is defined in the Python layer. A number that \<^verbatim>\<open>float()\<close> reads
  is kept as its decimal digits. Text is Latin-1; the files' encodings are not modelled.

  \<^bold>\<open>Not modelled.\<close> Of \<^verbatim>\<open>argparse\<close> only its result is here, and of the child process of the probes only what it hands
  over. A run of \<^verbatim>\<open>extract.py\<close> that begins while the file of the same name is open is left out. The TLA+ modules, the C, litmus and shell files are not Python; of them only what a
  program's output has to agree with is here: the constants that modules declare and the lines that shell
  scripts read or print.
\<close>

section \<open>The generators that share a contract\<close>

text \<open>
  C16: The generators of mountfsd, nsresourced and executor never fail, in whatever directory they run. Afterwards the
  configurations of the directory are exactly the ones of the table, whatever was there before, and files that are no
  configurations are untouched; each configuration reads back with its overrides applied (an entry of executor without
  invariants is checked for TypeOK), assigns exactly the constants that its TLA+ module declares, and has the
  expectation of its entry as the first one that sed finds.
\<close>

theorem systemd_generated:
  "(\<exists>d' out. Cfg_Verity.gen d = Inr (d', out) \<and> Tlc_Cfg.load d' = map_of (specs verity_spec Cfg_Verity.CONFIGS)
     \<and> (\<forall>f. suffix ''.cfg'' f \<or> map_of d' f = map_of d f) \<and> delivered Cfg_Verity.CONFIGS verity_spec verity_expect verity_mods d') \<and>
   (\<exists>d' out. Cfg_Userns.gen d = Inr (d', out) \<and> Tlc_Cfg.load d' = map_of (specs userns_spec Cfg_Userns.CONFIGS)
     \<and> (\<forall>f. suffix ''.cfg'' f \<or> map_of d' f = map_of d f) \<and> delivered Cfg_Userns.CONFIGS userns_spec userns_expect userns_mods d') \<and>
   (\<exists>d' out. Cfg_Executor.gen d = Inr (d', out) \<and> Tlc_Cfg.load d' = map_of (specs executor_spec Cfg_Executor.CONFIGS)
     \<and> (\<forall>f. suffix ''.cfg'' f \<or> map_of d' f = map_of d f) \<and> delivered Cfg_Executor.CONFIGS executor_spec Cfg_Executor.expect_of executor_mods d')"
  using verity_generated userns_generated executor_generated by blast

text \<open>
  C20: The generators of work.mount.knullfs.4, mount-ownership and coredump never fail, in whatever directory they run: every
  file that is no configuration of their tables keeps its content, and every entry reads back as it says, with exactly
  the constants of the module that check.sh runs it with and the expectation of the entry. What they print is the
  number of configurations, or for each of coredump's the module that check.sh derives from its name.
\<close>

theorem kernel_generated:
  "(\<exists>d'. Cfg_Vacate.gen d = Inr (d', show_nat (length Cfg_Vacate.MW_CONFIGS + length Cfg_Vacate.VAC_CONFIGS) @ '' configurations written'')
     \<and> cfgs_written vacate_specs d d'
     \<and> delivered Cfg_Vacate.MW_CONFIGS Cfg_Vacate.walk_spec Cfg_Vacate.mw_expect (\<lambda>n. vacate_modules (check_module n)) d'
     \<and> delivered Cfg_Vacate.VAC_CONFIGS (Cfg_Vacate.vac_spec Cfg_Vacate.VAC_OTHER) Cfg_Vacate.vac_expect (\<lambda>n. vacate_modules (check_module n)) d') \<and>
   (\<exists>d'. Cfg_Own.gen d = Inr (d', show_nat (length OWN_CONFIGS) @ '' configurations written'')
     \<and> cfgs_written (specs own_spec OWN_CONFIGS) d d'
     \<and> delivered OWN_CONFIGS own_spec own_expect (\<lambda>n. own_modules (check_module n)) d') \<and>
   (\<exists>d'. Cfg_Coredump.gen d = Inr (d', map (\<lambda>(n, e). n @ '' -> '' @ check_module n) Cfg_Coredump.CONFIGS)
     \<and> cfgs_written (specs core_spec Cfg_Coredump.CONFIGS) d d'
     \<and> delivered Cfg_Coredump.CONFIGS core_spec core_expect (\<lambda>n. core_modules (check_module n)) d')"
  by (intro conjI vacate_generated own_generated core_generated)

end
